(* ===== verification/Otel_Prelude.thy ===== *)
theory Otel_Prelude
  imports Main "HOL-Library.Word"
begin

text \<open>
  The prelude of the development: the names of the machine types the sources use, the
  arithmetic of the Rust standard library on them (\<open>saturating_add\<close>, \<open>checked_mul\<close>,
  \<open>to_be_bytes\<close> and so on), byte-string literals, and the generic lemmas on lists and words that
  the component theories share. The program is built for 64-bit targets only
  (\<^verbatim>\<open>src/src/lib.rs\<close> rejects every other width at compile time), so \<open>usize\<close> is
  \<open>u64\<close> wherever its width matters and a natural number where it only indexes a slice.
\<close>

unbundle bit_operations_syntax

section \<open>Machine types\<close>

type_synonym u8 = "8 word"
type_synonym u16 = "16 word"
type_synonym u32 = "32 word"
type_synonym u64 = "64 word"
type_synonym i64 = "64 word"
type_synonym bytes = "8 word list"
type_synonym rust_string = "8 word list"

text \<open>
  A Rust \<open>String\<close> or \<open>&str\<close> is its UTF-8 bytes. A literal made of ASCII characters is
  written \<open>lit ''...''\<close>.
\<close>

definition lit :: "string \<Rightarrow> rust_string" where
  "lit s = map of_char s"

text \<open>Collections of rewrite rules that the component theories extend.\<close>

named_theorems wire_simps \<open>how the wire readers and writers act on known bytes\<close>
named_theorems policy_simps \<open>the unfoldings of the delivery policy\<close>
named_theorems loop_simps \<open>the unfoldings of the export loop\<close>

section \<open>Arithmetic of the Rust standard library\<close>

definition saturating_add :: "'a::len word \<Rightarrow> 'a word \<Rightarrow> 'a word" where
  "saturating_add a b = (if unat a + unat b < 2 ^ LENGTH('a) then a + b else - 1)"

definition saturating_sub :: "'a::len word \<Rightarrow> 'a word \<Rightarrow> 'a word" where
  "saturating_sub a b = (if b \<le> a then a - b else 0)"

definition saturating_mul :: "'a::len word \<Rightarrow> 'a word \<Rightarrow> 'a word" where
  "saturating_mul a b = (if unat a * unat b < 2 ^ LENGTH('a) then a * b else - 1)"

definition checked_add :: "'a::len word \<Rightarrow> 'a word \<Rightarrow> 'a word option" where
  "checked_add a b = (if unat a + unat b < 2 ^ LENGTH('a) then Some (a + b) else None)"

definition checked_mul :: "'a::len word \<Rightarrow> 'a word \<Rightarrow> 'a word option" where
  "checked_mul a b = (if unat a * unat b < 2 ^ LENGTH('a) then Some (a * b) else None)"

lemma unat_minus_one: "unat (- 1 :: 'a::len word) = 2 ^ LENGTH('a) - 1"
  by (simp add: unsigned_minus_1_eq_mask mask_eq_exp_minus_1)

lemma unat_saturating_add:
  "unat (saturating_add a (b :: 'a::len word)) = min (unat a + unat b) (2 ^ LENGTH('a) - 1)"
  by (auto simp: saturating_add_def unat_minus_one unat_word_ariths min_def)

lemma unat_saturating_sub: "unat (saturating_sub a b) = unat a - unat b"
  by (auto simp: saturating_sub_def unat_sub word_le_nat_alt)

lemma unat_saturating_mul:
  "unat (saturating_mul a (b :: 'a::len word)) = min (unat a * unat b) (2 ^ LENGTH('a) - 1)"
proof (cases "unat a * unat b < 2 ^ LENGTH('a)")
  case True
  then have "unat a * unat b \<le> 2 ^ LENGTH('a) - 1" by linarith
  with True show ?thesis
    by (simp add: saturating_mul_def unat_word_ariths)
next
  case False
  then show ?thesis
    by (simp add: saturating_mul_def unat_minus_one)
qed

lemma checked_add_eq_Some:
  "checked_add a (b :: 'a::len word) = Some c \<longleftrightarrow> unat c = unat a + unat b"
proof
  assume "checked_add a b = Some c"
  then show "unat c = unat a + unat b"
    by (auto simp: checked_add_def unat_word_ariths split: if_splits)
next
  assume c: "unat c = unat a + unat b"
  then have "unat a + unat b < 2 ^ LENGTH('a)"
    by (metis unsigned_less)
  moreover from this c have "c = a + b"
    by (simp add: word_unat_eq_iff unat_word_ariths)
  ultimately show "checked_add a b = Some c"
    by (simp add: checked_add_def)
qed

lemma checked_mul_eq_Some:
  "checked_mul a (b :: 'a::len word) = Some c \<longleftrightarrow> unat c = unat a * unat b"
proof
  assume "checked_mul a b = Some c"
  then show "unat c = unat a * unat b"
    by (auto simp: checked_mul_def unat_word_ariths split: if_splits)
next
  assume c: "unat c = unat a * unat b"
  then have "unat a * unat b < 2 ^ LENGTH('a)"
    by (metis unsigned_less)
  moreover from this c have "c = a * b"
    by (simp add: word_unat_eq_iff unat_word_ariths)
  ultimately show "checked_mul a b = Some c"
    by (simp add: checked_mul_def)
qed

section \<open>Byte order\<close>

text \<open>
  \<open>be_nat n x\<close> is the last \<open>n\<close> bytes of \<open>x\<close>, most significant first: \<open>to_be_bytes\<close> of an
  integer \<open>n\<close> bytes wide. \<open>nat_be\<close> reads such bytes back (\<open>from_be_bytes\<close>).
\<close>

primrec be_nat :: "nat \<Rightarrow> nat \<Rightarrow> bytes" where
  "be_nat 0 x = []"
| "be_nat (Suc n) x = be_nat n (x div 256) @ [of_nat x]"

definition nat_be :: "bytes \<Rightarrow> nat" where
  "nat_be bs = foldl (\<lambda>a b. a * 256 + unat b) 0 bs"

definition u16_to_be_bytes :: "u16 \<Rightarrow> bytes" where
  "u16_to_be_bytes w = be_nat 2 (unat w)"

definition u32_to_be_bytes :: "u32 \<Rightarrow> bytes" where
  "u32_to_be_bytes w = be_nat 4 (unat w)"

definition u64_to_be_bytes :: "u64 \<Rightarrow> bytes" where
  "u64_to_be_bytes w = be_nat 8 (unat w)"

definition u64_to_le_bytes :: "u64 \<Rightarrow> bytes" where
  "u64_to_le_bytes w = rev (be_nat 8 (unat w))"

definition u16_from_be_bytes :: "bytes \<Rightarrow> u16" where
  "u16_from_be_bytes bs = of_nat (nat_be bs)"

definition u32_from_be_bytes :: "bytes \<Rightarrow> u32" where
  "u32_from_be_bytes bs = of_nat (nat_be bs)"

definition u64_from_be_bytes :: "bytes \<Rightarrow> u64" where
  "u64_from_be_bytes bs = of_nat (nat_be bs)"

lemma length_be_nat [simp]: "length (be_nat n x) = n"
  by (induction n arbitrary: x) auto

lemma nat_be_Nil [simp]: "nat_be [] = 0"
  by (simp add: nat_be_def)

lemma nat_be_snoc [simp]: "nat_be (bs @ [b]) = nat_be bs * 256 + unat b"
  by (simp add: nat_be_def)

lemma nat_be_be_nat: "nat_be (be_nat n x) = x mod 256 ^ n"
proof (induction n arbitrary: x)
  case 0
  then show ?case by simp
next
  case (Suc n)
  have "x mod 256 ^ Suc n = (x div 256 mod 256 ^ n) * 256 + x mod 256"
    by (metis (no_types, opaque_lifting) mod_mult2_eq mult.commute power_Suc)
  then show ?case
    by (simp add: Suc.IH unat_of_nat take_bit_eq_mod)
qed

lemma nat_be_less: "nat_be bs < 256 ^ length bs"
proof (induction bs rule: rev_induct)
  case Nil
  then show ?case by simp
next
  case (snoc b bs)
  have "unat b < 256"
    using unsigned_less [of b] by simp
  with snoc show ?case by simp
qed

lemma length_to_be_bytes [simp]:
  "length (u16_to_be_bytes a) = 2" "length (u32_to_be_bytes b) = 4"
  "length (u64_to_be_bytes c) = 8" "length (u64_to_le_bytes d) = 8"
  by (simp_all add: u16_to_be_bytes_def u32_to_be_bytes_def u64_to_be_bytes_def u64_to_le_bytes_def)

lemma from_to_be_bytes [simp]:
  "u16_from_be_bytes (u16_to_be_bytes a) = a"
  "u32_from_be_bytes (u32_to_be_bytes b) = b"
  "u64_from_be_bytes (u64_to_be_bytes c) = c"
proof -
  have "unat a < 256 ^ 2" using unsigned_less [of a] by simp
  then show "u16_from_be_bytes (u16_to_be_bytes a) = a"
    by (simp add: u16_from_be_bytes_def u16_to_be_bytes_def nat_be_be_nat)
next
  have "unat b < 256 ^ 4" using unsigned_less [of b] by simp
  then show "u32_from_be_bytes (u32_to_be_bytes b) = b"
    by (simp add: u32_from_be_bytes_def u32_to_be_bytes_def nat_be_be_nat)
next
  have "unat c < 256 ^ 8" using unsigned_less [of c] by simp
  then show "u64_from_be_bytes (u64_to_be_bytes c) = c"
    by (simp add: u64_from_be_bytes_def u64_to_be_bytes_def nat_be_be_nat)
qed

section \<open>Slices\<close>

text \<open>
  \<open>slice xs i n\<close> is the Rust slice \<open>xs[i..i + n]\<close>, for callers that have checked the bounds.
\<close>

definition slice :: "'a list \<Rightarrow> nat \<Rightarrow> nat \<Rightarrow> 'a list" where
  "slice xs i n = take n (drop i xs)"

lemma length_slice [simp]: "length (slice xs i n) = min n (length xs - i)"
  by (simp add: slice_def)

lemma drop_append_le: "drop i xs = ys @ zs \<Longrightarrow> length ys = n \<Longrightarrow> drop (i + n) xs = zs"
  by (metis add.commute append_eq_conv_conj drop_drop)

section \<open>Modular windows\<close>

lemma mod_window_neq:
  assumes "a < b" "b < a + c" "0 < c"
  shows "(a :: nat) mod c \<noteq> b mod c"
proof
  assume "a mod c = b mod c"
  then have "c dvd b - a"
    using assms(1) mod_eq_dvd_iff_nat [of a b c] by simp
  moreover have "0 < b - a" "b - a < c"
    using assms by auto
  ultimately show False
    using dvd_imp_le by fastforce
qed

section \<open>Decimal text\<close>

text \<open>Display of an unsigned integer, most significant digit first.\<close>

fun dec_digits :: "nat \<Rightarrow> bytes" where
  "dec_digits n = (if n < 10 then [of_nat (48 + n)] else dec_digits (n div 10) @ [of_nat (48 + n mod 10)])"

declare dec_digits.simps [simp del]

end
