(* ===== verification/Http_Date.thy ===== *)
theory Http_Date
  imports Otel_Prelude
begin

text \<open>
  The HTTP date of a \<^verbatim>\<open>Retry-After\<close> header, \<^verbatim>\<open>src/src/transport/hyper_http.rs\<close>: the fixed-layout
  parser \<open>parse_imf_fixdate\<close> on bytes and the calendar arithmetic it uses. Unsigned integers are natural
  numbers with the checks of \<open>checked_mul\<close>, \<open>checked_add\<close> and \<open>checked_sub\<close> written out; a time is a number
  of seconds since the Unix epoch.

  Shown: the closed formula for the days since the epoch counts the days of the Gregorian calendar,
  and parsing a printed date gives its time back.
\<close>

section \<open>Model\<close>

fun parse_u32_digits :: "nat \<Rightarrow> bytes \<Rightarrow> nat option" where
  "parse_u32_digits v [] = Some v"
| "parse_u32_digits v (c # cs) =
     (if \<not> (0x30 \<le> c \<and> c \<le> 0x39) then None
      else if \<not> v * 10 < 2 ^ 32 then None
      else if \<not> v * 10 + unat (c - 0x30) < 2 ^ 32 then None
      else parse_u32_digits (v * 10 + unat (c - 0x30)) cs)"

definition parse_u32_bytes :: "bytes \<Rightarrow> nat option" where
  "parse_u32_bytes b = (if b = [] then None else parse_u32_digits 0 b)"

definition month_names :: "bytes list" where
  "month_names = [lit ''Jan'', lit ''Feb'', lit ''Mar'', lit ''Apr'', lit ''May'', lit ''Jun'',
     lit ''Jul'', lit ''Aug'', lit ''Sep'', lit ''Oct'', lit ''Nov'', lit ''Dec'']"

definition parse_month_name :: "bytes \<Rightarrow> nat option" where
  "parse_month_name b =
     (if b = lit ''Jan'' then Some 1 else if b = lit ''Feb'' then Some 2
      else if b = lit ''Mar'' then Some 3 else if b = lit ''Apr'' then Some 4
      else if b = lit ''May'' then Some 5 else if b = lit ''Jun'' then Some 6
      else if b = lit ''Jul'' then Some 7 else if b = lit ''Aug'' then Some 8
      else if b = lit ''Sep'' then Some 9 else if b = lit ''Oct'' then Some 10
      else if b = lit ''Nov'' then Some 11 else if b = lit ''Dec'' then Some 12 else None)"

definition leap_year :: "nat \<Rightarrow> bool" where
  "leap_year year \<longleftrightarrow> year mod 4 = 0 \<and> (year mod 100 \<noteq> 0 \<or> year mod 400 = 0)"

definition days_in_month :: "nat \<Rightarrow> nat \<Rightarrow> nat" where
  "days_in_month year month =
     (if month \<in> {1, 3, 5, 7, 8, 10, 12} then 31
      else if month \<in> {4, 6, 9, 11} then 30
      else if month = 2 then (if leap_year year then 29 else 28)
      else 0)"

definition days_from_civil :: "nat \<Rightarrow> nat \<Rightarrow> nat \<Rightarrow> nat option" where
  "days_from_civil year month day =
     (case (if month \<le> 2 then (if 1 \<le> year then Some (year - 1, month + 9) else None)
            else Some (year, month - 3)) of
        None \<Rightarrow> None
      | Some (y, m) \<Rightarrow>
          if y < 1969 then None
          else
            let era = y div 400;
                yoe = y - era * 400;
                doy = (153 * m + 2) div 5 + day - 1;
                doe = yoe * 365 + yoe div 4 - yoe div 100 + doy;
                days = era * 146097 + doe
            in if 719468 \<le> days then Some (days - 719468) else None)"

definition parse_imf_fixdate :: "bytes \<Rightarrow> nat option" where
  "parse_imf_fixdate b =
     (if length b \<noteq> 29 then None
      else if b ! 3 \<noteq> 0x2C \<or> b ! 4 \<noteq> 0x20 then None
      else if b ! 7 \<noteq> 0x20 \<or> b ! 11 \<noteq> 0x20 \<or> b ! 16 \<noteq> 0x20 then None
      else if b ! 19 \<noteq> 0x3A \<or> b ! 22 \<noteq> 0x3A then None
      else if b ! 25 \<noteq> 0x20 \<or> b ! 26 \<noteq> 0x47 \<or> b ! 27 \<noteq> 0x4D \<or> b ! 28 \<noteq> 0x54 then None
      else
        case (parse_u32_bytes (slice b 5 2), parse_month_name (slice b 8 3), parse_u32_bytes (slice b 12 4),
              parse_u32_bytes (slice b 17 2), parse_u32_bytes (slice b 20 2), parse_u32_bytes (slice b 23 2)) of
          (Some day, Some month, Some year, Some hour, Some minute, Some sec) \<Rightarrow>
            if month = 0 \<or> 12 < month then None
            else if day = 0 \<or> days_in_month year month < day then None
            else if 23 < hour \<or> 59 < minute \<or> 60 < sec then None
            else
              (case days_from_civil year month day of
                 None \<Rightarrow> None
               | Some unix_days \<Rightarrow>
                   let total_secs = unix_days * 86400 + hour * 3600 + minute * 60 + sec
                   in if total_secs < 2 ^ 64 then Some total_secs else None)
        | _ \<Rightarrow> None)"

section \<open>The Gregorian calendar\<close>

text \<open>The reference: days of the whole years since 1970, of the whole months of the year, and of the month.\<close>

primrec days_of_years :: "nat \<Rightarrow> nat" where
  "days_of_years 0 = 0"
| "days_of_years (Suc n) = days_of_years n + (if leap_year (1970 + n) then 366 else 365)"

definition calendar_days :: "nat \<Rightarrow> nat \<Rightarrow> nat \<Rightarrow> nat" where
  "calendar_days year month day =
     days_of_years (year - 1970) + sum_list (map (days_in_month year) [1..<month]) + (day - 1)"

text \<open>The days before March 1 of a year, in the era arithmetic of the source.\<close>

definition era_days :: "nat \<Rightarrow> nat" where
  "era_days y = y div 400 * 146097 + ((y - y div 400 * 400) * 365 + (y - y div 400 * 400) div 4 - (y - y div 400 * 400) div 100)"

lemma era_days_eq: "era_days y = 365 * y + y div 4 - y div 100 + y div 400"
proof -
  define e r p q where "e = y div 400" and "r = y mod 400" and "p = r div 4" and "q = r div 100"
  have y: "y = 400 * e + r" by (simp add: e_def r_def)
  have "y div 4 = 100 * e + p" "y div 100 = 4 * e + q" "q \<le> p"
    by (simp_all add: y p_def q_def div_le_mono2)
  moreover have "era_days y = e * 146097 + (r * 365 + p - q)"
    by (simp add: era_days_def e_def [symmetric] p_def q_def) (simp add: y)
  ultimately show ?thesis
    unfolding e_def [symmetric] by (simp add: y)
qed

lemma era_days_Suc: "era_days (Suc y) = era_days y + (if leap_year (Suc y) then 366 else 365)"
proof -
  define b where "b k \<longleftrightarrow> Suc y mod k = 0" for k
  have "4 dvd (100 :: nat)" "100 dvd (400 :: nat)" by simp_all
  then have b: "b 100 \<Longrightarrow> b 4" "b 400 \<Longrightarrow> b 100"
    unfolding b_def dvd_eq_mod_eq_0 [symmetric] by (blast intro: dvd_trans)+
  have step: "Suc y div k = y div k + (if b k then 1 else 0)" if "0 < k" for k
    unfolding b_def by (subst div_Suc) auto
  define p q r where "p = y div 4" and "q = y div 100" and "r = y div 400"
  have le: "q \<le> p" by (simp add: p_def q_def div_le_mono2)
  have "era_days y = 365 * y + p - q + r"
    by (simp add: era_days_eq p_def q_def r_def)
  moreover have "era_days (Suc y) = 365 * Suc y + (p + (if b 4 then 1 else 0)) - (q + (if b 100 then 1 else 0))
      + (r + (if b 400 then 1 else 0))"
    unfolding era_days_eq p_def q_def r_def by (subst (1 2 3) step) simp_all
  moreover have "leap_year (Suc y) \<longleftrightarrow> b 4 \<and> (\<not> b 100 \<or> b 400)"
    unfolding leap_year_def b_def by blast
  ultimately show ?thesis
    using b le by (cases "b 4"; cases "b 100"; cases "b 400") simp_all
qed

lemma era_days_epoch: "era_days (1970 + n) = 719468 + days_of_years n + 59 + (if leap_year (1970 + n) then 1 else 0)"
proof (induction n)
  case 0
  show ?case by (simp add: era_days_def leap_year_def)
next
  case (Suc n)
  then show ?case using era_days_Suc [of "1970 + n"] by auto
qed

lemma days_from_civil_eq:
  "month \<le> 2 \<Longrightarrow> 1970 \<le> year \<Longrightarrow> days_from_civil year month day =
     (let days = era_days (year - 1) + ((153 * (month + 9) + 2) div 5 + day - 1)
      in if 719468 \<le> days then Some (days - 719468) else None)"
  "\<not> month \<le> 2 \<Longrightarrow> 1970 \<le> year \<Longrightarrow> days_from_civil year month day =
     (let days = era_days year + ((153 * (month - 3) + 2) div 5 + day - 1)
      in if 719468 \<le> days then Some (days - 719468) else None)"
proof -
  assume m: "month \<le> 2" and "1970 \<le> year"
  then have "(1 \<le> year) = True" "(year - 1 < 1969) = False" "(month \<le> 2) = True" by simp_all
  then show "days_from_civil year month day = (let days = era_days (year - 1) + ((153 * (month + 9) + 2) div 5 + day - 1)
      in if 719468 \<le> days then Some (days - 719468) else None)"
    by (simp only: days_from_civil_def era_days_def Let_def add.assoc if_True if_False option.case prod.case)
next
  assume m: "\<not> month \<le> 2" and "1970 \<le> year"
  then have "(year < 1969) = False" "(month \<le> 2) = False" by simp_all
  then show "days_from_civil year month day = (let days = era_days year + ((153 * (month - 3) + 2) div 5 + day - 1)
      in if 719468 \<le> days then Some (days - 719468) else None)"
    by (simp only: days_from_civil_def era_days_def Let_def add.assoc if_True if_False option.case prod.case)
qed

lemma month_cases:
  assumes "1 \<le> month" "month \<le> (12 :: nat)"
  obtains "month = 1" | "month = 2" | "month = 3" | "month = 4" | "month = 5" | "month = 6"
    | "month = 7" | "month = 8" | "month = 9" | "month = 10" | "month = 11" | "month = 12"
proof -
  have months: "[1..<13] = [1, 2, 3, 4, 5, 6, 7, 8, 9, 10, 11, 12 :: nat]" by (simp add: upt_rec)
  have "month \<in> set [1..<13]" using assms by simp
  then show thesis unfolding months using that by auto
qed

lemma month_offset:
  assumes "1 \<le> month" "month \<le> 12"
  shows "sum_list (map (days_in_month year) [1..<month]) =
    (if month \<le> 2 then (153 * (month + 9) + 2) div 5 - 306
     else (153 * (month - 3) + 2) div 5 + 59 + (if leap_year year then 1 else 0))"
  using assms by (rule month_cases; hypsubst; simp add: upt_rec days_in_month_def)

lemma days_from_civil_calendar:
  assumes "1970 \<le> year" "1 \<le> month" "month \<le> 12" "1 \<le> day"
  shows "days_from_civil year month day = Some (calendar_days year month day)"
proof -
  obtain n where n: "year = 1970 + n" using assms(1) le_Suc_ex by blast
  show ?thesis
  proof (cases "month \<le> 2")
    case True
    then have "month = 1 \<or> month = 2" using assms(2) by auto
    moreover have "era_days (1970 + n) = era_days (year - 1) + (if leap_year year then 366 else 365)"
      using era_days_Suc [of "year - 1"] n by simp
    ultimately show ?thesis
      using True assms era_days_epoch [of n] month_offset [OF assms(2,3), of year]
      by (cases "leap_year (1970 + n)") (auto simp: days_from_civil_eq Let_def calendar_days_def n)
  next
    case False
    then show ?thesis
      using assms era_days_epoch [of n] month_offset [OF assms(2,3), of year]
      by (cases "leap_year (1970 + n)") (auto simp: days_from_civil_eq Let_def calendar_days_def n)
  qed
qed

section \<open>Printing and parsing a date\<close>

definition dec2 :: "nat \<Rightarrow> bytes" where
  "dec2 n = [0x30 + of_nat (n div 10), 0x30 + of_nat (n mod 10)]"

definition dec4 :: "nat \<Rightarrow> bytes" where
  "dec4 n = dec2 (n div 100) @ dec2 (n mod 100)"

definition imf_fixdate :: "bytes \<Rightarrow> nat \<Rightarrow> nat \<Rightarrow> nat \<Rightarrow> nat \<Rightarrow> nat \<Rightarrow> nat \<Rightarrow> bytes" where
  "imf_fixdate day_name year month day hour minute sec =
     day_name @ [0x2C, 0x20] @ dec2 day @ [0x20] @ month_names ! (month - 1) @ [0x20] @ dec4 year @ [0x20]
     @ dec2 hour @ [0x3A] @ dec2 minute @ [0x3A] @ dec2 sec @ [0x20, 0x47, 0x4D, 0x54]"

lemma dec4_eq: "dec4 n = [0x30 + of_nat (n div 100 div 10), 0x30 + of_nat (n div 100 mod 10),
    0x30 + of_nat (n mod 100 div 10), 0x30 + of_nat (n mod 100 mod 10)]"
  by (simp add: dec4_def dec2_def)

lemma digit_u8: "k < 10 \<Longrightarrow> 0x30 \<le> (0x30 + of_nat k :: u8)" "k < 10 \<Longrightarrow> (0x30 + of_nat k :: u8) \<le> 0x39"
  by (simp_all add: word_le_nat_alt unat_word_ariths unat_of_nat)

lemma parse_digit:
  "k < 10 \<Longrightarrow> v * 10 + k < 2 ^ 32 \<Longrightarrow>
   parse_u32_digits v ((0x30 + of_nat k) # cs) = parse_u32_digits (v * 10 + k) cs"
  using digit_u8 [of k] by (simp add: unat_of_nat)

lemma parse_dec2: "n < 100 \<Longrightarrow> parse_u32_bytes (dec2 n) = Some n"
proof -
  assume "n < 100"
  then have "n div 10 < 10" by (simp add: div_less_iff_less_mult)
  then show ?thesis by (simp add: parse_u32_bytes_def dec2_def parse_digit del: parse_u32_digits.simps(2))
qed

lemma parse_dec4: "n < 10000 \<Longrightarrow> parse_u32_bytes (dec4 n) = Some n"
proof -
  define a b where "a = n div 100" and "b = n mod 100"
  assume "n < 10000"
  then have "a < 100" "b < 100" "n = a * 100 + b"
    by (simp_all add: a_def b_def div_less_iff_less_mult)
  moreover from this have "a div 10 < 10" "b div 10 < 10"
    "(a div 10 * 10 + a mod 10) * 10 + b div 10 < 2 ^ 32" "a div 10 * 10 + a mod 10 = a"
    by (simp_all add: div_less_iff_less_mult)
  ultimately show ?thesis
    by (simp add: parse_u32_bytes_def dec4_def dec2_def a_def [symmetric] b_def [symmetric] parse_digit
        del: parse_u32_digits.simps(2))
qed

lemma month_name: "1 \<le> month \<Longrightarrow> month \<le> 12 \<Longrightarrow> parse_month_name (month_names ! (month - 1)) = Some month"
  by (rule month_cases [of month]; hypsubst?; simp add: month_names_def parse_month_name_def lit_def)

lemma length_month_name: "1 \<le> month \<Longrightarrow> month \<le> 12 \<Longrightarrow> length (month_names ! (month - 1)) = 3"
  by (rule month_cases [of month]; hypsubst?; simp add: month_names_def lit_def)

lemma list3: "length xs = 3 \<Longrightarrow> \<exists>a b c. xs = [a, b, c]"
  by (auto simp: numeral_3_eq_3 length_Suc_conv)

text \<open>The parser on bytes in the fixed layout.\<close>

lemma parse_layout:
  assumes "parse_u32_bytes [d1, d2] = Some day" "parse_month_name [m1, m2, m3] = Some month"
    "parse_u32_bytes [y1, y2, y3, y4] = Some year" "parse_u32_bytes [h1, h2] = Some hour"
    "parse_u32_bytes [i1, i2] = Some minute" "parse_u32_bytes [s1, s2] = Some sec"
    and "1 \<le> month" "month \<le> 12" "1 \<le> day" "day \<le> days_in_month year month"
    and "hour \<le> 23" "minute \<le> 59" "sec \<le> 60" "days_from_civil year month day = Some days"
    and "days * 86400 + hour * 3600 + minute * 60 + sec < 2 ^ 64"
  shows "parse_imf_fixdate ([a, b, c] @ [0x2C, 0x20] @ [d1, d2] @ [0x20] @ [m1, m2, m3] @ [0x20] @ [y1, y2, y3, y4]
      @ [0x20] @ [h1, h2] @ [0x3A] @ [i1, i2] @ [0x3A] @ [s1, s2] @ [0x20, 0x47, 0x4D, 0x54]) =
    Some (days * 86400 + hour * 3600 + minute * 60 + sec)"
  using assms by (simp add: parse_imf_fixdate_def slice_def)

lemma days_of_years_le: "days_of_years n \<le> 366 * n"
  by (induction n) auto

lemma months_le: "sum_list (map (days_in_month year) [1..<month]) \<le> 31 * month"
proof -
  have "sum_list (map (days_in_month year) [1..<month]) \<le> sum_list (map (\<lambda>_. 31) [1..<month])"
    by (rule sum_list_mono) (simp add: days_in_month_def)
  also have "\<dots> \<le> 31 * month" by (simp add: sum_list_triv)
  finally show ?thesis .
qed

text \<open>
  C32. Parsing a printed HTTP date gives its time: for every date from 1970 to 9999 of the Gregorian
  calendar and every time of day (a leap second included), the parser returns the seconds of the days
  the calendar counts from January 1, 1970 plus the seconds of the day.
\<close>
theorem imf_fixdate_roundtrip:
  assumes "length day_name = 3" "1970 \<le> year" "year \<le> 9999" "1 \<le> month" "month \<le> 12"
    and "1 \<le> day" "day \<le> days_in_month year month" "hour \<le> 23" "minute \<le> 59" "sec \<le> 60"
  shows "parse_imf_fixdate (imf_fixdate day_name year month day hour minute sec) =
    Some (calendar_days year month day * 86400 + hour * 3600 + minute * 60 + sec)"
proof -
  obtain a b c where dn: "day_name = [a, b, c]" using list3 [OF assms(1)] by blast
  obtain d e f where mn: "month_names ! (month - 1) = [d, e, f]"
    using list3 [OF length_month_name [OF assms(4,5)]] by blast
  have "days_in_month year month \<le> 31" by (simp add: days_in_month_def)
  then have fields: "parse_u32_bytes (dec2 day) = Some day" "parse_month_name [d, e, f] = Some month"
    "parse_u32_bytes (dec4 year) = Some year" "parse_u32_bytes (dec2 hour) = Some hour"
    "parse_u32_bytes (dec2 minute) = Some minute" "parse_u32_bytes (dec2 sec) = Some sec"
    using assms month_name [OF assms(4,5)] mn by (simp_all add: parse_dec2 parse_dec4)
  have "calendar_days year month day \<le> 366 * 8029 + 31 * 12 + 31"
    using days_of_years_le [of "year - 1970"] months_le [of year month] assms \<open>days_in_month year month \<le> 31\<close>
    unfolding calendar_days_def by linarith
  then have "calendar_days year month day * 86400 + hour * 3600 + minute * 60 + sec < 2 ^ 64"
    using assms(8-10) by simp
  then show ?thesis
    unfolding imf_fixdate_def dn mn dec4_eq dec2_def
    by (intro parse_layout) (use fields assms days_from_civil_calendar [OF assms(2,4-6)] in \<open>simp_all only: dec2_def dec4_eq\<close>)
qed

theorem imf_fixdate_roundtrip_witness:
  "parse_imf_fixdate (imf_fixdate (lit ''Thu'') 2024 2 29 23 59 60) = Some 1709251200"
proof -
  have "days_of_years 54 = 19723"
    using era_days_epoch [of 54] by (simp add: era_days_def leap_year_def)
  then have "calendar_days 2024 2 29 = 19782"
    by (simp add: calendar_days_def days_in_month_def upt_rec)
  then show ?thesis
    using imf_fixdate_roundtrip [of "lit ''Thu''" 2024 2 29 23 59 60]
    by (simp add: lit_def days_in_month_def leap_year_def)
qed

end
