(* ===== verification/Delivery.thy ===== *)
theory Delivery
  imports Http_Date
begin

text \<open>
  What the exporter learns from a send: the protocol-neutral verdict \<open>DeliveryOutcome\<close> and its two
  adapters, \<^verbatim>\<open>src/src/transport/mod.rs\<close>, \<^verbatim>\<open>src/src/transport/hyper_http.rs\<close> (OTLP/HTTP status,
  \<^verbatim>\<open>Retry-After\<close>, partial success) and \<^verbatim>\<open>src/src/transport/grpc/status_adapter.rs\<close> (gRPC status, retry
  hints). The generated protobuf decoders and the header map are parameters. A duration is a natural
  number of nanoseconds, a wall-clock time the nanoseconds since the Unix epoch.
\<close>

section \<open>Model\<close>

type_synonym duration = nat

datatype DeliveryOutcome =
    Accepted
  | PartialReject u64
  | Retryable "duration option"
  | Permanent
  | Unauthorized

datatype TransportError =
    InvalidEndpoint bytes bytes
  | Connection bytes
  | HttpStatus u16 bytes
  | BodyRead bytes
  | Timeout
  | TlsConfigError bytes

definition duration_from_secs :: "nat \<Rightarrow> duration" where
  "duration_from_secs s = s * 10 ^ 9"

definition duration_from_millis :: "nat \<Rightarrow> duration" where
  "duration_from_millis ms = ms * 10 ^ 6"

definition as_millis :: "duration \<Rightarrow> nat" where
  "as_millis d = d div 10 ^ 6"

text \<open>
  \<open>str::trim\<close> and \<open>str::parse\<close> of an integer, for a header value: its \<open>to_str\<close> admits visible ASCII and
  tabs only.
\<close>

definition is_whitespace :: "u8 \<Rightarrow> bool" where
  "is_whitespace c \<longleftrightarrow> c = 0x20 \<or> (9 \<le> c \<and> c \<le> 13)"

definition trim :: "bytes \<Rightarrow> bytes" where
  "trim b = rev (dropWhile is_whitespace (rev (dropWhile is_whitespace b)))"

fun digits_value :: "nat \<Rightarrow> bytes \<Rightarrow> nat option" where
  "digits_value v [] = Some v"
| "digits_value v (c # cs) =
     (if 0x30 \<le> c \<and> c \<le> 0x39 then digits_value (v * 10 + unat (c - 0x30)) cs else None)"

definition parse_magnitude :: "bytes \<Rightarrow> nat option" where
  "parse_magnitude b = (if b = [] then None else digits_value 0 b)"

definition strip_plus :: "bytes \<Rightarrow> bytes" where
  "strip_plus b = (if b \<noteq> [] \<and> hd b = 0x2B then tl b else b)"

definition parse_u64 :: "bytes \<Rightarrow> nat option" where
  "parse_u64 b =
     (case parse_magnitude (strip_plus b) of
        Some n \<Rightarrow> if n < 2 ^ 64 then Some n else None
      | None \<Rightarrow> None)"

definition parse_i64 :: "bytes \<Rightarrow> int option" where
  "parse_i64 b =
     (if b \<noteq> [] \<and> hd b = 0x2D
      then (case parse_magnitude (tl b) of
              Some n \<Rightarrow> if n \<le> 2 ^ 63 then Some (- int n) else None
            | None \<Rightarrow> None)
      else (case parse_magnitude (strip_plus b) of
              Some n \<Rightarrow> if n < 2 ^ 63 then Some (int n) else None
            | None \<Rightarrow> None))"

text \<open>OTLP over HTTP. \<open>now\<close> is the wall clock.\<close>

definition parse_retry_after :: "nat \<Rightarrow> bytes \<Rightarrow> duration option" where
  "parse_retry_after now v0 =
     (let v = trim v0
      in case parse_u64 v of
           Some secs \<Rightarrow> Some (duration_from_secs secs)
         | None \<Rightarrow>
             (case parse_imf_fixdate v of
                Some t \<Rightarrow> if now \<le> duration_from_secs t then Some (duration_from_secs t - now) else None
              | None \<Rightarrow> None))"

definition map_http_status_to_outcome :: "u16 \<Rightarrow> duration option \<Rightarrow> DeliveryOutcome" where
  "map_http_status_to_outcome status retry_after =
     (if status \<in> {429, 502, 503, 504} then Retryable retry_after
      else if status \<in> {401, 403} then Unauthorized
      else Permanent)"

datatype OtlpSignal = Metrics | Logs | Traces

text \<open>
  \<open>decode signal body\<close> is the generated decoder of the signal's response message: \<open>None\<close> when the bytes
  do not decode, else the \<open>rejected_*\<close> field of its \<open>partial_success\<close>, if that is present.
\<close>

definition decode_partial_success_rejected ::
  "(OtlpSignal \<Rightarrow> bytes \<Rightarrow> i64 option option) \<Rightarrow> OtlpSignal \<Rightarrow> bytes \<Rightarrow> u64" where
  "decode_partial_success_rejected decode signal body =
     (let rejected = (case decode signal body of
                        Some (Some r) \<Rightarrow> r
                      | Some None \<Rightarrow> 0
                      | None \<Rightarrow> 0)
      in if rejected <s 0 then 0 else rejected)"

definition http_response_to_outcome ::
  "(OtlpSignal \<Rightarrow> bytes \<Rightarrow> i64 option option) \<Rightarrow> nat \<Rightarrow> u16 \<Rightarrow> bytes option \<Rightarrow> bytes \<Rightarrow> OtlpSignal \<Rightarrow>
     DeliveryOutcome" where
  "http_response_to_outcome decode now status retry_after_header body signal =
     (if 200 \<le> status \<and> status < 300
      then let rejected = decode_partial_success_rejected decode signal body
           in if rejected > 0 then PartialReject rejected else Accepted
      else
        let retry_after = (case retry_after_header of
                             Some v \<Rightarrow> parse_retry_after now v
                           | None \<Rightarrow> None)
        in map_http_status_to_outcome status retry_after)"

text \<open>OTLP over gRPC.\<close>

datatype grpc_code = Ok | Cancelled | Unknown | InvalidArgument | DeadlineExceededC | NotFound | AlreadyExists
  | PermissionDenied | ResourceExhausted | FailedPrecondition | Aborted | OutOfRange | Unimplemented
  | Internal | Unavailable | DataLoss | Unauthenticated

definition RETRY_INFO_TYPE_SUFFIX :: bytes where
  "RETRY_INFO_TYPE_SUFFIX = lit ''google.rpc.RetryInfo''"

definition proto_duration_to_std :: "int \<times> int \<Rightarrow> duration option" where
  "proto_duration_to_std d =
     (let total_nanos = fst d * 1000000000 + snd d
      in if total_nanos \<le> 0 then None else Some (nat total_nanos))"

definition ends_with :: "bytes \<Rightarrow> bytes \<Rightarrow> bool" where
  "ends_with s t \<longleftrightarrow> length t \<le> length s \<and> drop (length s - length t) s = t"

fun first_retry_info :: "(bytes \<Rightarrow> (int \<times> int) option option) \<Rightarrow> (bytes \<times> bytes) list \<Rightarrow> duration option" where
  "first_retry_info decode_info [] = None"
| "first_retry_info decode_info ((type_url, v) # details) =
     (if \<not> ends_with type_url RETRY_INFO_TYPE_SUFFIX then first_retry_info decode_info details
      else case decode_info v of
             None \<Rightarrow> None
           | Some (Some d) \<Rightarrow> proto_duration_to_std d
           | Some None \<Rightarrow> first_retry_info decode_info details)"

definition extract_retry_info_from_details ::
  "(bytes \<Rightarrow> (bytes \<times> bytes) list option) \<Rightarrow> (bytes \<Rightarrow> (int \<times> int) option option) \<Rightarrow> bytes \<Rightarrow> duration option" where
  "extract_retry_info_from_details decode_status decode_info raw =
     (if raw = [] then None
      else case decode_status raw of
             None \<Rightarrow> None
           | Some details \<Rightarrow> first_retry_info decode_info details)"

definition extract_grpc_retry_hint ::
  "(bytes \<Rightarrow> (bytes \<times> bytes) list option) \<Rightarrow> (bytes \<Rightarrow> (int \<times> int) option option) \<Rightarrow> bytes option \<Rightarrow> bytes \<Rightarrow>
     duration option" where
  "extract_grpc_retry_hint decode_status decode_info pushback_header details =
     (let pushback = (case pushback_header of
                        None \<Rightarrow> None
                      | Some s \<Rightarrow> (case parse_i64 (trim s) of
                                     None \<Rightarrow> None
                                   | Some ms \<Rightarrow> if ms > 0 then Some (duration_from_millis (nat ms)) else None))
      in case pushback of
           Some d \<Rightarrow> Some d
         | None \<Rightarrow> extract_retry_info_from_details decode_status decode_info details)"

definition grpc_code_to_outcome :: "grpc_code \<Rightarrow> duration option \<Rightarrow> DeliveryOutcome" where
  "grpc_code_to_outcome code hint =
     (case code of
        Ok \<Rightarrow> Accepted
      | Cancelled \<Rightarrow> Retryable hint
      | DeadlineExceededC \<Rightarrow> Retryable hint
      | Aborted \<Rightarrow> Retryable hint
      | OutOfRange \<Rightarrow> Retryable hint
      | Unavailable \<Rightarrow> Retryable hint
      | DataLoss \<Rightarrow> Retryable hint
      | ResourceExhausted \<Rightarrow> (if hint \<noteq> None then Retryable hint else Permanent)
      | InvalidArgument \<Rightarrow> Permanent
      | Internal \<Rightarrow> Permanent
      | Unimplemented \<Rightarrow> Permanent
      | Unauthenticated \<Rightarrow> Unauthorized
      | PermissionDenied \<Rightarrow> Unauthorized
      | _ \<Rightarrow> Permanent)"

definition grpc_status_to_outcome ::
  "(bytes \<Rightarrow> (bytes \<times> bytes) list option) \<Rightarrow> (bytes \<Rightarrow> (int \<times> int) option option) \<Rightarrow> grpc_code \<Rightarrow> bytes option \<Rightarrow>
     bytes \<Rightarrow> DeliveryOutcome" where
  "grpc_status_to_outcome decode_status decode_info code pushback_header details =
     grpc_code_to_outcome code (extract_grpc_retry_hint decode_status decode_info pushback_header details)"

end
