(* ===== verification/Wire_Buffer.thy ===== *)
theory Wire_Buffer
  imports Otel_Prelude
begin

text \<open>
  The two idioms the record codecs of the module share. Producers format a record into a fixed-size
  stack buffer with an advancing \<open>pos\<close>; parsers read a byte slice with an advancing \<open>pos\<close>, testing
  lengths before they index. Indexing past the end panics in Rust, so it is a value of its own here
  (\<open>Panic\<close>), apart from the parsers' deliberate \<open>return None\<close> (\<open>Reject\<close>).
\<close>

section \<open>Outcomes\<close>

datatype 'a outcome = Value 'a | Reject | Panic

primrec to_option :: "'a outcome \<Rightarrow> 'a option" where
  "to_option (Value x) = Some x"
| "to_option Reject = None"
| "to_option Panic = None"

section \<open>Writing into a stack buffer\<close>

text \<open>
  The state is \<open>&buf[..pos]\<close>, the bytes written so far. One write of \<open>data\<close> at \<open>pos\<close> panics when
  \<open>pos + data.len()\<close> passes the size of the buffer.
\<close>

definition put_bytes :: "nat \<Rightarrow> bytes \<Rightarrow> bytes outcome \<Rightarrow> bytes outcome" where
  "put_bytes limit data st =
     (case st of
        Value written \<Rightarrow> if length written + length data \<le> limit then Value (written @ data) else Panic
      | Reject \<Rightarrow> Reject
      | Panic \<Rightarrow> Panic)"

text \<open>A formatter is the list of its writes, in order.\<close>

definition write_all :: "nat \<Rightarrow> bytes list \<Rightarrow> bytes outcome" where
  "write_all limit chunks = foldl (\<lambda>st data. put_bytes limit data st) (Value []) chunks"

text \<open>\<open>write_bytes_with_u16_len!\<close> and \<open>write_capped!\<close>: two writes, the length and the capped data.\<close>

definition capped :: "nat \<Rightarrow> bytes \<Rightarrow> bytes list" where
  "capped cap_len data = [u16_to_be_bytes (of_nat (min (length data) cap_len)), take cap_len data]"

lemma write_all_from:
  "foldl (\<lambda>st data. put_bytes limit data st) (Value w) chunks =
     (if length w + length (concat chunks) \<le> limit \<or> chunks = [] then Value (w @ concat chunks) else Panic)"
proof (induction chunks arbitrary: w)
  case (Cons c cs)
  have panic: "foldl (\<lambda>st data. put_bytes limit data st) Panic cs = Panic"
    by (induction cs) (auto simp: put_bytes_def)
  show ?case
    using Cons [of "w @ c"] panic by (cases cs) (auto simp: put_bytes_def)
qed simp

lemma write_all_fits: "length (concat chunks) \<le> limit \<Longrightarrow> write_all limit chunks = Value (concat chunks)"
  by (auto simp: write_all_def write_all_from)

lemma write_all_overflow: "limit < length (concat chunks) \<Longrightarrow> write_all limit chunks = Panic"
  by (auto simp: write_all_def write_all_from)

lemma length_capped [simp]: "length (concat (capped n data)) = 2 + min (length data) n"
  by (simp add: capped_def)

lemma concat_capped:
  "concat (capped n data) = u16_to_be_bytes (of_nat (min (length data) n)) @ take n data"
  by (simp add: capped_def)

section \<open>Reading a slice\<close>

text \<open>
  A reader's state is \<open>&buf[pos..]\<close>, the bytes not yet read; \<open>pos + n > buf.len()\<close> is then
  \<open>length rest < n\<close>. Readers are in continuation style: \<open>need n k\<close> is the guard
  \<open>if pos + n > buf.len() { return None; }\<close> before \<open>k\<close>, and the \<open>get_\<close> readers index without a test.
\<close>

definition need :: "nat \<Rightarrow> (bytes \<Rightarrow> 'a outcome) \<Rightarrow> bytes \<Rightarrow> 'a outcome" where
  "need n k rest = (if length rest < n then Reject else k rest)"

definition get_bytes :: "nat \<Rightarrow> (bytes \<Rightarrow> bytes \<Rightarrow> 'a outcome) \<Rightarrow> bytes \<Rightarrow> 'a outcome" where
  "get_bytes n k rest = (if length rest < n then Panic else k (take n rest) (drop n rest))"

definition get_u8 :: "(u8 \<Rightarrow> bytes \<Rightarrow> 'a outcome) \<Rightarrow> bytes \<Rightarrow> 'a outcome" where
  "get_u8 k = get_bytes 1 (\<lambda>bs. k (bs ! 0))"

definition get_u16 :: "(u16 \<Rightarrow> bytes \<Rightarrow> 'a outcome) \<Rightarrow> bytes \<Rightarrow> 'a outcome" where
  "get_u16 k = get_bytes 2 (\<lambda>bs. k (u16_from_be_bytes bs))"

definition get_u32 :: "(u32 \<Rightarrow> bytes \<Rightarrow> 'a outcome) \<Rightarrow> bytes \<Rightarrow> 'a outcome" where
  "get_u32 k = get_bytes 4 (\<lambda>bs. k (u32_from_be_bytes bs))"

definition get_u64 :: "(u64 \<Rightarrow> bytes \<Rightarrow> 'a outcome) \<Rightarrow> bytes \<Rightarrow> 'a outcome" where
  "get_u64 k = get_bytes 8 (\<lambda>bs. k (u64_from_be_bytes bs))"

text \<open>A \<open>u16\<close> length, then that many bytes, with the guard in front of each.\<close>

definition get_capped :: "(bytes \<Rightarrow> bytes \<Rightarrow> 'a outcome) \<Rightarrow> bytes \<Rightarrow> 'a outcome" where
  "get_capped k = need 2 (get_u16 (\<lambda>len. need (unat len) (get_bytes (unat len) k)))"

section \<open>Readers do not panic behind their guards\<close>

named_theorems no_panic

definition no_panic_out :: "'a outcome \<Rightarrow> bool" where
  "no_panic_out out \<longleftrightarrow> out \<noteq> Panic"

lemma no_panic_simps [simp]: "no_panic_out (Value x)" "no_panic_out Reject"
  by (simp_all add: no_panic_out_def)

lemma no_panic_if [no_panic]:
  "(c \<Longrightarrow> no_panic_out (k rest)) \<Longrightarrow> (\<not> c \<Longrightarrow> no_panic_out (k' rest)) \<Longrightarrow>
     no_panic_out ((if c then k else k') rest)"
  by simp

lemma no_panic_need [no_panic]:
  "(n \<le> length rest \<Longrightarrow> no_panic_out (k rest)) \<Longrightarrow> no_panic_out (need n k rest)"
  by (simp add: need_def)

lemma no_panic_get_bytes [no_panic]:
  "n \<le> length rest \<Longrightarrow>
     (\<And>bs rest'. length bs = n \<Longrightarrow> length rest = n + length rest' \<Longrightarrow> no_panic_out (k bs rest')) \<Longrightarrow>
     no_panic_out (get_bytes n k rest)"
  by (simp add: get_bytes_def)

lemma no_panic_get_u8 [no_panic]:
  "1 \<le> length rest \<Longrightarrow> (\<And>v rest'. length rest = 1 + length rest' \<Longrightarrow> no_panic_out (k v rest')) \<Longrightarrow>
     no_panic_out (get_u8 k rest)"
  unfolding get_u8_def by (rule no_panic_get_bytes) simp_all

lemma no_panic_get_u16 [no_panic]:
  "2 \<le> length rest \<Longrightarrow> (\<And>v rest'. length rest = 2 + length rest' \<Longrightarrow> no_panic_out (k v rest')) \<Longrightarrow>
     no_panic_out (get_u16 k rest)"
  unfolding get_u16_def by (rule no_panic_get_bytes) simp_all

lemma no_panic_get_u32 [no_panic]:
  "4 \<le> length rest \<Longrightarrow> (\<And>v rest'. length rest = 4 + length rest' \<Longrightarrow> no_panic_out (k v rest')) \<Longrightarrow>
     no_panic_out (get_u32 k rest)"
  unfolding get_u32_def by (rule no_panic_get_bytes) simp_all

lemma no_panic_get_u64 [no_panic]:
  "8 \<le> length rest \<Longrightarrow> (\<And>v rest'. length rest = 8 + length rest' \<Longrightarrow> no_panic_out (k v rest')) \<Longrightarrow>
     no_panic_out (get_u64 k rest)"
  unfolding get_u64_def by (rule no_panic_get_bytes) simp_all

lemma no_panic_get_capped [no_panic]:
  "(\<And>bs rest'. no_panic_out (k bs rest')) \<Longrightarrow> no_panic_out (get_capped k rest)"
  unfolding get_capped_def by (intro no_panic) simp_all

section \<open>Readers undo the writers\<close>

lemma need_simp [wire_simps]: "n \<le> length rest \<Longrightarrow> need n k rest = k rest"
  by (simp add: need_def)

lemma get_bytes_append [wire_simps]: "length bs = n \<Longrightarrow> get_bytes n k (bs @ rest) = k bs rest"
  by (simp add: get_bytes_def)

lemma get_u8_Cons [wire_simps]: "get_u8 k (v # rest) = k v rest"
  by (simp add: get_u8_def get_bytes_def)

lemma get_u16_append [wire_simps]: "get_u16 k (u16_to_be_bytes v @ rest) = k v rest"
  by (simp add: get_u16_def get_bytes_append)

lemma get_u32_append [wire_simps]: "get_u32 k (u32_to_be_bytes v @ rest) = k v rest"
  by (simp add: get_u32_def get_bytes_append)

lemma get_u64_append [wire_simps]: "get_u64 k (u64_to_be_bytes v @ rest) = k v rest"
  by (simp add: get_u64_def get_bytes_append)

lemma take_min_length [simp]: "take (min (length xs) n) xs = take n xs"
  by (simp add: min_def)

lemma get_capped_append [wire_simps]:
  assumes "n < 2 ^ 16"
  shows "get_capped k (u16_to_be_bytes (of_nat (min (length data) n)) @ take n data @ rest) = k (take n data) rest"
proof -
  have "unat (of_nat (min (length data) n) :: u16) = min (length data) n"
    using assms by (simp add: unat_of_nat take_bit_eq_mod)
  then show ?thesis
    unfolding get_capped_def by (simp add: wire_simps)
qed

end
