(* ===== verification/Stable_Core.thy ===== *)
theory Stable_Core
  imports Wire_Buffer "HOL-Library.Sublist"
begin

text \<open>
  Which part of an nginx error-log line identifies its message: \<open>stable_core\<close> and the FNV-1a key of
  \<^verbatim>\<open>src/src/logs/coalesce.rs\<close>. The extraction never panics, never returns an empty core for a non-empty
  line, and on a line as nginx formats it returns exactly the message, whatever the time stamp,
  process, connection and request context around it are.
\<close>

section \<open>Stable core\<close>

text \<open>
  The scans run on the unread suffix \<open>&buf[pos..]\<close>. \<open>skip_past a b\<close> is one \<open>while pos + 1 < len\<close> loop:
  past the first occurrence of the two bytes, or to the last byte when there is none.
\<close>

fun skip_past :: "u8 \<Rightarrow> u8 \<Rightarrow> bytes \<Rightarrow> bytes" where
  "skip_past a b (x # y # zs) = (if x = a \<and> y = b then zs else skip_past a b (y # zs))"
| "skip_past a b xs = xs"

definition is_ascii_digit :: "u8 \<Rightarrow> bool" where
  "is_ascii_digit b \<longleftrightarrow> 0x30 \<le> b \<and> b \<le> 0x39"

fun skip_connection :: "bytes \<Rightarrow> bytes" where
  "skip_connection [] = []"
| "skip_connection (x # xs) =
     (if x = 0x2A
      then (case dropWhile is_ascii_digit xs of
              y # ys \<Rightarrow> (if y = 0x20 then ys else y # ys)
            | [] \<Rightarrow> [])
      else x # xs)"

text \<open>The bytes before the first \<open>" while "\<close> or \<open>", client:"\<close>.\<close>

fun cut_context :: "bytes \<Rightarrow> bytes" where
  "cut_context [] = []"
| "cut_context (x # xs) =
     (if take 7 (x # xs) = lit '' while '' then []
      else if take 9 (x # xs) = lit '', client:'' then []
      else x # cut_context xs)"

text \<open>
  \<open>stable_core\<close>: \<open>Panic\<close> stands for the slice \<open>&buf[core_start..end]\<close> with \<open>core_start > end\<close>, which is
  when nothing is left to read but the trailing newline has been cut off.
\<close>

definition stable_core :: "bytes \<Rightarrow> bytes outcome" where
  "stable_core buf =
     (let rest = skip_connection (skip_past 0x3A 0x20 (skip_past 0x5D 0x20 buf));
          newline = (buf \<noteq> [] \<and> last buf = 0x0A)
      in if newline \<and> rest = [] then Panic
         else
           let core = cut_context (if newline then butlast rest else rest)
           in if core = [] then Value buf else Value core)"

definition FNV_OFFSET_BASIS :: u64 where "FNV_OFFSET_BASIS = 14695981039346656037"

definition FNV_PRIME :: u64 where "FNV_PRIME = 1099511628211"

definition coalesce_key :: "u8 \<Rightarrow> bytes \<Rightarrow> u64" where
  "coalesce_key severity core =
     (let h = foldl (\<lambda>h b. (h XOR ucast b) * FNV_PRIME) FNV_OFFSET_BASIS (severity # core)
      in if h = 0 then 1 else h)"

section \<open>Lemmas on the stable core\<close>

lemma skip_past_suffix: "suffix (skip_past a b xs) xs"
  by (induction a b xs rule: skip_past.induct) (auto simp: suffix_Cons)

lemma skip_past_Nil: "skip_past a b xs = [] \<Longrightarrow> xs \<noteq> [] \<Longrightarrow> last xs = b"
  by (induction a b xs rule: skip_past.induct) (auto split: if_splits)

lemma dropWhile_Nil_last: "dropWhile P xs = [] \<Longrightarrow> xs \<noteq> [] \<Longrightarrow> P (last xs)"
  by (simp add: dropWhile_eq_Nil_conv)

lemma skip_connection_Nil:
  assumes "skip_connection xs = []" "xs \<noteq> []"
  shows "last xs = 0x2A \<or> last xs = 0x20 \<or> is_ascii_digit (last xs)"
proof -
  obtain x ys where xs: "xs = x # ys"
    using assms(2) by (cases xs) auto
  show ?thesis
  proof (cases "dropWhile is_ascii_digit ys")
    case Nil
    with assms xs show ?thesis
      using dropWhile_Nil_last [of is_ascii_digit ys] by (auto split: if_splits)
  next
    case (Cons y zs)
    with assms xs have "zs = []" "y = 0x20"
      by (auto split: if_splits)
    moreover have "ys = takeWhile is_ascii_digit ys @ y # zs"
      using Cons by (metis takeWhile_dropWhile_id)
    ultimately have "last ys = 0x20" "ys \<noteq> []"
      by (metis last_snoc, auto)
    with xs show ?thesis
      by simp
  qed
qed

lemma suffix_last: "suffix xs ys \<Longrightarrow> xs \<noteq> [] \<Longrightarrow> last xs = last ys"
  by (auto simp: suffix_def)

lemma stable_core_no_panic: "stable_core buf \<noteq> Panic"
proof -
  let ?r1 = "skip_past 0x5D 0x20 buf"
  let ?r2 = "skip_past 0x3A 0x20 ?r1"
  have False if "buf \<noteq> []" "last buf = 0x0A" "skip_connection ?r2 = []"
  proof (cases "?r2 = []")
    case True
    have "suffix ?r1 buf"
      by (rule skip_past_suffix)
    then show False
      using that(1,2) skip_past_Nil [OF True] skip_past_Nil [of "0x5D" "0x20" buf] suffix_last
      by (cases "?r1 = []") fastforce+
  next
    case False
    have "suffix ?r2 buf"
      using skip_past_suffix suffix_order.trans by blast
    then have "last ?r2 = 0x0A"
      using suffix_last False that(2) by fastforce
    then show False
      using skip_connection_Nil [OF that(3) False] by (simp add: is_ascii_digit_def)
  qed
  then show ?thesis
    by (auto simp: stable_core_def Let_def)
qed

lemma stable_core_total: "\<exists>core. stable_core buf = Value core \<and> (buf \<noteq> [] \<longrightarrow> core \<noteq> [])"
  using stable_core_no_panic [of buf] by (auto simp: stable_core_def Let_def split: if_splits)

text \<open>A run of bytes without the adjacent pair \<open>a b\<close>.\<close>

fun no_pair :: "u8 \<Rightarrow> u8 \<Rightarrow> bytes \<Rightarrow> bool" where
  "no_pair a b (x # y # zs) \<longleftrightarrow> \<not> (x = a \<and> y = b) \<and> no_pair a b (y # zs)"
| "no_pair a b xs \<longleftrightarrow> True"

lemma skip_past_found:
  "no_pair a b pre \<Longrightarrow> a \<noteq> b \<Longrightarrow> skip_past a b (pre @ a # b # zs) = zs"
  by (induction a b pre rule: no_pair.induct) auto

lemma skip_connection_found:
  "list_all is_ascii_digit digits \<Longrightarrow> skip_connection (0x2A # digits @ 0x20 # rest) = rest"
  by (simp add: dropWhile_append list_all_iff is_ascii_digit_def)

lemma cut_context_id:
  "(\<And>i. i < length core \<Longrightarrow> take 7 (drop i (core @ ctx)) \<noteq> lit '' while '' \<and>
        take 9 (drop i (core @ ctx)) \<noteq> lit '', client:'') \<Longrightarrow>
   cut_context (core @ ctx) = core @ cut_context ctx"
proof (induction core)
  case (Cons x xs)
  have "take 7 (x # xs @ ctx) \<noteq> lit '' while ''" "take 9 (x # xs @ ctx) \<noteq> lit '', client:''"
    using Cons.prems [of 0] by auto
  moreover have "cut_context (xs @ ctx) = xs @ cut_context ctx"
    using Cons.prems [of "Suc i" for i] by (intro Cons.IH) auto
  ultimately show ?case
    by simp
qed simp

text \<open>
  A line as nginx formats it: time and bracketed level, process and thread, an optional connection
  number, the message, and an optional request context.
\<close>

definition nginx_line :: "bytes \<Rightarrow> bytes \<Rightarrow> bytes option \<Rightarrow> bytes \<Rightarrow> bytes \<Rightarrow> bytes" where
  "nginx_line stamp pid conn core ctx =
     stamp @ lit ''] '' @ pid @ lit '': ''
     @ (case conn of Some digits \<Rightarrow> lit ''*'' @ digits @ lit '' '' | None \<Rightarrow> [])
     @ core @ ctx @ [0x0A]"

definition message_ok :: "bytes \<Rightarrow> bytes \<Rightarrow> bool" where
  "message_ok core ctx \<longleftrightarrow>
     core \<noteq> [] \<and> hd core \<noteq> 0x2A \<and>
     (\<forall>i<length core. take 7 (drop i (core @ ctx)) \<noteq> lit '' while '' \<and>
        take 9 (drop i (core @ ctx)) \<noteq> lit '', client:'') \<and>
     (ctx = [] \<or> take 7 ctx = lit '' while '' \<or> take 9 ctx = lit '', client:'')"

lemma cut_context_ctx:
  "ctx = [] \<or> take 7 ctx = lit '' while '' \<or> take 9 ctx = lit '', client:'' \<Longrightarrow> cut_context ctx = []"
  by (cases ctx) auto

text \<open>
  C39. On a line as nginx formats it, \<open>stable_core\<close> returns exactly the message: the time stamp, level,
  process and thread before it, the connection number and the request context after it (from
  \<open>" while "\<close> or \<open>", client:"\<close> on) do not matter, so repeated messages share one key.
\<close>

theorem stable_core_nginx_line:
  assumes "no_pair 0x5D 0x20 stamp" "no_pair 0x3A 0x20 pid"
    and "case conn of Some digits \<Rightarrow> list_all is_ascii_digit digits | None \<Rightarrow> True"
    and "message_ok core ctx"
  shows "stable_core (nginx_line stamp pid conn core ctx) = Value core"
proof -
  let ?line = "nginx_line stamp pid conn core ctx"
  let ?tail = "(case conn of Some digits \<Rightarrow> 0x2A # digits @ 0x20 # core @ ctx @ [0x0A] | None \<Rightarrow> core @ ctx @ [0x0A])"
  have line: "?line = stamp @ 0x5D # 0x20 # pid @ 0x3A # 0x20 # ?tail"
    by (auto simp: nginx_line_def lit_def split: option.splits)
  have conn: "skip_connection ?tail = core @ ctx @ [0x0A]"
  proof (cases conn)
    case None
    with assms(4) show ?thesis
      by (cases core) (auto simp: message_ok_def)
  next
    case (Some digits)
    with assms(3) show ?thesis
      by (simp del: skip_connection.simps add: skip_connection_found)
  qed
  have "skip_connection (skip_past 0x3A 0x20 (skip_past 0x5D 0x20 ?line)) = core @ ctx @ [0x0A]"
    unfolding line using assms(1,2) conn by (simp add: skip_past_found)
  moreover have "?line \<noteq> [] \<and> last ?line = 0x0A"
    by (simp add: nginx_line_def)
  moreover have "cut_context (core @ ctx) = core"
    using assms(4) cut_context_id [of core ctx] cut_context_ctx [of ctx] by (auto simp: message_ok_def)
  moreover have "butlast (core @ ctx @ [0x0A]) = core @ ctx"
    by (metis append_assoc butlast_snoc)
  ultimately show ?thesis
    using assms(4) by (simp add: stable_core_def Let_def message_ok_def)
qed

theorem stable_core_nginx_line_witness:
  "stable_core (nginx_line (lit ''2024/01/01 00:00:00 [error'') (lit ''7#7'') (Some (lit ''12''))
     (lit ''open() failed'') (lit '', client: 10.0.0.1'')) = Value (lit ''open() failed'')"
  by (rule stable_core_nginx_line) code_simp+

end
