(* ===== verification/Trace_Context.thy ===== *)
theory Trace_Context
  imports Otel_Prelude
begin

text \<open>
  W3C trace context: the \<open>traceparent\<close> header codec (\<open>parse_traceparent_full\<close> of
  \<^verbatim>\<open>src/src/logs/access.rs\<close>, \<open>build_traceparent_value\<close> of \<^verbatim>\<open>src/src/metric_source/span_start.rs\<close>)
  and the identifier generator of \<^verbatim>\<open>src/src/traces/ctx.rs\<close>. The codec lemmas show that the parser
  accepts exactly the values the builder makes, from non-zero identifiers; the generator lemmas
  show that it ends, never yields an all-zero identifier, and disables tracing when it gives up.
  The ChaCha20 generator and the operating system's entropy source are parameters.
\<close>

section \<open>The traceparent codec\<close>

definition hex_nibble :: "u8 \<Rightarrow> u8 option" where
  "hex_nibble c =
     (if 0x30 \<le> c \<and> c \<le> 0x39 then Some (c - 0x30)
      else if 0x61 \<le> c \<and> c \<le> 0x66 then Some (c - 0x61 + 10)
      else None)"

text \<open>The pair loop of \<open>decode_hex16\<close> and \<open>decode_hex8\<close>, for \<open>n\<close> output bytes.\<close>

fun decode_hex_pairs :: "nat \<Rightarrow> bytes \<Rightarrow> bytes option" where
  "decode_hex_pairs 0 hex = Some []"
| "decode_hex_pairs (Suc n) (h # l # hex) =
     (case (hex_nibble h, hex_nibble l) of
        (Some hi, Some lo) \<Rightarrow> map_option (Cons (push_bit 4 hi OR lo)) (decode_hex_pairs n hex)
      | _ \<Rightarrow> None)"
| "decode_hex_pairs (Suc n) hex = None"

definition decode_hex16 :: "bytes \<Rightarrow> bytes option" where
  "decode_hex16 hex = (if length hex < 32 then None else decode_hex_pairs 16 hex)"

definition decode_hex8 :: "bytes \<Rightarrow> bytes option" where
  "decode_hex8 hex = (if length hex < 16 then None else decode_hex_pairs 8 hex)"

text \<open>Every index below is in range because of the first test.\<close>

definition parse_traceparent_full :: "bytes \<Rightarrow> (bytes \<times> bytes \<times> u32) option" where
  "parse_traceparent_full header =
     (if length header < 55 then None
      else if header ! 0 \<noteq> 0x30 \<or> header ! 1 \<noteq> 0x30 \<or> header ! 2 \<noteq> 0x2D then None
      else
        case decode_hex16 (slice header 3 32) of
          None \<Rightarrow> None
        | Some trace_id \<Rightarrow>
            if header ! 35 \<noteq> 0x2D then None
            else
              case decode_hex8 (slice header 36 16) of
                None \<Rightarrow> None
              | Some parent_span_id \<Rightarrow>
                  if header ! 52 \<noteq> 0x2D then None
                  else
                    case (hex_nibble (header ! 53), hex_nibble (header ! 54)) of
                      (Some hi, Some lo) \<Rightarrow>
                        let flags = ucast (push_bit 4 hi OR lo) :: u32
                        in if length header \<noteq> 55 then None
                           else if trace_id = replicate 16 0 then None
                           else if parent_span_id = replicate 8 0 then None
                           else Some (trace_id, parent_span_id, flags)
                    | _ \<Rightarrow> None)"

definition parse_traceparent :: "bytes \<Rightarrow> (bytes \<times> bytes) option" where
  "parse_traceparent header =
     map_option (\<lambda>(tid, sid, _). (tid, sid)) (parse_traceparent_full header)"

definition HEX :: bytes where
  "HEX = lit ''0123456789abcdef''"

definition hex_encode_into_slice :: "bytes \<Rightarrow> bytes" where
  "hex_encode_into_slice src =
     concat (map (\<lambda>b. [HEX ! unat (drop_bit 4 b), HEX ! unat (b AND 0xF)]) src)"

definition build_traceparent_value :: "bytes \<Rightarrow> bytes \<Rightarrow> u8 \<Rightarrow> bytes" where
  "build_traceparent_value trace_id span_id trace_flags =
     [0x30, 0x30, 0x2D] @ hex_encode_into_slice trace_id @ [0x2D] @ hex_encode_into_slice span_id
     @ [0x2D] @ hex_encode_into_slice [trace_flags]"

section \<open>Identifier generation\<close>

text \<open>
  The thread-local state of a worker: the generator once seeded, the entropy source, the flags.
  \<open>next_u64\<close> is \<open>ChaCha20Rng::next_u64\<close>, \<open>seed\<close> is \<open>try_seed_drbg\<close> (\<open>None\<close> when \<open>getrandom\<close> fails).
\<close>

record ('r, 'e) worker_tls =
  wr_drbg :: "'r option"
  wr_os :: 'e
  wr_tracing_disabled :: bool
  wr_lazy_seed_emerg_logged :: bool
  wr_span_ctx_oom_warned :: bool

definition eager_seed_drbg ::
  "('e \<Rightarrow> 'r option \<times> 'e) \<Rightarrow> ('r, 'e) worker_tls \<Rightarrow> bool \<times> ('r, 'e) worker_tls" where
  "eager_seed_drbg seed w =
     (if wr_tracing_disabled w then (True, w)
      else
        case wr_drbg w of
          Some rng \<Rightarrow> (True, w)
        | None \<Rightarrow>
            (case seed (wr_os w) of
               (Some rng, os) \<Rightarrow> (True, w\<lparr>wr_drbg := Some rng, wr_os := os\<rparr>)
             | (None, os) \<Rightarrow> (False, w\<lparr>wr_tracing_disabled := True, wr_os := os\<rparr>)))"

definition drbg64 ::
  "('r \<Rightarrow> u64 \<times> 'r) \<Rightarrow> ('e \<Rightarrow> 'r option \<times> 'e) \<Rightarrow> ('r, 'e) worker_tls \<Rightarrow> u64 \<times> ('r, 'e) worker_tls" where
  "drbg64 next_u64 seed w =
     (case wr_drbg w of
        Some rng \<Rightarrow> (case next_u64 rng of (val, rng') \<Rightarrow> (val, w\<lparr>wr_drbg := Some rng'\<rparr>))
      | None \<Rightarrow>
          (case seed (wr_os w) of
             (Some rng, os) \<Rightarrow>
               (case next_u64 rng of (val, rng') \<Rightarrow> (val, w\<lparr>wr_drbg := Some rng', wr_os := os\<rparr>))
           | (None, os) \<Rightarrow>
               (0, w\<lparr>wr_os := os, wr_tracing_disabled := True, wr_lazy_seed_emerg_logged := True\<rparr>)))"

definition MAX_ID_RETRIES :: nat where "MAX_ID_RETRIES = 3"

primrec gen_trace_id_loop ::
  "('r \<Rightarrow> u64 \<times> 'r) \<Rightarrow> ('e \<Rightarrow> 'r option \<times> 'e) \<Rightarrow> nat \<Rightarrow> ('r, 'e) worker_tls \<Rightarrow>
     bytes option \<times> ('r, 'e) worker_tls" where
  "gen_trace_id_loop next_u64 seed 0 w = (None, w\<lparr>wr_tracing_disabled := True\<rparr>)"
| "gen_trace_id_loop next_u64 seed (Suc n) w =
     (case drbg64 next_u64 seed w of (a, w1) \<Rightarrow>
        case drbg64 next_u64 seed w1 of (b, w2) \<Rightarrow>
          if a \<noteq> 0 \<or> b \<noteq> 0 then (Some (u64_to_le_bytes a @ u64_to_le_bytes b), w2)
          else gen_trace_id_loop next_u64 seed n w2)"

definition gen_trace_id ::
  "('r \<Rightarrow> u64 \<times> 'r) \<Rightarrow> ('e \<Rightarrow> 'r option \<times> 'e) \<Rightarrow> ('r, 'e) worker_tls \<Rightarrow>
     bytes option \<times> ('r, 'e) worker_tls" where
  "gen_trace_id next_u64 seed = gen_trace_id_loop next_u64 seed MAX_ID_RETRIES"

primrec gen_span_id_loop ::
  "('r \<Rightarrow> u64 \<times> 'r) \<Rightarrow> ('e \<Rightarrow> 'r option \<times> 'e) \<Rightarrow> nat \<Rightarrow> ('r, 'e) worker_tls \<Rightarrow>
     bytes option \<times> ('r, 'e) worker_tls" where
  "gen_span_id_loop next_u64 seed 0 w = (None, w\<lparr>wr_tracing_disabled := True\<rparr>)"
| "gen_span_id_loop next_u64 seed (Suc n) w =
     (case drbg64 next_u64 seed w of (v, w1) \<Rightarrow>
        if v \<noteq> 0 then (Some (u64_to_le_bytes v), w1) else gen_span_id_loop next_u64 seed n w1)"

definition gen_span_id ::
  "('r \<Rightarrow> u64 \<times> 'r) \<Rightarrow> ('e \<Rightarrow> 'r option \<times> 'e) \<Rightarrow> ('r, 'e) worker_tls \<Rightarrow>
     bytes option \<times> ('r, 'e) worker_tls" where
  "gen_span_id next_u64 seed = gen_span_id_loop next_u64 seed MAX_ID_RETRIES"

section \<open>Codec lemmas\<close>

lemma u8_less16_cases:
  assumes "(v :: u8) < 16"
  shows "v \<in> {0, 1, 2, 3, 4, 5, 6, 7, 8, 9, 10, 11, 12, 13, 14, 15}"
proof -
  have "unat v < 16"
    using assms by (simp add: word_less_nat_alt)
  then show ?thesis
    by (simp add: word_unat_eq_iff) arith
qed

lemma HEX_eq: "HEX = [0x30, 0x31, 0x32, 0x33, 0x34, 0x35, 0x36, 0x37, 0x38, 0x39, 0x61, 0x62, 0x63, 0x64, 0x65, 0x66]"
  by (simp add: HEX_def lit_def)

lemma hex_nibble_HEX:
  assumes "v < 16"
  shows "hex_nibble (HEX ! unat v) = Some v"
  using u8_less16_cases [OF assms]
  by (elim insertE emptyE; simp add: HEX_eq hex_nibble_def)

lemma hex_nibble_SomeD:
  assumes "hex_nibble c = Some v"
  shows "v < 16" "HEX ! unat v = c"
proof -
  have "unat c \<in> {0x30..0x39} \<union> {0x61..0x66}"
    using assms by (auto simp: hex_nibble_def word_le_nat_alt split: if_splits)
  then have "c \<in> set HEX"
    by (simp add: HEX_eq word_unat_eq_iff) arith
  then have "v < 16 \<and> HEX ! unat v = c"
    using assms unfolding HEX_eq set_simps
    by (elim insertE emptyE; simp add: hex_nibble_def)
  then show "v < 16" "HEX ! unat v = c"
    by auto
qed

lemma nibbles_join: "push_bit 4 (drop_bit 4 b) OR (b AND 0xF) = (b :: u8)"
proof (rule bit_eqI)
  have mask: "(0xF :: u8) = mask 4"
    by (simp add: mask_eq_exp_minus_1)
  fix n assume "possible_bit TYPE(8 word) n"
  then show "bit (push_bit 4 (drop_bit 4 b) OR (b AND 0xF)) n \<longleftrightarrow> bit b n"
    unfolding mask by (auto simp: bit_simps)
qed

lemma nibble_masked:
  assumes "(v :: u8) < 16"
  shows "v AND mask 4 = v"
  using u8_less16_cases [OF assms] by (elim insertE emptyE) (simp_all add: mask_eq_exp_minus_1)

lemma nibbles_split:
  assumes "(h :: u8) < 16" "l < 16"
  shows "drop_bit 4 (push_bit 4 h OR l) = h" "(push_bit 4 h OR l) AND 0xF = l"
proof -
  have mask: "(0xF :: u8) = mask 4"
    by (simp add: mask_eq_exp_minus_1)
  have h: "bit h n \<Longrightarrow> n < 4" and l: "bit l n \<Longrightarrow> n < 4" for n
    using nibble_masked [OF assms(1)] nibble_masked [OF assms(2)]
    by (metis bit_and_iff bit_mask_iff)+
  show "drop_bit 4 (push_bit 4 h OR l) = h"
    by (rule bit_eqI) (use h l in \<open>fastforce simp: bit_simps\<close>)
  show "(push_bit 4 h OR l) AND 0xF = l"
    unfolding mask by (rule bit_eqI) (use l in \<open>auto simp: bit_simps\<close>)
qed

lemma hex_pair_bound: "unat (drop_bit 4 (b :: u8)) < 16" "unat (b AND 0xF) < 16"
proof -
  have "unat b < 256"
    using unsigned_less [of b] by simp
  then have "drop_bit 4 b < 16"
    by (simp add: drop_bit_eq_div word_less_nat_alt unat_div)
  then show "unat (drop_bit 4 b) < 16"
    by (simp add: word_less_nat_alt)
  have "b AND 0xF = take_bit 4 b"
    by (simp add: take_bit_eq_mask mask_eq_exp_minus_1)
  then show "unat (b AND 0xF) < 16"
    using take_bit_nat_less_exp [of 4 "unat b"] by (simp add: unsigned_take_bit_eq)
qed

lemma hex_encode_Nil [simp]: "hex_encode_into_slice [] = []"
  by (simp add: hex_encode_into_slice_def)

lemma hex_encode_Cons:
  "hex_encode_into_slice (b # bs) =
     HEX ! unat (drop_bit 4 b) # HEX ! unat (b AND 0xF) # hex_encode_into_slice bs"
  by (simp add: hex_encode_into_slice_def)

lemma length_hex_encode [simp]: "length (hex_encode_into_slice bs) = 2 * length bs"
  by (induction bs) (simp_all add: hex_encode_Cons)

lemma hex_nibble_pair:
  "hex_nibble (HEX ! unat (drop_bit 4 b)) = Some (drop_bit 4 b)"
  "hex_nibble (HEX ! unat (b AND 0xF)) = Some (b AND 0xF)"
  using hex_pair_bound [of b] by (simp_all add: hex_nibble_HEX word_less_nat_alt)

lemma decode_hex_encode: "decode_hex_pairs (length bs) (hex_encode_into_slice bs) = Some bs"
  by (induction bs) (simp_all add: hex_encode_Cons hex_nibble_pair nibbles_join)

lemma decode_hex_pairs_SomeD:
  "decode_hex_pairs n hex = Some bs \<Longrightarrow> length hex = 2 * n \<Longrightarrow>
     length bs = n \<and> hex = hex_encode_into_slice bs"
proof (induction n hex arbitrary: bs rule: decode_hex_pairs.induct)
  case (2 n h l hex)
  then obtain hi lo bs' where "hex_nibble h = Some hi" "hex_nibble l = Some lo"
    "decode_hex_pairs n hex = Some bs'" "bs = (push_bit 4 hi OR lo) # bs'"
    by (auto split: option.splits)
  moreover have "HEX ! unat hi = h" "HEX ! unat lo = l" "hi < 16" "lo < 16"
    using calculation hex_nibble_SomeD by blast+
  moreover have "length bs' = n \<and> hex = hex_encode_into_slice bs'"
    using calculation 2 by simp
  ultimately show ?case
    by (simp only: hex_encode_Cons nibbles_split list.size simp_thms)
qed auto

lemma flags_roundtrip: "ucast (ucast (f :: u8) :: u32) = f"
  by (simp add: unsigned_ucast_eq take_bit_word_eq_self)

lemma build_traceparent_shape:
  assumes "length t = 16" "length p = 8" "v = build_traceparent_value t p f"
  shows "length v = 55" "v ! 0 = 0x30" "v ! 1 = 0x30" "v ! 2 = 0x2D"
    "slice v 3 32 = hex_encode_into_slice t" "v ! 35 = 0x2D"
    "slice v 36 16 = hex_encode_into_slice p" "v ! 52 = 0x2D"
    "v ! 53 = HEX ! unat (drop_bit 4 f)" "v ! 54 = HEX ! unat (f AND 0xF)"
  using assms
  by (simp_all add: build_traceparent_value_def hex_encode_Cons slice_def nth_append)

lemma header_parts:
  assumes "length h = 55"
  shows "h = [h ! 0, h ! 1, h ! 2] @ slice h 3 32 @ [h ! 35] @ slice h 36 16 @ [h ! 52] @ [h ! 53, h ! 54]"
proof -
  have cons: "drop i h = h ! i # drop (Suc i) h" if "i < 55" for i
    using that assms Cons_nth_drop_Suc [of i h] by simp
  have run: "drop i h = slice h i n @ drop (i + n) h" for i n
    by (simp add: slice_def) (metis add.commute append_take_drop_id drop_drop)
  have "h = drop 0 h"
    by simp
  also have "\<dots> = h ! 0 # h ! 1 # h ! 2 # drop 3 h"
    using cons [of 0] cons [of 1] cons [of 2] by (simp add: eval_nat_numeral)
  also have "drop 3 h = slice h 3 32 @ h ! 35 # drop 36 h"
    using run [of 3 32] cons [of 35] by simp
  also have "drop 36 h = slice h 36 16 @ h ! 52 # h ! 53 # h ! 54 # []"
    using run [of 36 16] cons [of 52] cons [of 53] cons [of 54] assms by simp
  finally show ?thesis
    by simp
qed

lemma parse_build_traceparent:
  assumes "length t = 16" "length p = 8" "t \<noteq> replicate 16 0" "p \<noteq> replicate 8 0"
  shows "parse_traceparent_full (build_traceparent_value t p f) = Some (t, p, ucast f)"
proof -
  note shape = build_traceparent_shape [OF assms(1,2) refl, of f]
  have "decode_hex16 (hex_encode_into_slice t) = Some t" "decode_hex8 (hex_encode_into_slice p) = Some p"
    using assms(1,2) decode_hex_encode [of t] decode_hex_encode [of p]
    by (simp_all add: decode_hex16_def decode_hex8_def)
  with shape assms(3,4) show ?thesis
    by (simp add: parse_traceparent_full_def hex_nibble_pair nibbles_join)
qed

lemma parse_traceparent_SomeD:
  assumes "parse_traceparent_full h = Some (t, p, fl)"
  shows "length t = 16 \<and> length p = 8 \<and> t \<noteq> replicate 16 0 \<and> p \<noteq> replicate 8 0 \<and>
    (\<exists>f. fl = ucast f \<and> h = build_traceparent_value t p f)"
proof -
  obtain hi lo where parts: "length h = 55" "h ! 0 = 0x30" "h ! 1 = 0x30" "h ! 2 = 0x2D"
    "decode_hex16 (slice h 3 32) = Some t" "h ! 35 = 0x2D"
    "decode_hex8 (slice h 36 16) = Some p" "h ! 52 = 0x2D"
    "hex_nibble (h ! 53) = Some hi" "hex_nibble (h ! 54) = Some lo"
    "t \<noteq> replicate 16 0" "p \<noteq> replicate 8 0" "fl = ucast (push_bit 4 hi OR lo)"
    using assms
    by (auto simp: parse_traceparent_full_def Let_def split: if_splits option.splits)
  have t: "length t = 16 \<and> slice h 3 32 = hex_encode_into_slice t"
    using parts(1,5) by (intro decode_hex_pairs_SomeD) (auto simp: decode_hex16_def split: if_splits)
  have p: "length p = 8 \<and> slice h 36 16 = hex_encode_into_slice p"
    using parts(1,7) by (intro decode_hex_pairs_SomeD) (auto simp: decode_hex8_def split: if_splits)
  have f: "hex_encode_into_slice [push_bit 4 hi OR lo] = [h ! 53, h ! 54]"
    using hex_nibble_SomeD [OF parts(9)] hex_nibble_SomeD [OF parts(10)]
    by (simp only: hex_encode_Cons hex_encode_Nil nibbles_split)
  have "h = build_traceparent_value t p (push_bit 4 hi OR lo)"
    unfolding build_traceparent_value_def f using header_parts [OF parts(1)] parts(2-4,6,8) t p
    by simp
  with parts t p show ?thesis
    by blast
qed

text \<open>
  C33. The parser accepts exactly the canonical version-00 headers: \<open>parse_traceparent_full\<close> returns
  \<open>(t, p, fl)\<close> if and only if the header is the one \<open>build_traceparent_value\<close> makes from a non-zero
  16-byte trace id \<open>t\<close>, a non-zero 8-byte parent id \<open>p\<close> and the flags octet. So an injected header
  always parses back to the same context, and no other bytes are accepted.
\<close>

theorem traceparent_roundtrip:
  "parse_traceparent_full h = Some (t, p, fl) \<longleftrightarrow>
     length t = 16 \<and> length p = 8 \<and> t \<noteq> replicate 16 0 \<and> p \<noteq> replicate 8 0 \<and>
     (\<exists>f. fl = ucast f \<and> h = build_traceparent_value t p f)"
  using parse_traceparent_SomeD parse_build_traceparent by blast

section \<open>Generator lemmas\<close>

lemma nat_be_zeros: "nat_be (replicate n 0) = 0"
proof (induction n)
  case (Suc n)
  have "replicate (Suc n) (0 :: u8) = replicate n 0 @ [0]"
    by (simp add: replicate_append_same)
  with Suc show ?case
    by (simp only: nat_be_snoc) simp
qed (simp add: nat_be_def)

lemma u64_to_le_bytes_zero: "u64_to_le_bytes v = replicate 8 0 \<Longrightarrow> v = 0"
proof -
  assume "u64_to_le_bytes v = replicate 8 0"
  then have "be_nat 8 (unat v) = replicate 8 0"
    unfolding u64_to_le_bytes_def by (metis rev_replicate rev_rev_ident)
  then have "nat_be (be_nat 8 (unat v)) = 0"
    using nat_be_zeros [of 8] by simp
  moreover have "unat v < 256 ^ 8"
    using unsigned_less [of v] by simp
  ultimately show "v = 0"
    by (simp add: nat_be_be_nat unat_eq_zero)
qed

lemma le_bytes_pair_zero:
  assumes "u64_to_le_bytes a @ u64_to_le_bytes b = replicate 16 0"
  shows "a = 0 \<and> b = 0"
proof -
  have "replicate 16 (0 :: u8) = replicate 8 0 @ replicate 8 0"
    by (simp add: replicate_add [symmetric])
  then show ?thesis
    using assms u64_to_le_bytes_zero by (auto simp: append_eq_append_conv)
qed

definition good_id :: "nat \<Rightarrow> bytes option \<times> ('r, 'e) worker_tls \<Rightarrow> bool" where
  "good_id n res =
     (case res of
        (Some i, w) \<Rightarrow> length i = n \<and> i \<noteq> replicate n 0
      | (None, w) \<Rightarrow> wr_tracing_disabled w)"

lemma gen_trace_id_good: "good_id 16 (gen_trace_id next_u64 seed w)"
proof -
  have "good_id 16 (gen_trace_id_loop next_u64 seed n w)" for n
    by (induction n arbitrary: w)
      (use le_bytes_pair_zero in \<open>fastforce simp: good_id_def split: prod.splits\<close>)+
  then show ?thesis
    by (simp add: gen_trace_id_def)
qed

lemma gen_span_id_good: "good_id 8 (gen_span_id next_u64 seed w)"
proof -
  have "good_id 8 (gen_span_id_loop next_u64 seed n w)" for n
    by (induction n arbitrary: w)
      (use u64_to_le_bytes_zero in \<open>fastforce simp: good_id_def split: prod.splits\<close>)+
  then show ?thesis
    by (simp add: gen_span_id_def)
qed

text \<open>
  Whatever the generator and the entropy source do, identifier generation ends, and either yields
  a trace id of 16 bytes (a span id of 8 bytes) that is not all zero, or yields none with tracing
  disabled for the worker.
\<close>

lemma generated_ids_valid:
  "(case gen_trace_id next_u64 seed w of
      (Some tid, w') \<Rightarrow> length tid = 16 \<and> tid \<noteq> replicate 16 0
    | (None, w') \<Rightarrow> wr_tracing_disabled w') \<and>
   (case gen_span_id next_u64 seed w of
      (Some sid, w') \<Rightarrow> length sid = 8 \<and> sid \<noteq> replicate 8 0
    | (None, w') \<Rightarrow> wr_tracing_disabled w')"
  using gen_trace_id_good [of next_u64 seed w] gen_span_id_good [of next_u64 seed w]
  unfolding good_id_def by simp

end
