(* ===== verification/Span_Start.thy ===== *)
theory Span_Start
  imports Trace_Context
begin

text \<open>
  The REWRITE-phase handler of \<^verbatim>\<open>src/src/metric_source/span_start.rs\<close> with the per-location
  configuration (\<^verbatim>\<open>src/src/metric_source/location_conf.rs\<close>) and the redirect-safe span context of
  \<^verbatim>\<open>src/src/traces/ctx.rs\<close>. The handler reads the inbound \<open>traceparent\<close>, evaluates the sampling gate,
  assigns identifiers, stores the context on the request and injects the outbound header. nginx's
  pool allocations may fail at any point; the header iterator, the evaluation of complex values, the
  random generator and the clock are parameters.
\<close>

section \<open>Location configuration\<close>

datatype TraceContextMode = Ignore | Extract | Inject | Propagate

datatype LogExportMode = LogExport_Unset | LogExport_Off | LogExport_All | LogExport_If

record 'cv LocationConf =
  lc_otel_trace :: "'cv option"
  lc_trace_context_raw :: u8
  lc_span_name_cv :: "'cv option"
  lc_span_attrs :: "(bytes \<times> bytes) list"
  lc_log_export_raw :: u8
  lc_log_export_cv :: "'cv option"

definition TRACE_CONTEXT_UNSET :: u8 where "TRACE_CONTEXT_UNSET = 0xFF"

definition LOG_EXPORT_UNSET :: u8 where "LOG_EXPORT_UNSET = 0"

definition default_location_conf :: "'cv LocationConf" where
  "default_location_conf =
     \<lparr>lc_otel_trace = None, lc_trace_context_raw = TRACE_CONTEXT_UNSET, lc_span_name_cv = None,
      lc_span_attrs = [], lc_log_export_raw = LOG_EXPORT_UNSET, lc_log_export_cv = None\<rparr>"

definition trace_context :: "'cv LocationConf \<Rightarrow> TraceContextMode" where
  "trace_context lc =
     (if lc_trace_context_raw lc = 0 then Ignore
      else if lc_trace_context_raw lc = 1 then Extract
      else if lc_trace_context_raw lc = 2 then Inject
      else if lc_trace_context_raw lc = 3 then Propagate
      else Extract)"

primrec trace_context_mode_u8 :: "TraceContextMode \<Rightarrow> u8" where
  "trace_context_mode_u8 Ignore = 0" | "trace_context_mode_u8 Extract = 1"
| "trace_context_mode_u8 Inject = 2" | "trace_context_mode_u8 Propagate = 3"

definition set_trace_context :: "TraceContextMode \<Rightarrow> 'cv LocationConf \<Rightarrow> 'cv LocationConf" where
  "set_trace_context mode lc = lc\<lparr>lc_trace_context_raw := trace_context_mode_u8 mode\<rparr>"

definition trace_context_is_set :: "'cv LocationConf \<Rightarrow> bool" where
  "trace_context_is_set lc \<longleftrightarrow> lc_trace_context_raw lc \<noteq> TRACE_CONTEXT_UNSET"

definition log_export_mode :: "'cv LocationConf \<Rightarrow> LogExportMode" where
  "log_export_mode lc =
     (if lc_log_export_raw lc = 1 then LogExport_Off
      else if lc_log_export_raw lc = 2 then LogExport_All
      else if lc_log_export_raw lc = 3 then LogExport_If
      else LogExport_Unset)"

primrec log_export_mode_u8 :: "LogExportMode \<Rightarrow> u8" where
  "log_export_mode_u8 LogExport_Unset = 0" | "log_export_mode_u8 LogExport_Off = 1"
| "log_export_mode_u8 LogExport_All = 2" | "log_export_mode_u8 LogExport_If = 3"

definition set_log_export_mode :: "LogExportMode \<Rightarrow> 'cv LocationConf \<Rightarrow> 'cv LocationConf" where
  "set_log_export_mode mode lc = lc\<lparr>lc_log_export_raw := log_export_mode_u8 mode\<rparr>"

definition log_export_is_set :: "'cv LocationConf \<Rightarrow> bool" where
  "log_export_is_set lc \<longleftrightarrow> lc_log_export_raw lc \<noteq> LOG_EXPORT_UNSET"

definition merge_location_conf :: "'cv LocationConf \<Rightarrow> 'cv LocationConf \<Rightarrow> 'cv LocationConf" where
  "merge_location_conf self prev =
     (let s1 = (if lc_otel_trace self = None then self\<lparr>lc_otel_trace := lc_otel_trace prev\<rparr> else self);
          s2 = (if \<not> trace_context_is_set s1 then s1\<lparr>lc_trace_context_raw := lc_trace_context_raw prev\<rparr> else s1);
          s3 = (if lc_span_name_cv s2 = None then s2\<lparr>lc_span_name_cv := lc_span_name_cv prev\<rparr> else s2)
      in if \<not> log_export_is_set s3
         then s3\<lparr>lc_log_export_raw := lc_log_export_raw prev, lc_log_export_cv := lc_log_export_cv prev\<rparr>
         else s3)"

section \<open>Request state\<close>

record SpanCtx =
  sc_trace_id :: bytes
  sc_span_id :: bytes
  sc_parent_span_id :: bytes
  sc_flags :: u32
  sc_start_time_unix_nano :: u64
  sc_start_mono :: nat
  sc_sampled :: bool

text \<open>An entry of \<open>r->headers_in.headers\<close>; \<open>hash = 0\<close> marks an inactive entry.\<close>

record header_entry =
  h_hash :: nat
  h_key :: bytes
  h_value :: bytes

text \<open>
  What the handler touches of the nginx request: the flags, the inbound headers, the module-context
  slot, the payloads of the \<open>cleanup_span_ctx\<close> nodes on the pool's cleanup list (newest first), and
  the outcomes of the pool allocations to come (an empty list: they all succeed).
\<close>

record http_request =
  rq_internal :: bool
  rq_filter_finalize :: bool
  rq_headers_in :: "header_entry list"
  rq_ctx :: "SpanCtx option"
  rq_anchors :: "SpanCtx list"
  rq_pool :: "bool list"

definition pool_alloc :: "http_request \<Rightarrow> bool \<times> http_request" where
  "pool_alloc r =
     (case rq_pool r of [] \<Rightarrow> (True, r) | ok # rest \<Rightarrow> (ok, r\<lparr>rq_pool := rest\<rparr>))"

definition zero_span_ctx :: SpanCtx where
  "zero_span_ctx =
     \<lparr>sc_trace_id = replicate 16 0, sc_span_id = replicate 8 0, sc_parent_span_id = replicate 8 0,
      sc_flags = 0, sc_start_time_unix_nano = 0, sc_start_mono = 0, sc_sampled = False\<rparr>"

text \<open>
  \<open>alloc_span_ctx\<close> adds a zeroed payload to the cleanup list; \<open>alloc_span_ctx_plain\<close> adds nothing
  there. The handler's assignment \<open>*ctx_ptr = SpanCtx { .. }\<close> writes the newest payload.
\<close>

definition alloc_span_ctx :: "http_request \<Rightarrow> bool \<times> http_request" where
  "alloc_span_ctx r =
     (case pool_alloc r of
        (False, r1) \<Rightarrow> (False, r1)
      | (True, r1) \<Rightarrow> (True, r1\<lparr>rq_anchors := zero_span_ctx # rq_anchors r1\<rparr>))"

definition alloc_span_ctx_plain :: "http_request \<Rightarrow> bool \<times> http_request" where
  "alloc_span_ctx_plain r = pool_alloc r"

definition write_span_ctx :: "SpanCtx \<Rightarrow> http_request \<Rightarrow> http_request" where
  "write_span_ctx c r = r\<lparr>rq_anchors := c # tl (rq_anchors r)\<rparr>"

definition set_module_ctx :: "SpanCtx option \<Rightarrow> http_request \<Rightarrow> http_request" where
  "set_module_ctx c r = r\<lparr>rq_ctx := c\<rparr>"

text \<open>\<open>recover_span_ctx\<close>, with the current slot read from the request.\<close>

definition recover_span_ctx :: "http_request \<Rightarrow> SpanCtx option \<times> http_request" where
  "recover_span_ctx r =
     (case rq_ctx r of
        Some c \<Rightarrow> (Some c, r)
      | None \<Rightarrow>
          if \<not> (rq_internal r \<or> rq_filter_finalize r) then (None, r)
          else
            case rq_anchors r of
              c # _ \<Rightarrow> (Some c, set_module_ctx (Some c) r)
            | [] \<Rightarrow> (None, r))"

section \<open>Header injection\<close>

definition to_ascii_lowercase :: "u8 \<Rightarrow> u8" where
  "to_ascii_lowercase b = (if 0x41 \<le> b \<and> b \<le> 0x5A then b + 0x20 else b)"

definition eq_ignore_ascii_case :: "bytes \<Rightarrow> bytes \<Rightarrow> bool" where
  "eq_ignore_ascii_case a b \<longleftrightarrow> map to_ascii_lowercase a = map to_ascii_lowercase b"

definition TRACEPARENT :: bytes where
  "TRACEPARENT = lit ''traceparent''"

definition header_matches :: "bytes \<Rightarrow> header_entry \<Rightarrow> bool" where
  "header_matches name e \<longleftrightarrow>
     h_hash e \<noteq> 0 \<and> length (h_key e) = length name \<and> eq_ignore_ascii_case (h_key e) name"

fun find_header_in :: "header_entry list \<Rightarrow> bytes \<Rightarrow> nat option" where
  "find_header_in [] name = None"
| "find_header_in (e # es) name =
     (if header_matches name e then Some 0 else map_option Suc (find_header_in es name))"

definition inject_traceparent_header :: "bytes \<Rightarrow> bytes \<Rightarrow> u8 \<Rightarrow> http_request \<Rightarrow> http_request" where
  "inject_traceparent_header trace_id span_id trace_flags r =
     (let value = build_traceparent_value trace_id span_id trace_flags
      in case find_header_in (rq_headers_in r) TRACEPARENT of
           Some i \<Rightarrow>
             let e = rq_headers_in r ! i;
                 (ok, r1) = (if length (h_value e) = 55 then (True, r) else pool_alloc r)
             in if \<not> ok then r1
                else
                  r1\<lparr>rq_headers_in :=
                    (rq_headers_in r1)[i := e\<lparr>h_value := value,
                      h_hash := (if h_hash e = 0 then 1 else h_hash e)\<rparr>]\<rparr>
         | None \<Rightarrow>
             let (key_ok, r1) = pool_alloc r; (val_ok, r2) = pool_alloc r1
             in if \<not> key_ok \<or> \<not> val_ok then r2
                else
                  let (push_ok, r3) = pool_alloc r2
                  in if \<not> push_ok then r3
                     else r3\<lparr>rq_headers_in := rq_headers_in r3 @
                            [\<lparr>h_hash = 1, h_key = TRACEPARENT, h_value = value\<rparr>]\<rparr>)"

section \<open>The handler\<close>

text \<open>The header scan: the first \<open>traceparent\<close> decides, parsed or not.\<close>

fun scan_traceparent :: "(bytes \<times> bytes) list \<Rightarrow> (bytes \<times> bytes \<times> u32) option" where
  "scan_traceparent [] = None"
| "scan_traceparent ((k, v) # hs) =
     (if length k = 11 \<and> eq_ignore_ascii_case k TRACEPARENT then parse_traceparent_full v
      else scan_traceparent hs)"

definition warn_span_ctx_oom_once :: "('r, 'e) worker_tls \<Rightarrow> ('r, 'e) worker_tls" where
  "warn_span_ctx_oom_once w = w\<lparr>wr_span_ctx_oom_warned := True\<rparr>"

text \<open>
  After the gate has passed: clocks, the tracing-disabled check, sampling, identifiers, the full
  context and the outbound header. \<open>now\<close> is the wall clock and the monotonic clock.
\<close>

definition span_start_gate_passed ::
  "('r \<Rightarrow> u64 \<times> 'r) \<Rightarrow> ('e \<Rightarrow> 'r option \<times> 'e) \<Rightarrow> u64 \<times> nat \<Rightarrow> TraceContextMode \<Rightarrow>
     (bytes \<times> bytes \<times> u32) option \<Rightarrow> http_request \<Rightarrow> ('r, 'e) worker_tls \<Rightarrow>
     http_request \<times> ('r, 'e) worker_tls" where
  "span_start_gate_passed next_u64 seed now mode inbound r w =
     (if wr_tracing_disabled w then (set_module_ctx None r, w)
      else
        let sampled = (case inbound of Some (_, _, fl) \<Rightarrow> fl AND 1 \<noteq> 0 | None \<Rightarrow> True);
            (tid, w1) = (case inbound of Some (t, _, _) \<Rightarrow> (Some t, w) | None \<Rightarrow> gen_trace_id next_u64 seed w)
        in case tid of
             None \<Rightarrow> (set_module_ctx None r, w1)
           | Some trace_id \<Rightarrow>
               (case gen_span_id next_u64 seed w1 of
                  (None, w2) \<Rightarrow> (set_module_ctx None r, w2)
                | (Some span_id, w2) \<Rightarrow>
                    let parent = (case inbound of Some (_, p, _) \<Rightarrow> p | None \<Rightarrow> replicate 8 0);
                        flags = (case inbound of Some (_, _, fl) \<Rightarrow> fl | None \<Rightarrow> 1)
                    in case alloc_span_ctx r of
                         (False, r1) \<Rightarrow> (set_module_ctx None r1, warn_span_ctx_oom_once w2)
                       | (True, r1) \<Rightarrow>
                           let c = \<lparr>sc_trace_id = trace_id, sc_span_id = span_id,
                                    sc_parent_span_id = parent, sc_flags = flags,
                                    sc_start_time_unix_nano = fst now, sc_start_mono = snd now,
                                    sc_sampled = sampled\<rparr>;
                               r2 = set_module_ctx (Some c) (write_span_ctx c r1)
                           in if mode = Inject \<or> mode = Propagate
                              then (inject_traceparent_header trace_id span_id (ucast flags) r2, w2)
                              else (r2, w2)))"

text \<open>
  The whole handler. \<open>amcf\<close> is the main configuration (\<open>None\<close>: absent, else \<open>is_configured()\<close>), \<open>lc\<close>
  the location configuration, \<open>hdr_iter\<close> the header iterator, \<open>cv_eval\<close> evaluates a complex value under
  the current module context (\<open>None\<close>: evaluation failed). It always returns \<open>NGX_DECLINED\<close>.
\<close>

definition span_start_handler ::
  "('r \<Rightarrow> u64 \<times> 'r) \<Rightarrow> ('e \<Rightarrow> 'r option \<times> 'e) \<Rightarrow> (header_entry list \<Rightarrow> (bytes \<times> bytes) list) \<Rightarrow>
     ('cv \<Rightarrow> SpanCtx option \<Rightarrow> bytes option) \<Rightarrow> bool option \<Rightarrow> 'cv LocationConf option \<Rightarrow> u64 \<times> nat \<Rightarrow>
     http_request \<Rightarrow> ('r, 'e) worker_tls \<Rightarrow> http_request \<times> ('r, 'e) worker_tls" where
  "span_start_handler next_u64 seed hdr_iter cv_eval amcf lc now r w =
     (if rq_internal r then (r, w)
      else if amcf \<noteq> Some True then (r, w)
      else
        case lc of
          None \<Rightarrow> (r, w)
        | Some conf \<Rightarrow>
            case lc_otel_trace conf of
              None \<Rightarrow> (r, w)
            | Some cv \<Rightarrow>
                let mode = trace_context conf;
                    inbound = (if mode = Extract \<or> mode = Propagate
                               then scan_traceparent (hdr_iter (rq_headers_in r)) else None);
                    (ok, r1) =
                      (case inbound of
                         None \<Rightarrow> (True, r)
                       | Some (_, _, fl) \<Rightarrow>
                           (case alloc_span_ctx_plain r of
                              (False, r0) \<Rightarrow> (False, r0)
                            | (True, r0) \<Rightarrow>
                                (True, set_module_ctx (Some (zero_span_ctx\<lparr>sc_flags := fl\<rparr>)) r0)))
                in if \<not> ok then (r1, warn_span_ctx_oom_once w)
                   else
                     case cv_eval cv (rq_ctx r1) of
                       None \<Rightarrow> (set_module_ctx None r1, w)
                     | Some cv_bytes \<Rightarrow>
                         if cv_bytes = [] \<or> cv_bytes = lit ''0'' \<or> cv_bytes = lit ''off''
                         then (set_module_ctx None r1, w)
                         else span_start_gate_passed next_u64 seed now mode inbound r1 w)"

section \<open>Lemmas\<close>

lemma pool_alloc_frame [simp]:
  "pool_alloc r = (ok, r1) \<Longrightarrow> rq_ctx r1 = rq_ctx r"
  "pool_alloc r = (ok, r1) \<Longrightarrow> rq_anchors r1 = rq_anchors r"
  "pool_alloc r = (ok, r1) \<Longrightarrow> rq_headers_in r1 = rq_headers_in r"
  "pool_alloc r = (ok, r1) \<Longrightarrow> rq_internal r1 = rq_internal r"
  "pool_alloc r = (ok, r1) \<Longrightarrow> rq_pool r1 = tl (rq_pool r)"
  by (auto simp: pool_alloc_def split: list.splits)

lemma inject_frame [simp]:
  "rq_ctx (inject_traceparent_header t s f r) = rq_ctx r"
  "rq_anchors (inject_traceparent_header t s f r) = rq_anchors r"
  "rq_internal (inject_traceparent_header t s f r) = rq_internal r"
  by (auto simp: inject_traceparent_header_def Let_def split: option.splits prod.splits)

lemma scan_traceparent_parsed:
  "scan_traceparent hs = Some (t, p, fl) \<Longrightarrow> \<exists>v. parse_traceparent_full v = Some (t, p, fl)"
  by (induction hs rule: scan_traceparent.induct) (auto split: if_splits)

text \<open>What a stored context must be, given the inbound context the handler read.\<close>

definition ctx_for :: "(bytes \<times> bytes \<times> u32) option \<Rightarrow> u64 \<times> nat \<Rightarrow> SpanCtx \<Rightarrow> bool" where
  "ctx_for inbound now c \<longleftrightarrow>
     length (sc_trace_id c) = 16 \<and> sc_trace_id c \<noteq> replicate 16 0 \<and>
     length (sc_span_id c) = 8 \<and> sc_span_id c \<noteq> replicate 8 0 \<and>
     sc_start_time_unix_nano c = fst now \<and> sc_start_mono c = snd now \<and>
     (case inbound of
        Some (t, p, fl) \<Rightarrow>
          sc_trace_id c = t \<and> sc_parent_span_id c = p \<and> sc_flags c = fl \<and> (sc_sampled c \<longleftrightarrow> fl AND 1 \<noteq> 0)
      | None \<Rightarrow> sc_parent_span_id c = replicate 8 0 \<and> sc_flags c = 1 \<and> sc_sampled c)"

text \<open>The inbound context the handler extracts under a location configuration.\<close>

definition inbound_context ::
  "(header_entry list \<Rightarrow> (bytes \<times> bytes) list) \<Rightarrow> 'cv LocationConf \<Rightarrow> http_request \<Rightarrow>
     (bytes \<times> bytes \<times> u32) option" where
  "inbound_context hdr_iter conf r =
     (if trace_context conf = Extract \<or> trace_context conf = Propagate
      then scan_traceparent (hdr_iter (rq_headers_in r)) else None)"

definition valid_inbound :: "(bytes \<times> bytes \<times> u32) option \<Rightarrow> bool" where
  "valid_inbound inbound =
     (case inbound of
        Some (t, p, fl) \<Rightarrow> length t = 16 \<and> t \<noteq> replicate 16 0 \<and> (\<exists>f :: u8. fl = ucast f)
      | None \<Rightarrow> True)"

lemma inbound_context_valid: "valid_inbound (inbound_context hdr_iter conf r)"
  using scan_traceparent_parsed parse_traceparent_SomeD
  by (fastforce simp: inbound_context_def valid_inbound_def split: option.splits)

lemma gate_passed_cases:
  assumes "span_start_gate_passed next_u64 seed now mode inbound r w = (r', w')" "valid_inbound inbound"
  obtains (declined) "rq_ctx r' = None" "rq_anchors r' = rq_anchors r" "rq_headers_in r' = rq_headers_in r"
      "rq_internal r' = rq_internal r"
  | (started) c r1 where "ctx_for inbound now c" "rq_ctx r1 = Some c" "rq_anchors r1 = c # rq_anchors r"
      "rq_headers_in r1 = rq_headers_in r" "rq_internal r1 = rq_internal r" "rq_pool r1 = tl (rq_pool r)"
      "r' = (if mode = Inject \<or> mode = Propagate
             then inject_traceparent_header (sc_trace_id c) (sc_span_id c) (ucast (sc_flags c)) r1 else r1)"
proof -
  obtain tid w1 where tid: "(case inbound of Some (t, _, _) \<Rightarrow> (Some t, w) | None \<Rightarrow> gen_trace_id next_u64 seed w) = (tid, w1)"
    by fastforce
  obtain sid w2 where sid: "gen_span_id next_u64 seed w1 = (sid, w2)"
    by fastforce
  obtain ok r1 where al: "alloc_span_ctx r = (ok, r1)"
    by fastforce
  have r1: "rq_ctx r1 = rq_ctx r" "rq_headers_in r1 = rq_headers_in r" "rq_internal r1 = rq_internal r"
    "rq_pool r1 = tl (rq_pool r)" "rq_anchors r1 = (if ok then zero_span_ctx # rq_anchors r else rq_anchors r)"
    using al by (auto simp: alloc_span_ctx_def split: prod.splits bool.splits)
  have tid_ok: "length t = 16 \<and> t \<noteq> replicate 16 0" if "tid = Some t" for t
    using tid that assms(2) gen_trace_id_good [of next_u64 seed w]
    by (auto simp: good_id_def valid_inbound_def split: option.splits)
  have sid_ok: "length t = 8 \<and> t \<noteq> replicate 8 0" if "sid = Some t" for t
    using sid that gen_span_id_good [of next_u64 seed w1] by (auto simp: good_id_def)
  show thesis
  proof (cases "wr_tracing_disabled w \<or> tid = None \<or> sid = None \<or> \<not> ok")
    case True
    have res: "r' \<in> {set_module_ctx None r, set_module_ctx None r1}"
      using assms(1) True unfolding span_start_gate_passed_def tid
      by (cases tid; cases sid; cases ok) (auto simp: sid al split: if_splits)
    moreover have "ok \<Longrightarrow> r' = set_module_ctx None r"
      using assms(1) True unfolding span_start_gate_passed_def tid
      by (cases tid; cases sid) (auto simp: sid al split: if_splits)
    ultimately show ?thesis
      using r1 by (intro declined) (auto simp: set_module_ctx_def split: if_splits)
  next
    case False
    then obtain t s where ts: "tid = Some t" "sid = Some s" "ok" "\<not> wr_tracing_disabled w"
      by auto
    define c where "c = \<lparr>sc_trace_id = t, sc_span_id = s,
        sc_parent_span_id = (case inbound of Some (_, p, _) \<Rightarrow> p | None \<Rightarrow> replicate 8 0),
        sc_flags = (case inbound of Some (_, _, fl) \<Rightarrow> fl | None \<Rightarrow> 1),
        sc_start_time_unix_nano = fst now, sc_start_mono = snd now,
        sc_sampled = (case inbound of Some (_, _, fl) \<Rightarrow> fl AND 1 \<noteq> 0 | None \<Rightarrow> True)\<rparr>"
    define r2 where "r2 = set_module_ctx (Some c) (write_span_ctx c r1)"
    have "ctx_for inbound now c"
      using tid_ok sid_ok ts tid by (auto simp: ctx_for_def c_def split: option.splits)
    moreover have "r' = (if mode = Inject \<or> mode = Propagate
             then inject_traceparent_header (sc_trace_id c) (sc_span_id c) (ucast (sc_flags c)) r2 else r2)"
      using assms(1) ts unfolding span_start_gate_passed_def tid
      by (auto simp: sid al Let_def r2_def c_def split: if_splits)
    ultimately show ?thesis
      using r1 ts by (intro started [of c r2]) (auto simp: r2_def set_module_ctx_def write_span_ctx_def)
  qed
qed

lemma handler_cases:
  assumes "span_start_handler next_u64 seed hdr_iter cv_eval amcf lc now r w = (r', w')" "rq_ctx r = None"
  obtains (declined) "rq_ctx r' = None" "rq_anchors r' = rq_anchors r" "rq_headers_in r' = rq_headers_in r"
      "rq_internal r' = rq_internal r"
  | (started) conf c r1 where "lc = Some conf" "\<not> rq_internal r" "amcf = Some True"
      "ctx_for (inbound_context hdr_iter conf r) now c" "rq_ctx r1 = Some c" "rq_anchors r1 = c # rq_anchors r"
      "rq_headers_in r1 = rq_headers_in r" "rq_internal r1 = rq_internal r" "rq_pool r = [] \<longrightarrow> rq_pool r1 = []"
      "r' = (if trace_context conf = Inject \<or> trace_context conf = Propagate
             then inject_traceparent_header (sc_trace_id c) (sc_span_id c) (ucast (sc_flags c)) r1 else r1)"
proof (cases "rq_internal r \<or> amcf \<noteq> Some True \<or> lc = None \<or> (\<exists>conf. lc = Some conf \<and> lc_otel_trace conf = None)")
  case True
  then have "r' = r"
    using assms(1) by (auto simp: span_start_handler_def split: if_splits)
  with assms(2) show ?thesis
    by (intro declined) auto
next
  case False
  then obtain conf cv where conf: "lc = Some conf" "lc_otel_trace conf = Some cv" "\<not> rq_internal r" "amcf = Some True"
    by auto
  define inb where "inb = inbound_context hdr_iter conf r"
  obtain ok r1 where pre: "(case inb of None \<Rightarrow> (True, r)
       | Some (_, _, fl) \<Rightarrow> (case alloc_span_ctx_plain r of (False, r0) \<Rightarrow> (False, r0)
            | (True, r0) \<Rightarrow> (True, set_module_ctx (Some (zero_span_ctx\<lparr>sc_flags := fl\<rparr>)) r0))) = (ok, r1)"
    by fastforce
  have r1: "rq_headers_in r1 = rq_headers_in r" "rq_internal r1 = rq_internal r" "rq_anchors r1 = rq_anchors r"
    "rq_pool r = [] \<longrightarrow> rq_pool r1 = []" "\<not> ok \<longrightarrow> rq_ctx r1 = None"
    using pre assms(2)
    by (auto simp: alloc_span_ctx_plain_def set_module_ctx_def split: option.splits prod.splits bool.splits)
  have eq: "(r', w') =
      (if \<not> ok then (r1, warn_span_ctx_oom_once w)
       else case cv_eval cv (rq_ctx r1) of
              None \<Rightarrow> (set_module_ctx None r1, w)
            | Some b \<Rightarrow>
                if b = [] \<or> b = lit ''0'' \<or> b = lit ''off'' then (set_module_ctx None r1, w)
                else span_start_gate_passed next_u64 seed now (trace_context conf) inb r1 w)"
    using assms(1) conf pre unfolding span_start_handler_def inb_def inbound_context_def
    by (simp add: Let_def)
  consider "r' = r1" "\<not> ok" | "r' = set_module_ctx None r1"
    | "ok" "(r', w') = span_start_gate_passed next_u64 seed now (trace_context conf) inb r1 w"
    using eq by (cases ok; cases "cv_eval cv (rq_ctx r1)") (auto split: if_splits)
  then show ?thesis
  proof cases
    case 1
    with r1 show ?thesis
      by (intro declined) auto
  next
    case 2
    with r1 show ?thesis
      by (intro declined) (auto simp: set_module_ctx_def)
  next
    case 3
    have "valid_inbound inb"
      unfolding inb_def by (rule inbound_context_valid)
    with 3(2) [symmetric] show ?thesis
    proof (cases rule: gate_passed_cases)
      case declined
      with r1 that(1) show ?thesis by simp
    next
      case (started c r2)
      with r1 conf show ?thesis
        by (intro that(2) [of conf c r2]) (auto simp: inb_def)
    qed
  qed
qed

lemma find_header_in_SomeD:
  "find_header_in hs name = Some i \<Longrightarrow> i < length hs \<and> header_matches name (hs ! i)"
  by (induction hs name arbitrary: i rule: find_header_in.induct) (auto split: if_splits)

lemma find_header_in_update:
  "find_header_in hs name = Some i \<Longrightarrow> header_matches name e \<Longrightarrow> find_header_in (hs[i := e]) name = Some i"
  by (induction hs name arbitrary: i rule: find_header_in.induct) (auto split: if_splits)

lemma find_header_in_append:
  "find_header_in hs name = None \<Longrightarrow> header_matches name e \<Longrightarrow>
     find_header_in (hs @ [e]) name = Some (length hs)"
  by (induction hs name rule: find_header_in.induct) (auto split: if_splits)

lemma filter_update_match:
  "find_header_in hs name = Some i \<Longrightarrow> header_matches name e \<Longrightarrow>
     length (filter (header_matches name) (hs[i := e])) = length (filter (header_matches name) hs) \<and>
     1 \<le> length (filter (header_matches name) hs)"
  by (induction hs name arbitrary: i rule: find_header_in.induct) (auto split: if_splits)

lemma filter_no_match: "find_header_in hs name = None \<Longrightarrow> filter (header_matches name) hs = []"
  by (induction hs name rule: find_header_in.induct) (auto split: if_splits)

lemma traceparent_matches: "h_hash e \<noteq> 0 \<Longrightarrow> h_key e = TRACEPARENT \<Longrightarrow> header_matches TRACEPARENT e"
  by (simp add: header_matches_def eq_ignore_ascii_case_def)

lemma inject_traceparent_result:
  assumes "rq_pool r = []" "hs' = rq_headers_in (inject_traceparent_header t s f r)"
  shows "\<exists>i. find_header_in hs' TRACEPARENT = Some i \<and> h_value (hs' ! i) = build_traceparent_value t s f"
    and "length (filter (header_matches TRACEPARENT) hs') =
         max 1 (length (filter (header_matches TRACEPARENT) (rq_headers_in r)))"
proof -
  have alloc: "pool_alloc r = (True, r)"
    using assms(1) by (simp add: pool_alloc_def)
  have "(\<exists>i. find_header_in hs' TRACEPARENT = Some i \<and> h_value (hs' ! i) = build_traceparent_value t s f) \<and>
    length (filter (header_matches TRACEPARENT) hs') =
      max 1 (length (filter (header_matches TRACEPARENT) (rq_headers_in r)))"
  proof (cases "find_header_in (rq_headers_in r) TRACEPARENT")
    case None
    then have "hs' = rq_headers_in r @
        [\<lparr>h_hash = 1, h_key = TRACEPARENT, h_value = build_traceparent_value t s f\<rparr>]"
      unfolding assms(2) inject_traceparent_header_def by (simp add: alloc Let_def)
    with None show ?thesis
      using find_header_in_append [OF None] filter_no_match [OF None]
      by (simp add: traceparent_matches nth_append)
  next
    case (Some i)
    define e where "e = (rq_headers_in r ! i)\<lparr>h_value := build_traceparent_value t s f\<rparr>"
    have i: "i < length (rq_headers_in r)" "header_matches TRACEPARENT (rq_headers_in r ! i)"
      using find_header_in_SomeD [OF Some] by auto
    then have e: "header_matches TRACEPARENT e" "h_hash (rq_headers_in r ! i) \<noteq> 0"
      by (auto simp: e_def header_matches_def)
    have "hs' = (rq_headers_in r)[i := e]"
      unfolding assms(2) inject_traceparent_header_def using Some e(2)
      by (cases "length (h_value (rq_headers_in r ! i)) = 55") (simp_all add: alloc Let_def e_def)
    with i(1) show ?thesis
      using find_header_in_update [OF Some e(1)] filter_update_match [OF Some e(1)]
      by (simp add: e_def)
  qed
  then show "\<exists>i. find_header_in hs' TRACEPARENT = Some i \<and> h_value (hs' ! i) = build_traceparent_value t s f"
    and "length (filter (header_matches TRACEPARENT) hs') =
         max 1 (length (filter (header_matches TRACEPARENT) (rq_headers_in r)))"
    by auto
qed

lemma ctx_flags_octet:
  assumes "ctx_for inbound now c" "valid_inbound inbound"
  shows "ucast (ucast (sc_flags c) :: u8) = sc_flags c"
proof -
  have "\<exists>f :: u8. sc_flags c = ucast f"
    using assms by (auto simp: ctx_for_def valid_inbound_def split: option.splits intro: exI [of _ 1])
  then show ?thesis
    by (auto simp: flags_roundtrip)
qed

section \<open>Properties\<close>


text \<open>A concrete request for the witnesses: a sampled inbound parent under \<open>propagate\<close>.\<close>

definition demo_next :: "nat \<Rightarrow> u64 \<times> nat" where
  "demo_next n = (of_nat n + 7, Suc n)"

definition demo_seed :: "unit \<Rightarrow> nat option \<times> unit" where
  "demo_seed e = (Some 0, ())"

definition demo_iter :: "header_entry list \<Rightarrow> (bytes \<times> bytes) list" where
  "demo_iter = map (\<lambda>e. (h_key e, h_value e))"

definition demo_cv :: "bytes \<Rightarrow> SpanCtx option \<Rightarrow> bytes option" where
  "demo_cv cv ctx = Some cv"

definition demo_conf :: "bytes LocationConf" where
  "demo_conf = default_location_conf\<lparr>lc_otel_trace := Some (lit ''on''), lc_trace_context_raw := 3\<rparr>"

definition demo_request :: http_request where
  "demo_request =
     \<lparr>rq_internal = False, rq_filter_finalize = False,
      rq_headers_in = [\<lparr>h_hash = 5, h_key = lit ''Traceparent'',
        h_value = build_traceparent_value (replicate 16 1) (replicate 8 2) 1\<rparr>],
      rq_ctx = None, rq_anchors = [], rq_pool = []\<rparr>"

definition demo_tls :: "(nat, unit) worker_tls" where
  "demo_tls = \<lparr>wr_drbg = None, wr_os = (), wr_tracing_disabled = False,
     wr_lazy_seed_emerg_logged = False, wr_span_ctx_oom_warned = False\<rparr>"

definition demo_run :: "http_request \<times> (nat, unit) worker_tls" where
  "demo_run = span_start_handler demo_next demo_seed demo_iter demo_cv (Some True) (Some demo_conf) (100, 200)
     demo_request demo_tls"

lemma demo_run_ctx:
  "rq_ctx (fst demo_run) =
     Some \<lparr>sc_trace_id = replicate 16 1, sc_span_id = [7, 0, 0, 0, 0, 0, 0, 0],
           sc_parent_span_id = replicate 8 2, sc_flags = 1, sc_start_time_unix_nano = 100,
           sc_start_mono = 200, sc_sampled = True\<rparr>"
  by code_simp

lemma demo_run_eq:
  "span_start_handler demo_next demo_seed demo_iter demo_cv (Some True) (Some demo_conf) (100, 200)
     demo_request demo_tls = (fst demo_run, snd demo_run)"
  by (simp add: demo_run_def)

lemma demo_request_simps:
  "rq_ctx demo_request = None" "rq_anchors demo_request = []" "rq_pool demo_request = []"
  "trace_context demo_conf = Propagate"
  by (simp_all add: demo_request_def demo_conf_def default_location_conf_def trace_context_def)


text \<open>
  One span per request across internal redirects: after nginx clears the module-context slot and
  marks the request internal, running the REWRITE handler again changes nothing, and the LOG phase
  recovers exactly the context of the first pass, or none if the first pass declined.
\<close>

lemma span_survives_redirect:
  assumes "rq_ctx r = None" "rq_anchors r = []"
    and "span_start_handler next_u64 seed hdr_iter cv_eval amcf lc now r w = (r', w')"
    and "redirected = r'\<lparr>rq_ctx := None, rq_internal := True\<rparr>"
  shows "span_start_handler next_u64 seed hdr_iter cv_eval amcf lc2 now2 redirected w' = (redirected, w') \<and>
     fst (recover_span_ctx redirected) = rq_ctx r' \<and>
     rq_ctx (snd (recover_span_ctx redirected)) = rq_ctx r'"
proof -
  have "span_start_handler next_u64 seed hdr_iter cv_eval amcf lc2 now2 redirected w' = (redirected, w')"
    using assms(4) by (simp add: span_start_handler_def)
  moreover have "rq_anchors r' = (case rq_ctx r' of Some c \<Rightarrow> [c] | None \<Rightarrow> [])"
    using assms(3,1)
  proof (cases rule: handler_cases)
    case (started conf' c r1)
    with assms(2) show ?thesis by auto
  qed (use assms(2) in auto)
  ultimately show ?thesis
    using assms(4) by (auto simp: recover_span_ctx_def set_module_ctx_def split: option.splits)
qed



end
