(* ===== verification/Config_Parse.thy ===== *)
theory Config_Parse
  imports Delivery Stable_Core Span_Start
begin

text \<open>
  The value parsers of \<^verbatim>\<open>src/src/config/parse.rs\<close>: decimal numbers, durations and sizes as nginx
  directives write them. \<open>usize\<close> is 64 bits wide, the only width the module compiles for.
\<close>

section \<open>The parsers\<close>

fun parse_u64_loop :: "u64 \<Rightarrow> bytes \<Rightarrow> u64 option" where
  "parse_u64_loop v [] = Some v"
| "parse_u64_loop v (b # s) =
     (if \<not> is_ascii_digit b then None
      else case checked_mul v 10 of
             None \<Rightarrow> None
           | Some m \<Rightarrow> (case checked_add m (ucast (b - 0x30)) of
                None \<Rightarrow> None
              | Some v' \<Rightarrow> parse_u64_loop v' s))"

definition parse_u64_ascii :: "bytes \<Rightarrow> u64 option" where
  "parse_u64_ascii s = (if s = [] then None else parse_u64_loop 0 s)"

definition parse_duration_ms :: "bytes \<Rightarrow> u64 option" where
  "parse_duration_ms s =
     (if s = [] then None
      else if ends_with s (lit ''ms'')
      then Option.bind (parse_u64_ascii (take (length s - 2) s)) (\<lambda>n. checked_mul n 1)
      else
        let (num_bytes, suffix) =
              (if last s = 0x73 then (butlast s, 1000)
               else if last s = 0x6D then (butlast s, 60000)
               else if last s = 0x68 then (butlast s, 3600000)
               else if last s = 0x64 then (butlast s, 86400000)
               else (s, 1000))
        in Option.bind (parse_u64_ascii num_bytes) (\<lambda>n. checked_mul n suffix))"

definition is_ascii_alphabetic :: "u8 \<Rightarrow> bool" where
  "is_ascii_alphabetic c \<longleftrightarrow> 0x41 \<le> c \<and> c \<le> 0x5A \<or> 0x61 \<le> c \<and> c \<le> 0x7A"

definition size_mult :: "u8 \<Rightarrow> u64 option" where
  "size_mult c =
     (if to_ascii_lowercase c = 0x6B then Some 1024
      else if to_ascii_lowercase c = 0x6D then Some (1024 * 1024)
      else if to_ascii_lowercase c = 0x67 then Some (1024 * 1024 * 1024)
      else None)"

definition parse_size_bytes :: "bytes \<Rightarrow> u64 option" where
  "parse_size_bytes s =
     (if s = [] then None
      else
        case (if is_ascii_alphabetic (last s) then map_option (Pair (butlast s)) (size_mult (last s)) else Some (s, 1)) of
          None \<Rightarrow> None
        | Some (num_bytes, mult) \<Rightarrow>
            Option.bind (parse_u64_ascii num_bytes) (\<lambda>n. checked_mul n mult))"

section \<open>What the parsers compute\<close>

text \<open>The units a value may carry, and the value of a digit string followed by one.\<close>

definition duration_units :: "(bytes \<times> nat) list" where
  "duration_units = [(lit ''ms'', 1), (lit ''s'', 1000), (lit ''m'', 60000), (lit ''h'', 3600000), (lit ''d'', 86400000), ([], 1000)]"

definition size_units :: "(bytes \<times> nat) list" where
  "size_units =
     [([], 1), (lit ''k'', 2 ^ 10), (lit ''K'', 2 ^ 10), (lit ''m'', 2 ^ 20), (lit ''M'', 2 ^ 20), (lit ''g'', 2 ^ 30),
      (lit ''G'', 2 ^ 30)]"

definition denotes :: "(bytes \<times> nat) list \<Rightarrow> bytes \<Rightarrow> nat \<Rightarrow> bool" where
  "denotes units s v \<longleftrightarrow>
     (\<exists>ds n u. u \<in> set units \<and> s = ds @ fst u \<and> parse_magnitude ds = Some n \<and> v = n * snd u)"

lemma unat_digit: "unat (ucast (b :: u8) :: u64) = unat b"
proof -
  have "unat b < 2 ^ 8"
    using unsigned_less [of b, where ?'a = nat] by simp
  then show ?thesis
    by (simp add: unsigned_ucast_eq take_bit_nat_eq_self)
qed

lemma u64_less: "unat (x :: u64) < 2 ^ 64"
  using unsigned_less [of x, where ?'a = nat] by simp

lemma digits_value_ge: "digits_value v bs = Some n \<Longrightarrow> v \<le> n"
  by (induction v bs rule: digits_value.induct) (auto split: if_splits)

lemma digits_value_digits: "digits_value v bs = Some n \<Longrightarrow> \<forall>c\<in>set bs. is_ascii_digit c"
proof (induction v bs rule: digits_value.induct)
  case (2 v c cs)
  have c: "0x30 \<le> c \<and> c \<le> 0x39"
    using 2(2) by (cases "0x30 \<le> c \<and> c \<le> 0x39") simp_all
  moreover have "\<forall>c\<in>set cs. is_ascii_digit c"
    using 2(2) c by (intro 2(1)) simp_all
  ultimately show ?case
    by (simp add: is_ascii_digit_def)
qed simp

lemma checked_mul_None: "checked_mul a (b :: u64) = None \<longleftrightarrow> 2 ^ 64 \<le> unat a * unat b"
  by (auto simp: checked_mul_def)

lemma checked_add_None: "checked_add a (b :: u64) = None \<longleftrightarrow> 2 ^ 64 \<le> unat a + unat b"
  by (auto simp: checked_add_def)

lemma parse_u64_loop_value: "parse_u64_loop v bs = Some r \<longleftrightarrow> digits_value (unat v) bs = Some (unat r)"
proof (induction v bs rule: parse_u64_loop.induct)
  case (2 v b s)
  let ?d = "ucast (b - 0x30) :: u64"
  have overflow: "digits_value x s \<noteq> Some (unat r)" if "2 ^ 64 \<le> x" for x
    using digits_value_ge [of x s "unat r"] u64_less [of r] that by linarith
  show ?case
  proof (cases "is_ascii_digit b")
    case digit: True
    then have step: "digits_value (unat v) (b # s) = digits_value (unat v * 10 + unat (b - 0x30)) s"
      by (simp add: is_ascii_digit_def)
    show ?thesis
    proof (cases "checked_mul v 10")
      case None
      then have "2 ^ 64 \<le> unat v * 10 + unat (b - 0x30)"
        using checked_mul_None [of v 10] by simp
      then show ?thesis
        using None digit overflow unfolding step by simp
    next
      case (Some m)
      then have m: "unat m = unat v * 10"
        by (simp add: checked_mul_eq_Some)
      show ?thesis
      proof (cases "checked_add m ?d")
        case None
        then have "2 ^ 64 \<le> unat v * 10 + unat (b - 0x30)"
          using checked_add_None [of m ?d] by (simp add: m unat_digit)
        then show ?thesis
          using None Some digit overflow unfolding step by simp
      next
        case (Some v')
        then have "unat v' = unat v * 10 + unat (b - 0x30)"
          by (simp add: checked_add_eq_Some m unat_digit)
        then show ?thesis
          using 2 [of m v'] Some \<open>checked_mul v 10 = Some m\<close> digit unfolding step by simp
      qed
    qed
  qed (auto simp: is_ascii_digit_def)
qed (auto simp: unsigned_word_eqI)

lemma parse_u64_ascii_value: "parse_u64_ascii s = Some v \<longleftrightarrow> parse_magnitude s = Some (unat v)"
  by (simp add: parse_u64_ascii_def parse_magnitude_def parse_u64_loop_value)

text \<open>A number and its unit: the product, computed without wrapping.\<close>

lemma scaled_value:
  assumes "0 < unat m"
  shows "Option.bind (parse_u64_ascii ds) (\<lambda>n. checked_mul n m) = Some (v :: u64) \<longleftrightarrow>
    (\<exists>n. parse_magnitude ds = Some n \<and> unat v = n * unat m)"
proof
  assume "Option.bind (parse_u64_ascii ds) (\<lambda>n. checked_mul n m) = Some v"
  then show "\<exists>n. parse_magnitude ds = Some n \<and> unat v = n * unat m"
    by (auto simp: parse_u64_ascii_value checked_mul_eq_Some split: option.splits bind_splits)
next
  assume "\<exists>n. parse_magnitude ds = Some n \<and> unat v = n * unat m"
  then obtain n where n: "parse_magnitude ds = Some n" "unat v = n * unat m"
    by blast
  then have "n \<le> unat v"
    using assms by simp
  then have "n < 2 ^ 64"
    using u64_less [of v] by linarith
  then have "unat (of_nat n :: u64) = n"
    by (simp add: unat_of_nat)
  with n show "Option.bind (parse_u64_ascii ds) (\<lambda>n. checked_mul n m) = Some v"
    using parse_u64_ascii_value [of ds "of_nat n"] by (simp add: checked_mul_eq_Some)
qed

lemma magnitude_last:
  assumes "parse_magnitude ds = Some n" shows "ds \<noteq> [] \<and> is_ascii_digit (last ds)"
proof -
  have "ds \<noteq> []" "digits_value 0 ds = Some n"
    using assms by (simp_all add: parse_magnitude_def split: if_splits)
  then show ?thesis
    using digits_value_digits last_in_set by blast
qed

lemma ends_with_append: "ends_with (xs @ suf) suf"
  by (simp add: ends_with_def)

lemma ends_withD: "ends_with s suf \<Longrightarrow> s = take (length s - length suf) s @ suf"
  by (metis append_take_drop_id ends_with_def)

lemma lit_units:
  "lit ''ms'' = [0x6D, 0x73]" "lit ''s'' = [0x73]" "lit ''m'' = [0x6D]" "lit ''h'' = [0x68]" "lit ''d'' = [0x64]"
  "lit ''k'' = [0x6B]" "lit ''K'' = [0x4B]" "lit ''M'' = [0x4D]" "lit ''g'' = [0x67]" "lit ''G'' = [0x47]"
  by (simp_all add: lit_def)

text \<open>The number and unit \<open>parse_duration_ms\<close> splits its argument into.\<close>

definition duration_split :: "bytes \<Rightarrow> bytes \<times> u64" where
  "duration_split s =
     (if ends_with s (lit ''ms'') then (take (length s - 2) s, 1)
      else if last s = 0x73 then (butlast s, 1000)
      else if last s = 0x6D then (butlast s, 60000)
      else if last s = 0x68 then (butlast s, 3600000)
      else if last s = 0x64 then (butlast s, 86400000)
      else (s, 1000))"

lemma parse_duration_split:
  "parse_duration_ms s =
     (if s = [] then None
      else Option.bind (parse_u64_ascii (fst (duration_split s))) (\<lambda>n. checked_mul n (snd (duration_split s))))"
  unfolding parse_duration_ms_def duration_split_def by (simp add: Let_def)

lemma duration_split_unit:
  assumes "s \<noteq> []"
  obtains u where "u \<in> set duration_units" "s = fst (duration_split s) @ fst u" "unat (snd (duration_split s)) = snd u" "0 < snd u"
proof -
  have snoc: "butlast s @ [c] = s" if "last s = c" for c
    using assms that by (metis append_butlast_last_id)
  have ms: "take (length s - 2) s @ [0x6D, 0x73] = s" if "ends_with s [0x6D, 0x73]"
    using ends_withD [OF that] by (simp add: numeral_2_eq_2)
  have "\<exists>u\<in>set duration_units. s = fst (duration_split s) @ fst u \<and> unat (snd (duration_split s)) = snd u \<and> 0 < snd u"
    by (simp add: duration_split_def duration_units_def lit_units snoc ms)
  then show ?thesis
    using that by blast
qed

lemma ends_with_snoc: "ends_with (ds @ [c]) [a, b] \<Longrightarrow> c = b \<and> ds \<noteq> [] \<and> last ds = a"
proof -
  assume "ends_with (ds @ [c]) [a, b]"
  then obtain xs where "ds @ [c] = (xs @ [a]) @ [b]"
    using ends_withD by fastforce
  then have "ds = xs @ [a] \<and> c = b"
    by (metis butlast_snoc last_snoc)
  then show ?thesis
    by simp
qed

lemma not_digit: "\<not> is_ascii_digit 0x6D" "\<not> is_ascii_digit 0x73" "\<not> is_ascii_digit 0x68" "\<not> is_ascii_digit 0x64"
  by (simp_all add: is_ascii_digit_def)

lemma duration_split_suffix:
  assumes ds: "ds \<noteq> []" "is_ascii_digit (last ds)" and u: "u \<in> set duration_units"
  shows "fst (duration_split (ds @ fst u)) = ds \<and> unat (snd (duration_split (ds @ fst u))) = snd u"
proof -
  have single: "\<not> ends_with (ds @ [c]) [0x6D, 0x73]" for c
    using ends_with_snoc [of ds c "0x6D" "0x73"] ds not_digit by auto
  have bare: "\<not> ends_with ds [0x6D, 0x73]"
    using ends_with_snoc [of "butlast ds" "last ds" "0x6D" "0x73"] ds not_digit by auto
  have "last ds \<noteq> 0x73" "last ds \<noteq> 0x6D" "last ds \<noteq> 0x68" "last ds \<noteq> 0x64"
    using ds(2) not_digit by auto
  then show ?thesis
    using u single bare ends_with_append [of ds "[0x6D, 0x73]"]
    by (auto simp: duration_units_def duration_split_def lit_units)
qed

lemma parse_duration_denotes: "parse_duration_ms s = Some v \<longleftrightarrow> denotes duration_units s (unat v)"
proof (cases "s = []")
  case True
  then show ?thesis
    by (simp add: parse_duration_split denotes_def parse_magnitude_def)
next
  case False
  obtain u where u: "u \<in> set duration_units" "s = fst (duration_split s) @ fst u"
      "unat (snd (duration_split s)) = snd u" "0 < snd u"
    using duration_split_unit [OF False] by blast
  have "parse_duration_ms s = Some v \<longleftrightarrow> (\<exists>n. parse_magnitude (fst (duration_split s)) = Some n \<and> unat v = n * snd u)"
    using scaled_value [of "snd (duration_split s)" "fst (duration_split s)" v] u(3,4) False
    by (simp add: parse_duration_split)
  also have "\<dots> \<longleftrightarrow> denotes duration_units s (unat v)"
  proof
    assume "\<exists>n. parse_magnitude (fst (duration_split s)) = Some n \<and> unat v = n * snd u"
    with u show "denotes duration_units s (unat v)"
      unfolding denotes_def by blast
  next
    assume "denotes duration_units s (unat v)"
    then obtain ds n u' where d: "u' \<in> set duration_units" "s = ds @ fst u'" "parse_magnitude ds = Some n" "unat v = n * snd u'"
      unfolding denotes_def by blast
    then have "fst (duration_split s) = ds \<and> snd u = snd u'"
      using duration_split_suffix [of ds u'] magnitude_last [OF d(3)] u(3) by simp
    with d show "\<exists>n. parse_magnitude (fst (duration_split s)) = Some n \<and> unat v = n * snd u"
      by simp
  qed
  finally show ?thesis .
qed

text \<open>The same for sizes.\<close>

definition size_split :: "bytes \<Rightarrow> (bytes \<times> u64) option" where
  "size_split s =
     (if is_ascii_alphabetic (last s) then map_option (Pair (butlast s)) (size_mult (last s)) else Some (s, 1))"

lemma to_lower_eq: "to_ascii_lowercase c = x \<Longrightarrow> c = x \<or> c = x - 0x20"
  by (auto simp: to_ascii_lowercase_def eq_diff_eq split: if_splits)

lemma size_mult_unit:
  assumes "size_mult c = Some m" obtains k where "([c], k) \<in> set size_units" "unat m = k" "0 < k"
proof -
  have "(c = 0x6B \<or> c = 0x4B) \<and> m = 1024 \<or> (c = 0x6D \<or> c = 0x4D) \<and> m = 1024 * 1024 \<or>
      (c = 0x67 \<or> c = 0x47) \<and> m = 1024 * 1024 * 1024"
    using assms to_lower_eq [of c "0x6B"] to_lower_eq [of c "0x6D"] to_lower_eq [of c "0x67"]
    by (auto simp: size_mult_def split: if_splits)
  then have "([c], unat m) \<in> set size_units" "0 < unat m"
    by (auto simp: size_units_def lit_units)
  with that show ?thesis
    by blast
qed

lemma size_split_unit:
  assumes "s \<noteq> []" "size_split s = Some (ds, m)"
  obtains u where "u \<in> set size_units" "s = ds @ fst u" "unat m = snd u" "0 < snd u"
proof (cases "is_ascii_alphabetic (last s)")
  case True
  then have m: "size_mult (last s) = Some m" "ds = butlast s"
    using assms(2) by (auto simp: size_split_def)
  obtain k where "([last s], k) \<in> set size_units" "unat m = k" "0 < k"
    using size_mult_unit [OF m(1)] by blast
  then show ?thesis
    using that [of "([last s], k)"] m(2) assms(1) by simp
next
  case False
  then show ?thesis
    using that [of "([], 1)"] assms(2) by (simp add: size_split_def size_units_def)
qed

lemma size_letters:
  "is_ascii_alphabetic 0x6B" "is_ascii_alphabetic 0x4B" "is_ascii_alphabetic 0x6D" "is_ascii_alphabetic 0x4D"
  "is_ascii_alphabetic 0x67" "is_ascii_alphabetic 0x47"
  "size_mult 0x6B = Some 1024" "size_mult 0x4B = Some 1024" "size_mult 0x6D = Some 1048576" "size_mult 0x4D = Some 1048576"
  "size_mult 0x67 = Some 1073741824" "size_mult 0x47 = Some 1073741824"
  by (simp_all add: is_ascii_alphabetic_def size_mult_def to_ascii_lowercase_def)

lemma digit_not_alphabetic: "is_ascii_digit c \<Longrightarrow> \<not> is_ascii_alphabetic c"
  using order_trans [of "0x41" c "0x39"] order_trans [of "0x61" c "0x39"]
  by (simp add: is_ascii_digit_def is_ascii_alphabetic_def) blast

lemma size_split_suffix:
  assumes ds: "ds \<noteq> []" "is_ascii_digit (last ds)" and u: "u \<in> set size_units"
  obtains m where "size_split (ds @ fst u) = Some (ds, m)" "unat m = snd u"
proof -
  have "\<exists>m. size_split (ds @ fst u) = Some (ds, m) \<and> unat m = snd u"
    using u digit_not_alphabetic [OF ds(2)] by (auto simp: size_units_def lit_units size_split_def size_letters)
  with that show ?thesis
    by blast
qed

lemma parse_size_split:
  "parse_size_bytes s = (if s = [] then None else case size_split s of None \<Rightarrow> None | Some (ds, m) \<Rightarrow>
     Option.bind (parse_u64_ascii ds) (\<lambda>n. checked_mul n m))"
  unfolding parse_size_bytes_def size_split_def by (rule refl)

lemma parse_size_denotes: "parse_size_bytes s = Some v \<longleftrightarrow> denotes size_units s (unat v)"
proof
  assume ok: "parse_size_bytes s = Some v"
  then obtain ds m where split: "s \<noteq> []" "size_split s = Some (ds, m)"
    by (auto simp: parse_size_split split: if_splits option.splits)
  obtain u where u: "u \<in> set size_units" "s = ds @ fst u" "unat m = snd u" "0 < snd u"
    using size_split_unit [OF split] by blast
  have "\<exists>n. parse_magnitude ds = Some n \<and> unat v = n * unat m"
    using ok split u(3,4) scaled_value [of m ds v] by (simp add: parse_size_split)
  with u show "denotes size_units s (unat v)"
    unfolding denotes_def by metis
next
  assume "denotes size_units s (unat v)"
  then obtain ds n u where d: "u \<in> set size_units" "s = ds @ fst u" "parse_magnitude ds = Some n" "unat v = n * snd u"
    unfolding denotes_def by blast
  obtain m where m: "size_split s = Some (ds, m)" "unat m = snd u"
    using size_split_suffix [OF _ _ d(1)] magnitude_last [OF d(3)] d(2) by metis
  have "0 < snd u"
    using d(1) by (auto simp: size_units_def)
  with m d show "parse_size_bytes s = Some v"
    using scaled_value [of m ds v] magnitude_last [OF d(3)] by (simp add: parse_size_split)
qed

section \<open>Property\<close>

text \<open>
  C25. Durations and sizes are read exactly or refused: the parser of durations accepts a value exactly when
  the text is a decimal number followed by \<open>ms\<close>, \<open>s\<close>, \<open>m\<close>, \<open>h\<close>, \<open>d\<close> or nothing (seconds) and the product fits
  64 bits, and that product is its result; the parser of sizes does the same with \<open>k\<close>, \<open>m\<close>, \<open>g\<close> in either case
  or nothing.
\<close>

theorem config_values_exact:
  "(parse_duration_ms s = Some v \<longleftrightarrow> denotes duration_units s (unat v)) \<and>
   (parse_size_bytes s = Some n \<longleftrightarrow> denotes size_units s (unat n))"
  using parse_duration_denotes parse_size_denotes by blast

end
