(* ===== verification/Otel_Data_Model.thy ===== *)
theory Otel_Data_Model
  imports Complex_Main Otel_Prelude
begin

text \<open>
  The internal data model of \<^verbatim>\<open>src/src/data_model/mod.rs\<close> and the severity mapping of
  \<^verbatim>\<open>src/src/logs/severity.rs\<close>. Strings are their UTF-8 bytes, \<open>i64\<close> values are 64-bit words, and
  an \<open>f64\<close> is the exact rational number the code computes before rounding.
\<close>

section \<open>Values, resources and scopes\<close>

type_synonym f64 = rat

datatype AnyValue =
    StringV rust_string
  | BoolV bool
  | IntV i64
  | DoubleV f64
  | BytesV bytes
  | ArrayV "AnyValue list"

record KeyValue =
  kv_key :: rust_string
  kv_value :: AnyValue

definition KV :: "string \<Rightarrow> AnyValue \<Rightarrow> KeyValue" where
  "KV k v = \<lparr>kv_key = lit k, kv_value = v\<rparr>"

record Resource =
  res_attributes :: "KeyValue list"

record Scope =
  scope_name :: rust_string
  scope_version :: rust_string

section \<open>Metrics\<close>

datatype AggregationTemporality = Temporality_Unspecified | Delta | Cumulative

datatype NumberValue = AsInt i64 | AsDouble f64

record NumberDataPoint =
  ndp_attributes :: "KeyValue list"
  ndp_start_time_unix_nano :: u64
  ndp_time_unix_nano :: u64
  ndp_value :: NumberValue

record HistogramDataPoint =
  hdp_attributes :: "KeyValue list"
  hdp_start_time_unix_nano :: u64
  hdp_time_unix_nano :: u64
  hdp_count :: u64
  hdp_sum :: f64
  hdp_bucket_counts :: "u64 list"
  hdp_explicit_bounds :: "f64 list"

record Exemplar =
  ex_value :: f64
  ex_time_unix_nano :: u64
  ex_trace_id :: bytes
  ex_span_id :: bytes
  ex_has_trace :: bool
  ex_filtered_attributes :: "KeyValue list"

record ExponentialHistogramDataPoint =
  edp_attributes :: "KeyValue list"
  edp_start_time_unix_nano :: u64
  edp_time_unix_nano :: u64
  edp_count :: u64
  edp_sum :: f64
  edp_scale :: int
  edp_zero_count :: u64
  edp_positive_offset :: int
  edp_positive_bucket_counts :: "u64 list"
  edp_exemplars :: "Exemplar list"

datatype MetricData =
    HistogramD AggregationTemporality "HistogramDataPoint list"
  | ExponentialHistogramD AggregationTemporality "ExponentialHistogramDataPoint list"
  | SumD AggregationTemporality bool "NumberDataPoint list"
  | GaugeD "NumberDataPoint list"

record Metric =
  metric_name :: rust_string
  metric_description :: rust_string
  metric_unit :: rust_string
  metric_data :: MetricData

record Batch =
  batch_resource :: Resource
  batch_scope :: Scope
  batch_metrics :: "Metric list"

section \<open>Logs\<close>

datatype SeverityNumber =
    Sev_Unspecified
  | Sev_Trace
  | Sev_Trace2
  | Sev_Trace3
  | Sev_Trace4
  | Sev_Debug
  | Sev_Debug2
  | Sev_Debug3
  | Sev_Debug4
  | Sev_Info
  | Sev_Info2
  | Sev_Info3
  | Sev_Info4
  | Sev_Warn
  | Sev_Warn2
  | Sev_Warn3
  | Sev_Warn4
  | Sev_Error
  | Sev_Error2
  | Sev_Error3
  | Sev_Error4
  | Sev_Fatal
  | Sev_Fatal2
  | Sev_Fatal3
  | Sev_Fatal4

primrec severity_i32 :: "SeverityNumber \<Rightarrow> int" where
  "severity_i32 Sev_Unspecified = 0"
| "severity_i32 Sev_Trace = 1"
| "severity_i32 Sev_Trace2 = 2"
| "severity_i32 Sev_Trace3 = 3"
| "severity_i32 Sev_Trace4 = 4"
| "severity_i32 Sev_Debug = 5"
| "severity_i32 Sev_Debug2 = 6"
| "severity_i32 Sev_Debug3 = 7"
| "severity_i32 Sev_Debug4 = 8"
| "severity_i32 Sev_Info = 9"
| "severity_i32 Sev_Info2 = 10"
| "severity_i32 Sev_Info3 = 11"
| "severity_i32 Sev_Info4 = 12"
| "severity_i32 Sev_Warn = 13"
| "severity_i32 Sev_Warn2 = 14"
| "severity_i32 Sev_Warn3 = 15"
| "severity_i32 Sev_Warn4 = 16"
| "severity_i32 Sev_Error = 17"
| "severity_i32 Sev_Error2 = 18"
| "severity_i32 Sev_Error3 = 19"
| "severity_i32 Sev_Error4 = 20"
| "severity_i32 Sev_Fatal = 21"
| "severity_i32 Sev_Fatal2 = 22"
| "severity_i32 Sev_Fatal3 = 23"
| "severity_i32 Sev_Fatal4 = 24"

record LogRecord =
  lr_time_unix_nano :: u64
  lr_observed_time_unix_nano :: u64
  lr_severity_number :: SeverityNumber
  lr_severity_text :: rust_string
  lr_body :: AnyValue
  lr_attributes :: "KeyValue list"
  lr_event_name :: rust_string
  lr_trace_id :: bytes
  lr_span_id :: bytes

record LogsBatch =
  logs_resource :: Resource
  logs_scope :: Scope
  logs_logs :: "LogRecord list"

text \<open>\<open>nginx_to_otel\<close>: nginx level to OpenTelemetry severity number and text.\<close>

definition nginx_to_otel :: "u32 \<Rightarrow> SeverityNumber \<times> rust_string" where
  "nginx_to_otel ngx_level =
     (if ngx_level = 1 then (Sev_Fatal4, lit ''emerg'')
      else if ngx_level = 2 then (Sev_Fatal2, lit ''alert'')
      else if ngx_level = 3 then (Sev_Fatal, lit ''crit'')
      else if ngx_level = 4 then (Sev_Error, lit ''error'')
      else if ngx_level = 5 then (Sev_Warn, lit ''warn'')
      else if ngx_level = 6 then (Sev_Info2, lit ''notice'')
      else if ngx_level = 7 then (Sev_Info, lit ''info'')
      else if ngx_level = 8 then (Sev_Debug, lit ''debug'')
      else (Sev_Unspecified, []))"

section \<open>Traces\<close>

datatype SpanKind = Kind_Unspecified | Internal | Server | Client | Producer | Consumer

datatype StatusCode = Unset | Status_Ok | Status_Error

record SpanStatus =
  status_code :: StatusCode
  status_message :: rust_string

record SpanEvent =
  event_time_unix_nano :: u64
  event_name :: rust_string
  event_attributes :: "KeyValue list"

record SpanLink =
  link_trace_id :: bytes
  link_span_id :: bytes
  link_flags :: u32
  link_attributes :: "KeyValue list"

record Span =
  span_trace_id :: bytes
  span_span_id :: bytes
  span_parent_span_id :: bytes
  span_flags :: u32
  span_name :: rust_string
  span_kind :: SpanKind
  span_start_time_unix_nano :: u64
  span_end_time_unix_nano :: u64
  span_attributes :: "KeyValue list"
  span_events :: "SpanEvent list"
  span_links :: "SpanLink list"
  span_status :: SpanStatus

record SpansBatch =
  spans_resource :: Resource
  spans_scope :: Scope
  spans_spans :: "Span list"

text \<open>\<open>Pdata\<close>: the unified pipeline payload.\<close>

datatype Pdata = PMetrics Batch | PLogs LogsBatch | PSpans SpansBatch

section \<open>Severity order\<close>

text \<open>
  nginx levels are inverted: among the eight levels, a smaller level (more severe) has a strictly
  larger OpenTelemetry severity number.
\<close>

lemma ngx_level_cases:
  assumes "1 \<le> (l :: u32)" "l \<le> 8"
  shows "l \<in> {1, 2, 3, 4, 5, 6, 7, 8}"
proof -
  have "1 \<le> unat l" "unat l \<le> 8"
    using assms by (simp_all add: word_le_nat_alt)
  then show ?thesis
    by (simp add: word_unat_eq_iff) arith
qed

lemma severity_table:
  "severity_i32 (fst (nginx_to_otel 1)) = 24" "severity_i32 (fst (nginx_to_otel 2)) = 22"
  "severity_i32 (fst (nginx_to_otel 3)) = 21" "severity_i32 (fst (nginx_to_otel 4)) = 17"
  "severity_i32 (fst (nginx_to_otel 5)) = 13" "severity_i32 (fst (nginx_to_otel 6)) = 10"
  "severity_i32 (fst (nginx_to_otel 7)) = 9" "severity_i32 (fst (nginx_to_otel 8)) = 5"
  by (simp_all add: nginx_to_otel_def)

lemma severity_strictly_antimono:
  assumes "1 \<le> a" "a < b" "b \<le> 8"
  shows "severity_i32 (fst (nginx_to_otel b)) < severity_i32 (fst (nginx_to_otel a))"
proof -
  have "a \<in> {1, 2, 3, 4, 5, 6, 7, 8}" "b \<in> {1, 2, 3, 4, 5, 6, 7, 8}"
    using assms by (intro ngx_level_cases; simp)+
  with assms(2) show ?thesis
    by (elim insertE emptyE; simp add: severity_table)
qed

end
