(* ===== verification/Utf8_Lossy.thy ===== *)
theory Utf8_Lossy
  imports Otel_Prelude
begin

text \<open>
  \<open>String::from_utf8_lossy\<close> of the standard library, which the record parsers call on every byte
  field: well-formed characters are kept and each maximal ill-formed prefix becomes U+FFFD. The
  lemmas show that the result is always well-formed UTF-8 and that well-formed input (plain ASCII
  in particular) is returned unchanged.
\<close>

section \<open>Decoder\<close>

definition utf8_char_width :: "u8 \<Rightarrow> nat" where
  "utf8_char_width b =
     (if b < 0x80 then 1
      else if 0xC2 \<le> b \<and> b \<le> 0xDF then 2
      else if 0xE0 \<le> b \<and> b \<le> 0xEF then 3
      else if 0xF0 \<le> b \<and> b \<le> 0xF4 then 4
      else 0)"

definition utf8_cont :: "u8 \<Rightarrow> bool" where
  "utf8_cont b \<longleftrightarrow> 0x80 \<le> b \<and> b \<le> 0xBF"

text \<open>Which second bytes a lead byte of a three- or four-byte character allows.\<close>

definition utf8_second :: "u8 \<Rightarrow> u8 \<Rightarrow> bool" where
  "utf8_second b c \<longleftrightarrow>
     (if b = 0xE0 then 0xA0 \<le> c \<and> c \<le> 0xBF
      else if b = 0xED then 0x80 \<le> c \<and> c \<le> 0x9F
      else if b = 0xF0 then 0x90 \<le> c \<and> c \<le> 0xBF
      else if b = 0xF4 then 0x80 \<le> c \<and> c \<le> 0x8F
      else utf8_cont c)"

text \<open>
  The position \<open>i\<close> past the end reads as byte \<open>0\<close>, which continues no character.
\<close>

definition safe_get :: "bytes \<Rightarrow> nat \<Rightarrow> u8" where
  "safe_get bs i = (if i < length bs then bs ! i else 0)"

text \<open>
  One character starting with \<open>b\<close> and followed by \<open>bs\<close>: is it well-formed, and how many bytes of
  \<open>bs\<close> belong to it (or to the ill-formed prefix)?
\<close>

definition utf8_step :: "u8 \<Rightarrow> bytes \<Rightarrow> bool \<times> nat" where
  "utf8_step b bs =
     (let w = utf8_char_width b
      in if w = 1 then (True, 0)
         else if w = 2 then (if utf8_cont (safe_get bs 0) then (True, 1) else (False, 0))
         else if w = 3 then
           (if \<not> utf8_second b (safe_get bs 0) then (False, 0)
            else if \<not> utf8_cont (safe_get bs 1) then (False, 1)
            else (True, 2))
         else if w = 4 then
           (if \<not> utf8_second b (safe_get bs 0) then (False, 0)
            else if \<not> utf8_cont (safe_get bs 1) then (False, 1)
            else if \<not> utf8_cont (safe_get bs 2) then (False, 2)
            else (True, 3))
         else (False, 0))"

definition REPLACEMENT :: bytes where
  "REPLACEMENT = [0xEF, 0xBF, 0xBD]"

function from_utf8_lossy :: "bytes \<Rightarrow> rust_string" where
  "from_utf8_lossy [] = []"
| "from_utf8_lossy (b # bs) =
     (case utf8_step b bs of
        (True, n) \<Rightarrow> b # take n bs @ from_utf8_lossy (drop n bs)
      | (False, n) \<Rightarrow> REPLACEMENT @ from_utf8_lossy (drop n bs))"
  by pat_completeness auto
termination
  by (relation "measure length") auto

function utf8_valid :: "bytes \<Rightarrow> bool" where
  "utf8_valid [] = True"
| "utf8_valid (b # bs) = (case utf8_step b bs of (ok, n) \<Rightarrow> ok \<and> utf8_valid (drop n bs))"
  by pat_completeness auto
termination
  by (relation "measure length") auto

section \<open>Well-formedness of the result\<close>

lemma safe_get_cont: "utf8_cont (safe_get bs i) \<Longrightarrow> i < length bs"
  by (auto simp: safe_get_def utf8_cont_def split: if_splits)

lemma safe_get_second: "utf8_second b (safe_get bs i) \<Longrightarrow> i < length bs"
  by (auto simp: safe_get_def utf8_second_def utf8_cont_def split: if_splits)

lemma safe_get_append: "i < length xs \<Longrightarrow> safe_get (xs @ ys) i = safe_get xs i"
  by (simp add: safe_get_def nth_append)

lemma safe_get_take: "i < n \<Longrightarrow> safe_get (take n bs) i = safe_get bs i"
  by (simp add: safe_get_def)

lemma utf8_step_length: "utf8_step b bs = (True, n) \<Longrightarrow> n \<le> length bs"
  by (auto simp: utf8_step_def Let_def Suc_le_eq split: if_splits
      dest!: safe_get_cont safe_get_second)

lemma utf8_step_prefix:
  assumes "utf8_step b bs = (True, n)"
  shows "utf8_step b (take n bs @ xs) = (True, n)"
proof -
  have "n \<le> length bs"
    using assms by (rule utf8_step_length)
  then have "safe_get (take n bs @ xs) i = safe_get bs i" if "i < n" for i
    using that by (simp add: safe_get_append safe_get_take)
  with assms show ?thesis
    by (auto simp: utf8_step_def Let_def split: if_splits)
qed

lemma utf8_valid_replacement [simp]: "utf8_valid (REPLACEMENT @ bs) = utf8_valid bs"
  by (simp add: REPLACEMENT_def utf8_step_def utf8_char_width_def utf8_second_def utf8_cont_def
      safe_get_def)

theorem from_utf8_lossy_valid: "utf8_valid (from_utf8_lossy bs)"
proof (induction bs rule: from_utf8_lossy.induct)
  case (2 b bs)
  obtain ok n where step: "utf8_step b bs = (ok, n)"
    by fastforce
  show ?case
  proof (cases ok)
    case True
    with step have "utf8_step b (take n bs @ from_utf8_lossy (drop n bs)) = (True, n)" "n \<le> length bs"
      using utf8_step_prefix utf8_step_length by auto
    with True step 2 show ?thesis
      by simp
  next
    case False
    with step 2 show ?thesis
      by (simp split: prod.splits bool.splits)
  qed
qed simp

lemma from_utf8_lossy_id: "utf8_valid bs \<Longrightarrow> from_utf8_lossy bs = bs"
  by (induction bs rule: from_utf8_lossy.induct) (auto split: prod.splits bool.splits)

lemma utf8_valid_ascii: "list_all (\<lambda>b. b < 0x80) bs \<Longrightarrow> utf8_valid bs"
  by (induction bs) (auto simp: utf8_step_def utf8_char_width_def)

lemma from_utf8_lossy_ascii: "list_all (\<lambda>b. b < 0x80) bs \<Longrightarrow> from_utf8_lossy bs = bs"
  by (simp add: from_utf8_lossy_id utf8_valid_ascii)

end
