(* ===== verification/Request_Dims.thy ===== *)
theory Request_Dims
  imports Otel_Prelude
begin

text \<open>
  The closed dimensions of the request metrics, \<^verbatim>\<open>src/src/shm/mod.rs\<close>: method, status class and
  protocol version, the index of their combination in the histogram table, and the severity classes
  of the error-rate counters.
\<close>

section \<open>Model\<close>

datatype HttpMethod = Get | Head | Post | Put | Delete | Patch | Options | Other

datatype StatusClass = S1xx | S2xx | S3xx | S4xx | S5xx

datatype ProtoVersion = Http10 | Http11 | Http2 | Http3

definition N_HTTP_METHODS :: nat where "N_HTTP_METHODS = 8"

definition N_STATUS_CLASSES :: nat where "N_STATUS_CLASSES = 5"

definition N_PROTO_VERSIONS :: nat where "N_PROTO_VERSIONS = 4"

definition N_COMBOS :: nat where "N_COMBOS = N_HTTP_METHODS * N_STATUS_CLASSES * N_PROTO_VERSIONS"

definition ROUTE_CAP :: nat where "ROUTE_CAP = 64"

definition N_ROUTE_SLOTS :: nat where "N_ROUTE_SLOTS = ROUTE_CAP + 1"

definition UPSTREAM_CAP :: nat where "UPSTREAM_CAP = 32"

definition N_UPSTREAM_SLOTS :: nat where "N_UPSTREAM_SLOTS = UPSTREAM_CAP + 1"

text \<open>The \<open>repr(u8)\<close> casts.\<close>

primrec method_index :: "HttpMethod \<Rightarrow> nat" where
  "method_index Get = 0" | "method_index Head = 1" | "method_index Post = 2"
| "method_index Put = 3" | "method_index Delete = 4" | "method_index Patch = 5"
| "method_index Options = 6" | "method_index Other = 7"

primrec status_class_index :: "StatusClass \<Rightarrow> nat" where
  "status_class_index S1xx = 0" | "status_class_index S2xx = 1" | "status_class_index S3xx = 2"
| "status_class_index S4xx = 3" | "status_class_index S5xx = 4"

primrec proto_index :: "ProtoVersion \<Rightarrow> nat" where
  "proto_index Http10 = 0" | "proto_index Http11 = 1" | "proto_index Http2 = 2" | "proto_index Http3 = 3"

definition method_from_bytes :: "bytes \<Rightarrow> HttpMethod" where
  "method_from_bytes m =
     (if m = lit ''GET'' then Get
      else if m = lit ''HEAD'' then Head
      else if m = lit ''POST'' then Post
      else if m = lit ''PUT'' then Put
      else if m = lit ''DELETE'' then Delete
      else if m = lit ''PATCH'' then Patch
      else if m = lit ''OPTIONS'' then Options
      else Other)"

definition method_from_index :: "nat \<Rightarrow> HttpMethod" where
  "method_from_index idx =
     (if idx = 0 then Get else if idx = 1 then Head else if idx = 2 then Post else if idx = 3 then Put
      else if idx = 4 then Delete else if idx = 5 then Patch else if idx = 6 then Options else Other)"

primrec method_as_str :: "HttpMethod \<Rightarrow> rust_string" where
  "method_as_str Get = lit ''GET''" | "method_as_str Head = lit ''HEAD''"
| "method_as_str Post = lit ''POST''" | "method_as_str Put = lit ''PUT''"
| "method_as_str Delete = lit ''DELETE''" | "method_as_str Patch = lit ''PATCH''"
| "method_as_str Options = lit ''OPTIONS''" | "method_as_str Other = lit ''_OTHER''"

definition class_from_status :: "u16 \<Rightarrow> StatusClass" where
  "class_from_status status =
     (if 100 \<le> status \<and> status \<le> 199 then S1xx
      else if 200 \<le> status \<and> status \<le> 299 then S2xx
      else if 300 \<le> status \<and> status \<le> 399 then S3xx
      else if 400 \<le> status \<and> status \<le> 499 then S4xx
      else S5xx)"

definition class_from_index :: "nat \<Rightarrow> StatusClass" where
  "class_from_index idx =
     (if idx = 0 then S1xx else if idx = 1 then S2xx else if idx = 2 then S3xx
      else if idx = 3 then S4xx else S5xx)"

primrec representative_status :: "StatusClass \<Rightarrow> i64" where
  "representative_status S1xx = 100" | "representative_status S2xx = 200"
| "representative_status S3xx = 300" | "representative_status S4xx = 400"
| "representative_status S5xx = 500"

primrec class_as_str :: "StatusClass \<Rightarrow> rust_string" where
  "class_as_str S1xx = lit ''1xx''" | "class_as_str S2xx = lit ''2xx''" | "class_as_str S3xx = lit ''3xx''"
| "class_as_str S4xx = lit ''4xx''" | "class_as_str S5xx = lit ''5xx''"

definition proto_from_ngx :: "u32 \<Rightarrow> ProtoVersion" where
  "proto_from_ngx http_version =
     (if http_version = 1000 then Http10
      else if http_version = 1001 then Http11
      else if http_version = 2000 then Http2
      else if http_version = 3000 then Http3
      else Http11)"

definition proto_from_index :: "nat \<Rightarrow> ProtoVersion" where
  "proto_from_index idx =
     (if idx = 0 then Http10 else if idx = 1 then Http11 else if idx = 2 then Http2 else Http3)"

primrec proto_as_str :: "ProtoVersion \<Rightarrow> rust_string" where
  "proto_as_str Http10 = lit ''1.0''" | "proto_as_str Http11 = lit ''1.1''"
| "proto_as_str Http2 = lit ''2''" | "proto_as_str Http3 = lit ''3''"

definition combo_index :: "HttpMethod \<Rightarrow> StatusClass \<Rightarrow> ProtoVersion \<Rightarrow> nat" where
  "combo_index m c p =
     method_index m * N_STATUS_CLASSES * N_PROTO_VERSIONS + status_class_index c * N_PROTO_VERSIONS
     + proto_index p"

definition N_SEVERITY_CLASSES :: nat where "N_SEVERITY_CLASSES = 5"

definition SEVERITY_CLASS_NAMES :: "rust_string list" where
  "SEVERITY_CLASS_NAMES = [lit ''fatal'', lit ''error'', lit ''warn'', lit ''info'', lit ''debug'']"

definition severity_class_index :: "u8 \<Rightarrow> nat" where
  "severity_class_index ngx_level =
     (if 1 \<le> ngx_level \<and> ngx_level \<le> 3 then 0
      else if ngx_level = 4 then 1
      else if ngx_level = 5 then 2
      else if ngx_level = 6 \<or> ngx_level = 7 then 3
      else if ngx_level = 8 then 4
      else 0)"

section \<open>Index laws\<close>

lemmas dim_sizes = N_HTTP_METHODS_def N_STATUS_CLASSES_def N_PROTO_VERSIONS_def N_COMBOS_def

lemma method_from_index_inverse [simp]: "method_from_index (method_index m) = m"
  by (cases m) (simp_all add: method_from_index_def)

lemma class_from_index_inverse [simp]: "class_from_index (status_class_index c) = c"
  by (cases c) (simp_all add: class_from_index_def)

lemma proto_from_index_inverse [simp]: "proto_from_index (proto_index p) = p"
  by (cases p) (simp_all add: proto_from_index_def)

lemma method_index_less: "method_index m < 8"
  by (cases m) simp_all

lemma status_class_index_less: "status_class_index c < 5"
  by (cases c) simp_all

lemma proto_index_less: "proto_index p < 4"
  by (cases p) simp_all

lemma severity_class_index_less: "severity_class_index l < N_SEVERITY_CLASSES"
  by (simp add: severity_class_index_def N_SEVERITY_CLASSES_def)

lemma method_bytes_roundtrip: "m \<noteq> Other \<Longrightarrow> method_from_bytes (method_as_str m) = m"
  by (cases m) (simp_all add: method_from_bytes_def lit_def)

text \<open>
  The combination index is a bijection between the method, status-class and protocol triples and
  the 160 slots of the table: every index is in range, and dividing it back (as the collector's
  loops do) recovers the triple, so no two combinations share a histogram.
\<close>

lemma combo_index_bijective:
  "combo_index m c p < N_COMBOS \<and>
   method_from_index (combo_index m c p div (N_STATUS_CLASSES * N_PROTO_VERSIONS)) = m \<and>
   class_from_index (combo_index m c p div N_PROTO_VERSIONS mod N_STATUS_CLASSES) = c \<and>
   proto_from_index (combo_index m c p mod N_PROTO_VERSIONS) = p"
proof -
  define k where "k = status_class_index c * 4 + proto_index p"
  have less: "method_index m < 8" "status_class_index c < 5" "proto_index p < 4"
    by (rule method_index_less status_class_index_less proto_index_less)+
  have idx: "combo_index m c p = method_index m * 20 + k"
    by (simp add: combo_index_def dim_sizes k_def)
  have k: "k < 20" "k div 4 = status_class_index c" "k mod 4 = proto_index p"
    using less by (simp_all add: k_def)
  have "combo_index m c p < 160" "combo_index m c p div 20 = method_index m"
    using idx k(1) less(1) by simp_all
  moreover have "combo_index m c p = 4 * (method_index m * 5) + k"
    using idx by simp
  then have "combo_index m c p div 4 = method_index m * 5 + k div 4" "combo_index m c p mod 4 = k mod 4"
    by (simp_all only: div_mult_self3 div_mult_self4 mod_mult_self4 div_mult_self1 mod_mult_self3)
  then have "combo_index m c p div 4 mod 5 = status_class_index c" "combo_index m c p mod 4 = proto_index p"
    using k less(2) by simp_all
  ultimately show ?thesis
    by (simp add: dim_sizes)
qed

end
