(* ===== verification/Signal_Ring.thy ===== *)
theory Signal_Ring
  imports Otel_Prelude
begin

text \<open>
  The per-worker byte ring of \<^verbatim>\<open>src/src/logs/ring.rs\<close>: a header of four 64-bit counters
  followed by \<open>cap\<close> payload bytes in shared memory, written by one worker (\<open>push\<close>) and read by the
  exporter (\<open>pop_into\<close>). The theory gives the operations on the bytes, the abstract contract (a
  bounded first-in first-out queue of records, as a locale) and the proof that the ring implements
  it, for as long as the offsets do not wrap and, for a capacity that divides \<open>2 ^ 64\<close> (the default
  512 KiB does), for ever.
\<close>

section \<open>Model\<close>

text \<open>
  \<open>WorkerSignalRingHeader\<close> and the payload behind it. The atomics are plain fields: within one call
  the single producer and the single consumer each own the offset they store.
\<close>

record ring =
  write_offset :: u64
  read_offset :: u64
  dropped :: u64
  cap :: u64
  payload :: bytes

definition DEFAULT_LOG_RING_CAP :: u64 where
  "DEFAULT_LOG_RING_CAP = 512 * 1024"

definition RING_HEADER_SIZE :: nat where
  "RING_HEADER_SIZE = 4 * 8"

definition ring_size_bytes :: "nat \<Rightarrow> nat" where
  "ring_size_bytes c = RING_HEADER_SIZE + c"

text \<open>\<open>core::ptr::copy_nonoverlapping\<close> of \<open>data\<close> to \<open>base + i\<close>.\<close>

definition copy_to :: "bytes \<Rightarrow> nat \<Rightarrow> bytes \<Rightarrow> bytes" where
  "copy_to base i data = take i base @ data @ drop (i + length data) base"

definition write_wrap :: "bytes \<Rightarrow> nat \<Rightarrow> u64 \<Rightarrow> bytes \<Rightarrow> bytes" where
  "write_wrap base c offset data =
     (if data = [] then base
      else
        let start = unat offset mod c; end_space = c - start
        in if length data \<le> end_space then copy_to base start data
           else copy_to (copy_to base start (take end_space data)) 0 (drop end_space data))"

definition read_wrap :: "bytes \<Rightarrow> nat \<Rightarrow> u64 \<Rightarrow> nat \<Rightarrow> bytes" where
  "read_wrap base c offset n =
     (if n = 0 then []
      else
        let start = unat offset mod c; end_space = c - start
        in if n \<le> end_space then slice base start n
           else slice base start end_space @ slice base 0 (n - end_space))"

definition push :: "ring \<Rightarrow> bytes \<Rightarrow> ring \<times> bool" where
  "push r record =
     (if cap r = 0 then (r, False)
      else
        let c = unat (cap r); total = 4 + length record;
            write_off = write_offset r; read_off = read_offset r;
            used = unat (write_off - read_off)
        in if used + total > c then (r\<lparr>dropped := dropped r + 1\<rparr>, False)
           else
             let p1 = write_wrap (payload r) c write_off (u32_to_be_bytes (of_nat (length record)));
                 p2 = write_wrap p1 c (write_off + 4) record
             in (r\<lparr>payload := p2, write_offset := write_off + of_nat total\<rparr>, True))"

definition pop_into :: "ring \<Rightarrow> bytes \<Rightarrow> ring \<times> bytes \<times> bool" where
  "pop_into r out =
     (if cap r = 0 then (r, out, False)
      else
        let c = unat (cap r); write_off = write_offset r; read_off = read_offset r;
            available = unat (write_off - read_off)
        in if available < 4 then (r, out, False)
           else
             let record_len = unat (u32_from_be_bytes (read_wrap (payload r) c read_off 4))
             in if available < 4 + record_len then (r, out, False)
                else (r\<lparr>read_offset := read_off + 4 + of_nat record_len\<rparr>,
                      out @ read_wrap (payload r) c (read_off + 4) record_len, True))"

definition drop_count :: "ring \<Rightarrow> u64" where
  "drop_count r = dropped r"

text \<open>
  A ring as the zone-init callbacks leave it: zeroed offsets and counter, \<open>cap\<close> stored in the
  header, \<open>cap\<close> zero bytes behind it.
\<close>

definition fresh_ring :: "u64 \<Rightarrow> ring" where
  "fresh_ring c = \<lparr>write_offset = 0, read_offset = 0, dropped = 0, cap = c,
                   payload = replicate (unat c) 0\<rparr>"

section \<open>The bytes between two offsets\<close>

text \<open>
  \<open>ring_bytes p c n k\<close> is the \<open>k\<close> bytes of the payload \<open>p\<close> from the absolute offset \<open>n\<close> on, each at
  its position modulo the capacity. Absolute offsets are natural numbers here; the header stores
  them modulo \<open>2 ^ 64\<close>.
\<close>

definition ring_bytes :: "bytes \<Rightarrow> nat \<Rightarrow> nat \<Rightarrow> nat \<Rightarrow> bytes" where
  "ring_bytes p c n k = map (\<lambda>i. p ! ((n + i) mod c)) [0..<k]"

lemma length_ring_bytes [simp]: "length (ring_bytes p c n k) = k"
  by (simp add: ring_bytes_def)

lemma ring_bytes_0 [simp]: "ring_bytes p c n 0 = []"
  by (simp add: ring_bytes_def)

lemma ring_bytes_add: "ring_bytes p c n (j + k) = ring_bytes p c n j @ ring_bytes p c (n + j) k"
  by (rule nth_equalityI) (auto simp: ring_bytes_def nth_append)

lemma ring_bytes_cong:
  "(\<And>i. i < k \<Longrightarrow> p ! ((n + i) mod c) = q ! ((n + i) mod c)) \<Longrightarrow>
     ring_bytes p c n k = ring_bytes q c n k"
  by (simp add: ring_bytes_def)

text \<open>
  A stored 64-bit offset locates the same payload byte as the absolute one as long as the absolute
  offset has not passed \<open>2 ^ 64\<close>, or always when the capacity divides \<open>2 ^ 64\<close>.
\<close>

definition offset_safe :: "nat \<Rightarrow> nat \<Rightarrow> bool" where
  "offset_safe c n \<longleftrightarrow> c dvd 2 ^ 64 \<or> n < 2 ^ 64"

lemma offset_safe_mono: "offset_safe c n \<Longrightarrow> m \<le> n \<Longrightarrow> offset_safe c m"
  by (auto simp: offset_safe_def)

lemma offset_safe_mod: "offset_safe c n \<Longrightarrow> unat (of_nat n :: u64) mod c = n mod c"
  by (auto simp: offset_safe_def unat_of_nat take_bit_eq_mod mod_mod_cancel)

lemma ring_index:
  assumes "0 < c" "i < c"
  shows "((n :: nat) + i) mod c = (if i < c - n mod c then n mod c + i else n mod c + i - c)"
proof -
  define s where "s = n mod c"
  have "(n + i) mod c = (s + i) mod c"
    unfolding s_def by (simp only: mod_add_left_eq)
  moreover have "s < c"
    using assms by (simp add: s_def)
  ultimately show ?thesis
    using assms unfolding s_def [symmetric] by (auto simp: le_mod_geq)
qed

lemma read_wrap_ring_bytes:
  assumes "length p = c" "0 < c" "k \<le> c" "offset_safe c n"
  shows "read_wrap p c (of_nat n) k = ring_bytes p c n k"
proof (rule nth_equalityI)
  have m: "n mod c < c"
    using assms by simp
  show len: "length (read_wrap p c (of_nat n) k) = length (ring_bytes p c n k)"
    using assms m by (auto simp: read_wrap_def offset_safe_mod Let_def)
  fix i assume "i < length (read_wrap p c (of_nat n) k)"
  then have i: "i < k"
    using len by simp
  then have "ring_bytes p c n k ! i = p ! ((n + i) mod c)"
    by (simp add: ring_bytes_def)
  moreover have "(n + i) mod c = (if i < c - n mod c then n mod c + i else n mod c + i - c)"
    using i assms by (intro ring_index) auto
  ultimately show "read_wrap p c (of_nat n) k ! i = ring_bytes p c n k ! i"
    using i assms m by (auto simp: read_wrap_def offset_safe_mod Let_def slice_def nth_append add.commute)
qed

lemma length_copy_to [simp]:
  "i + length data \<le> length base \<Longrightarrow> length (copy_to base i data) = length base"
  by (simp add: copy_to_def)

lemma nth_copy_to:
  "i + length data \<le> length base \<Longrightarrow> j < length base \<Longrightarrow>
     copy_to base i data ! j = (if i \<le> j \<and> j < i + length data then data ! (j - i) else base ! j)"
  by (auto simp: copy_to_def nth_append)

text \<open>
  Both copies of a wrapping write stay inside the payload, and together they put \<open>data ! i\<close> at the
  position of the absolute offset \<open>n + i\<close> and change nothing else.
\<close>

lemma length_write_wrap:
  assumes "length p = c" "0 < c" "length data \<le> c"
  shows "length (write_wrap p c n data) = c"
proof -
  have "unat n mod c < c"
    using assms by simp
  with assms show ?thesis
    by (auto simp: write_wrap_def Let_def)
qed

lemma nth_write_wrap:
  assumes "length p = c" "0 < c" "length data \<le> c" "offset_safe c n" "j < c"
  shows "write_wrap p c (of_nat n) data ! j =
     (let i = (if n mod c \<le> j then j - n mod c else j + c - n mod c)
      in if i < length data then data ! i else p ! j)"
proof -
  define s where "s = n mod c"
  have s: "s < c"
    using assms by (simp add: s_def)
  have eq: "write_wrap p c (of_nat n) data =
      (if length data \<le> c - s then copy_to p s data
       else copy_to (copy_to p s (take (c - s) data)) 0 (drop (c - s) data))"
    using assms by (auto simp: write_wrap_def offset_safe_mod Let_def s_def copy_to_def)
  show ?thesis
  proof (cases "length data \<le> c - s")
    case True
    with assms s show ?thesis
      by (auto simp: eq nth_copy_to Let_def s_def [symmetric])
  next
    case False
    then have "length (copy_to p s (take (c - s) data)) = c"
      using assms s by simp
    moreover have "c - s + j = j + c - s"
      using s by simp
    ultimately show ?thesis
      using False assms s by (auto simp: eq nth_copy_to Let_def s_def [symmetric])
  qed
qed

lemma write_wrap_here:
  assumes "length p = c" "0 < c" "length data \<le> c" "offset_safe c n"
  shows "ring_bytes (write_wrap p c (of_nat n) data) c n (length data) = data"
proof (rule nth_equalityI)
  fix i assume "i < length (ring_bytes (write_wrap p c (of_nat n) data) c n (length data))"
  then have i: "i < length data" "i < c"
    using assms by auto
  moreover have "n mod c < c" "(n + i) mod c < c"
    using assms by auto
  ultimately show "ring_bytes (write_wrap p c (of_nat n) data) c n (length data) ! i = data ! i"
    using assms ring_index [of c i n]
    by (auto simp: ring_bytes_def nth_write_wrap Let_def split: if_splits)
qed simp

lemma write_wrap_elsewhere:
  assumes "length p = c" "0 < c" "length data \<le> c" "offset_safe c n"
    and "m + k \<le> n" "n + length data \<le> m + c"
  shows "ring_bytes (write_wrap p c (of_nat n) data) c m k = ring_bytes p c m k"
proof (rule ring_bytes_cong)
  fix i assume i: "i < k"
  define j where "j = (m + i) mod c"
  define d where "d = (if n mod c \<le> j then j - n mod c else j + c - n mod c)"
  have j: "j < c" "n mod c < c"
    using assms by (auto simp: j_def)
  have "(n + d) mod c = j"
    using j ring_index [of c d n] unfolding d_def by (cases "n mod c \<le> j") auto
  moreover have "(m + i) mod c \<noteq> (n + d) mod c" if "d < length data"
    using that i assms by (intro mod_window_neq) auto
  ultimately have "\<not> d < length data"
    by (auto simp: j_def)
  then show "write_wrap p c (of_nat n) data ! ((m + i) mod c) = p ! ((m + i) mod c)"
    using assms j unfolding j_def [symmetric] by (simp add: nth_write_wrap Let_def d_def)
qed

section \<open>The contract: a bounded queue of records\<close>

text \<open>
  What the producer side (\<open>LogProducer\<close>, implemented by \<open>WorkerRingProducer\<close>) and the exporter's
  drain loops rely on. \<open>queued b s q\<close> reads: the store \<open>s\<close> holds exactly the records \<open>q\<close>, oldest
  first, and accepts at least \<open>b\<close> more bytes of framed records before its offsets wrap.
\<close>

locale record_queue =
  fixes enq :: "'s \<Rightarrow> bytes \<Rightarrow> 's \<times> bool"
    and deq :: "'s \<Rightarrow> bytes \<Rightarrow> 's \<times> bytes \<times> bool"
    and queued :: "nat \<Rightarrow> 's \<Rightarrow> bytes list \<Rightarrow> bool"
    and fits :: "'s \<Rightarrow> bytes \<Rightarrow> bool"
    and lost :: "'s \<Rightarrow> u64"
  assumes queued_mono: "queued b s q \<Longrightarrow> b' \<le> b \<Longrightarrow> queued b' s q"
    and enq_fits: "queued (4 + length x + b) s q \<Longrightarrow> fits s x \<Longrightarrow>
      \<exists>s'. enq s x = (s', True) \<and> queued b s' (q @ [x]) \<and> lost s' = lost s"
    and enq_full: "queued b s q \<Longrightarrow> \<not> fits s x \<Longrightarrow>
      \<exists>s'. enq s x = (s', False) \<and> queued b s' q \<and> lost s' = lost s + 1"
    and deq_Cons: "queued b s (x # q) \<Longrightarrow>
      \<exists>s'. deq s out = (s', out @ x, True) \<and> queued b s' q \<and> lost s' = lost s"
    and deq_Nil: "queued b s [] \<Longrightarrow> deq s out = (s, out, False)"

text \<open>
  The loop every collector runs over a ring: clear the buffer, pop, process, at most \<open>n\<close> times.
\<close>

primrec drain_upto :: "('s \<Rightarrow> bytes \<Rightarrow> 's \<times> bytes \<times> bool) \<Rightarrow> nat \<Rightarrow> 's \<Rightarrow> bytes list \<times> 's" where
  "drain_upto deq 0 s = ([], s)"
| "drain_upto deq (Suc n) s =
     (case deq s [] of
        (s', buf, True) \<Rightarrow> (case drain_upto deq n s' of (bufs, s'') \<Rightarrow> (buf # bufs, s''))
      | (s', buf, False) \<Rightarrow> ([], s'))"

text \<open>
  A history of operations on one store, with what was accepted, what was popped and how many
  pushes were refused.
\<close>

datatype queue_op = Push bytes | Pop

fun run_queue ::
  "('s \<Rightarrow> bytes \<Rightarrow> 's \<times> bool) \<Rightarrow> ('s \<Rightarrow> bytes \<Rightarrow> 's \<times> bytes \<times> bool) \<Rightarrow> 's \<Rightarrow> queue_op list \<Rightarrow>
     bytes list \<times> bytes list \<times> nat \<times> 's" where
  "run_queue enq deq s [] = ([], [], 0, s)"
| "run_queue enq deq s (Push x # ops) =
     (case enq s x of (s', ok) \<Rightarrow>
        case run_queue enq deq s' ops of (acc, out, refused, s'') \<Rightarrow>
          if ok then (x # acc, out, refused, s'') else (acc, out, Suc refused, s''))"
| "run_queue enq deq s (Pop # ops) =
     (case deq s [] of (s', buf, ok) \<Rightarrow>
        case run_queue enq deq s' ops of (acc, out, refused, s'') \<Rightarrow>
          if ok then (acc, buf # out, refused, s'') else (acc, out, refused, s''))"

fun pushed_bytes :: "queue_op list \<Rightarrow> nat" where
  "pushed_bytes [] = 0"
| "pushed_bytes (Push x # ops) = 4 + length x + pushed_bytes ops"
| "pushed_bytes (Pop # ops) = pushed_bytes ops"

context record_queue
begin

lemma drain_upto_queued:
  "queued b s q \<Longrightarrow>
     \<exists>s'. drain_upto deq n s = (take n q, s') \<and> queued b s' (drop n q) \<and> lost s' = lost s"
proof (induction n arbitrary: s q)
  case (Suc n)
  show ?case
  proof (cases q)
    case Nil
    with Suc.prems show ?thesis
      using deq_Nil [of b s "[]"] by simp
  next
    case (Cons x q')
    then obtain s1 where s1: "deq s [] = (s1, x, True)" "queued b s1 q'" "lost s1 = lost s"
      using deq_Cons [of b s x q' "[]"] Suc.prems by auto
    then obtain s2 where "drain_upto deq n s1 = (take n q', s2)" "queued b s2 (drop n q')"
      "lost s2 = lost s1"
      using Suc.IH by blast
    with s1 Cons show ?thesis
      by simp
  qed
qed simp

lemma run_queue_fifo:
  "queued (b + pushed_bytes ops) s q \<Longrightarrow> run_queue enq deq s ops = (acc, out, refused, s') \<Longrightarrow>
     \<exists>left. q @ acc = out @ left \<and> queued b s' left \<and> lost s' = lost s + of_nat refused"
proof (induction ops arbitrary: s q acc out refused)
  case Nil
  then show ?case by simp
next
  case (Cons op ops)
  show ?case
  proof (cases op)
    case (Push x)
    show ?thesis
    proof (cases "fits s x")
      case True
      with Cons.prems Push obtain s1 where s1: "enq s x = (s1, True)"
        "queued (b + pushed_bytes ops) s1 (q @ [x])" "lost s1 = lost s"
        using enq_fits [of x "b + pushed_bytes ops" s q] by (auto simp: ac_simps)
      with Cons.prems Push obtain acc1 where "acc = x # acc1"
        "run_queue enq deq s1 ops = (acc1, out, refused, s')"
        by (auto split: prod.splits)
      with Cons.IH [OF s1(2)] s1(3) show ?thesis
        by fastforce
    next
      case False
      have "queued (b + pushed_bytes ops) s q"
        using Cons.prems(1) Push by (auto intro: queued_mono)
      with False obtain s1 where s1: "enq s x = (s1, False)"
        "queued (b + pushed_bytes ops) s1 q" "lost s1 = lost s + 1"
        using enq_full [of "b + pushed_bytes ops" s q x] by auto
      with Cons.prems Push obtain refused1 where "refused = Suc refused1"
        "run_queue enq deq s1 ops = (acc, out, refused1, s')"
        by (auto split: prod.splits)
      with Cons.IH [OF s1(2)] s1(3) show ?thesis
        by fastforce
    qed
  next
    case Pop
    show ?thesis
    proof (cases q)
      case Nil
      then have "deq s [] = (s, [], False)"
        using deq_Nil [of _ s "[]"] Cons.prems(1) by blast
      with Cons.prems Pop Cons.IH [of s q] show ?thesis
        by (auto split: prod.splits)
    next
      case (Cons x q')
      with \<open>queued (b + pushed_bytes (op # ops)) s q\<close> Pop obtain s1 where
        s1: "deq s [] = (s1, x, True)" "queued (b + pushed_bytes ops) s1 q'" "lost s1 = lost s"
        using deq_Cons [of "b + pushed_bytes ops" s x q' "[]"] by auto
      with \<open>run_queue enq deq s (op # ops) = (acc, out, refused, s')\<close> Pop obtain out1 where
        "out = x # out1" "run_queue enq deq s1 ops = (acc, out1, refused, s')"
        by (auto split: prod.splits)
      with Cons.IH [OF s1(2)] s1(3) Cons show ?thesis
        by fastforce
    qed
  qed
qed

end

section \<open>The ring implements the contract\<close>

definition frame :: "bytes \<Rightarrow> bytes" where
  "frame x = u32_to_be_bytes (of_nat (length x)) @ x"

lemma length_frame [simp]: "length (frame x) = 4 + length x"
  by (simp add: frame_def)

text \<open>
  \<open>ring_at w rd b r q\<close>: with absolute offsets \<open>w\<close> (write) and \<open>rd\<close> (read), the bytes between them
  are the frames of the records \<open>q\<close>.
\<close>

definition ring_at :: "nat \<Rightarrow> nat \<Rightarrow> nat \<Rightarrow> ring \<Rightarrow> bytes list \<Rightarrow> bool" where
  "ring_at w rd b r q \<longleftrightarrow>
     (let c = unat (cap r)
      in 0 < c \<and> c \<le> 2 ^ 32 \<and> length (payload r) = c \<and> rd \<le> w \<and> w \<le> rd + c \<and>
         offset_safe c (w + b) \<and> write_offset r = of_nat w \<and> read_offset r = of_nat rd \<and>
         ring_bytes (payload r) c rd (w - rd) = concat (map frame q))"

definition ring_queued :: "nat \<Rightarrow> ring \<Rightarrow> bytes list \<Rightarrow> bool" where
  "ring_queued b r q \<longleftrightarrow> (\<exists>w rd. ring_at w rd b r q)"

definition ring_fits :: "ring \<Rightarrow> bytes \<Rightarrow> bool" where
  "ring_fits r x \<longleftrightarrow> unat (write_offset r - read_offset r) + (4 + length x) \<le> unat (cap r)"

lemma unat_of_nat_diff:
  assumes "rd \<le> w" "w - rd < 2 ^ 64"
  shows "unat (of_nat w - of_nat rd :: u64) = w - rd"
proof -
  have "(of_nat w - of_nat rd :: u64) = of_nat (w - rd)"
    using assms(1) by (simp add: of_nat_diff)
  then show ?thesis
    using assms(2) by (simp add: unat_of_nat take_bit_eq_mod)
qed

lemma ring_at_used:
  assumes "ring_at w rd b r q"
  shows "unat (write_offset r - read_offset r) = w - rd"
proof -
  have "rd \<le> w" "w - rd \<le> unat (cap r)"
    using assms by (auto simp: ring_at_def Let_def)
  moreover have "unat (cap r) < 2 ^ 64"
    using unsigned_less [of "cap r"] by simp
  ultimately have "unat (of_nat w - of_nat rd :: u64) = w - rd"
    by (intro unat_of_nat_diff) auto
  then show ?thesis
    using assms by (simp add: ring_at_def Let_def)
qed

lemma ring_at_length:
  assumes "ring_at w rd b r q"
  shows "sum_list (map (\<lambda>x. 4 + length x) q) = w - rd"
proof -
  have "length (concat (map frame q)) = w - rd"
    using assms by (metis length_ring_bytes ring_at_def)
  then show ?thesis
    by (simp add: length_concat comp_def)
qed

lemma push_two_writes:
  assumes "length p = c" "0 < c" "rd \<le> w" "w + 4 + length x \<le> rd + c" "offset_safe c (w + 4 + length x)"
    and "p1 = write_wrap p c (of_nat w) (u32_to_be_bytes (of_nat (length x)))"
    and "p2 = write_wrap p1 c (of_nat (w + 4)) x"
  shows "length p2 = c"
    and "ring_bytes p2 c rd (w + (4 + length x) - rd) = ring_bytes p c rd (w - rd) @ frame x"
proof -
  let ?l = "u32_to_be_bytes (of_nat (length x))"
  have safe: "offset_safe c w" "offset_safe c (w + 4)"
    using assms(5) offset_safe_mono by auto
  have p1: "length p1 = c"
    using assms(1-4) unfolding assms(6) by (intro length_write_wrap) auto
  show "length p2 = c"
    using assms(2-4) p1 unfolding assms(7) by (intro length_write_wrap) auto
  have keep: "ring_bytes p2 c m k = ring_bytes p1 c m k" if "rd \<le> m" "m + k \<le> w + 4" for m k
    unfolding assms(7) by (rule write_wrap_elsewhere) (use that assms(2-4) p1 safe in auto)
  have old: "ring_bytes p1 c rd (w - rd) = ring_bytes p c rd (w - rd)"
    unfolding assms(6) by (rule write_wrap_elsewhere) (use assms(1-4) safe in auto)
  have len: "ring_bytes p1 c w 4 = ?l"
    using write_wrap_here [of p c ?l w] assms(1-4) safe unfolding assms(6) by auto
  have body: "ring_bytes p2 c (w + 4) (length x) = x"
    unfolding assms(7) by (rule write_wrap_here) (use assms(2-4) p1 safe in auto)
  have "ring_bytes p2 c rd (w + (4 + length x) - rd) = ring_bytes p2 c rd ((w - rd) + (4 + length x))"
    using assms(3) by simp
  also have "\<dots> = ring_bytes p2 c rd (w - rd) @ ring_bytes p2 c w 4 @ ring_bytes p2 c (w + 4) (length x)"
    unfolding ring_bytes_add using assms(3) by simp
  finally show "ring_bytes p2 c rd (w + (4 + length x) - rd) = ring_bytes p c rd (w - rd) @ frame x"
    using keep [of rd "w - rd"] keep [of w 4] assms(3) by (simp add: frame_def old len body)
qed

lemma ring_push_fits:
  assumes "ring_at w rd (4 + length x + b) r q" "ring_fits r x"
  shows "\<exists>r'. push r x = (r', True) \<and> ring_at (w + (4 + length x)) rd b r' (q @ [x]) \<and>
           dropped r' = dropped r"
proof -
  define c where "c = unat (cap r)"
  define p1 where "p1 = write_wrap (payload r) c (of_nat w) (u32_to_be_bytes (of_nat (length x)))"
  define p2 where "p2 = write_wrap p1 c (of_nat (w + 4)) x"
  define r' where "r' = r\<lparr>payload := p2, write_offset := of_nat (w + (4 + length x))\<rparr>"
  have wf: "length (payload r) = c" "0 < c" "rd \<le> w" "offset_safe c (w + (4 + length x + b))"
    "write_offset r = of_nat w" "read_offset r = of_nat rd"
    "ring_bytes (payload r) c rd (w - rd) = concat (map frame q)" "c \<le> 2 ^ 32"
    using assms(1) by (simp_all add: ring_at_def Let_def c_def)
  have used: "unat (write_offset r - read_offset r) = w - rd"
    using ring_at_used [OF assms(1)] .
  have fit: "w + 4 + length x \<le> rd + c"
    using assms(2) used wf(3) by (simp add: ring_fits_def c_def)
  have safe: "offset_safe c (w + 4 + length x)"
    using wf(4) by (rule offset_safe_mono) simp
  note two = push_two_writes [OF wf(1-3) fit safe p1_def p2_def]
  have "cap r \<noteq> 0" "\<not> w - rd + (4 + length x) > c"
    using wf(2,3) fit by (auto simp: c_def)
  then have "push r x = (r', True)"
    unfolding push_def used Let_def c_def [symmetric] r'_def
    by (simp add: wf p2_def p1_def add.assoc add.commute)
  moreover have "ring_at (w + (4 + length x)) rd b r' (q @ [x])"
    unfolding ring_at_def Let_def
    using wf two fit by (simp add: r'_def c_def [symmetric] ac_simps)
  ultimately show ?thesis
    by (simp add: r'_def)
qed

lemma ring_push_full:
  assumes "ring_at w rd b r q" "\<not> ring_fits r x"
  shows "push r x = (r\<lparr>dropped := dropped r + 1\<rparr>, False)"
    and "ring_at w rd b (r\<lparr>dropped := dropped r + 1\<rparr>) q"
proof -
  have "cap r \<noteq> 0"
    using assms(1) by (auto simp: ring_at_def Let_def)
  then show "push r x = (r\<lparr>dropped := dropped r + 1\<rparr>, False)"
    using assms(2) by (simp add: push_def Let_def ring_fits_def)
  show "ring_at w rd b (r\<lparr>dropped := dropped r + 1\<rparr>) q"
    using assms(1) by (simp add: ring_at_def)
qed

lemma ring_pop_Nil:
  assumes "ring_at w rd b r []"
  shows "pop_into r out = (r, out, False)"
proof -
  have "w - rd = 0"
    using ring_at_length [OF assms] by simp
  with ring_at_used [OF assms] show ?thesis
    by (simp add: pop_into_def Let_def)
qed

lemma ring_pop_Cons:
  assumes "ring_at w rd b r (x # q)"
  shows "\<exists>r'. pop_into r out = (r', out @ x, True) \<and> ring_at w (rd + (4 + length x)) b r' q \<and>
           dropped r' = dropped r"
proof -
  define c where "c = unat (cap r)"
  define r' where "r' = r\<lparr>read_offset := of_nat (rd + (4 + length x))\<rparr>"
  have wf: "length (payload r) = c" "0 < c" "rd \<le> w" "w \<le> rd + c" "offset_safe c (w + b)"
    "write_offset r = of_nat w" "read_offset r = of_nat rd" "c \<le> 2 ^ 32"
    and bytes: "ring_bytes (payload r) c rd (w - rd) = frame x @ concat (map frame q)"
    using assms by (simp_all add: ring_at_def Let_def c_def)
  have used: "unat (write_offset r - read_offset r) = w - rd"
    using ring_at_used [OF assms] .
  have total: "4 + length x + sum_list (map (\<lambda>x. 4 + length x) q) = w - rd"
    using ring_at_length [OF assms] by simp
  then have split: "w - rd = 4 + (length x + (w - rd - (4 + length x)))"
    by simp
  have "ring_bytes (payload r) c rd (w - rd) =
      ring_bytes (payload r) c rd 4 @ ring_bytes (payload r) c (rd + 4) (length x) @
      ring_bytes (payload r) c (rd + 4 + length x) (w - rd - (4 + length x))"
    by (subst split) (simp only: ring_bytes_add)
  with bytes have parts: "ring_bytes (payload r) c rd 4 = u32_to_be_bytes (of_nat (length x))"
    "ring_bytes (payload r) c (rd + 4) (length x) = x"
    "ring_bytes (payload r) c (rd + 4 + length x) (w - rd - (4 + length x)) = concat (map frame q)"
    by (simp_all add: frame_def append_eq_append_conv)
  have len: "length x \<le> c - 4" "4 \<le> c" "length x < 2 ^ 32" "rd + (4 + length x) \<le> w"
    using total wf by auto
  have safe: "offset_safe c rd" "offset_safe c (rd + 4)"
    using wf(5) offset_safe_mono len(4) by auto
  have "read_wrap (payload r) c (of_nat rd) 4 = u32_to_be_bytes (of_nat (length x))"
    using read_wrap_ring_bytes [OF wf(1,2) len(2) safe(1)] parts(1) by simp
  moreover have "read_wrap (payload r) c (of_nat (rd + 4)) (length x) = x"
    using read_wrap_ring_bytes [OF wf(1,2) _ safe(2), of "length x"] len(1) parts(2) by simp
  moreover have "unat (of_nat (length x) :: u32) = length x"
    using len(3) by (simp add: unat_of_nat take_bit_eq_mod)
  moreover have "cap r \<noteq> 0" "\<not> w - rd < 4 + length x" "\<not> w - rd < 4"
    using wf(2) len(4) by (auto simp: c_def)
  ultimately have "pop_into r out = (r', out @ x, True)"
    unfolding pop_into_def used Let_def c_def [symmetric] r'_def
    by (simp add: wf(7) add.commute from_to_be_bytes)
  moreover have "ring_at w (rd + (4 + length x)) b r' q"
    unfolding ring_at_def Let_def
    using wf parts(3) len(4) by (simp add: r'_def c_def [symmetric] add.assoc)
  ultimately show ?thesis
    by (simp add: r'_def)
qed

interpretation shm_ring: record_queue push pop_into ring_queued ring_fits drop_count
proof
  fix b b' r q x out
  show "ring_queued b r q \<Longrightarrow> b' \<le> b \<Longrightarrow> ring_queued b' r q"
    unfolding ring_queued_def ring_at_def Let_def
    by (meson add_left_mono offset_safe_mono)
  show "ring_queued (4 + length x + b) r q \<Longrightarrow> ring_fits r x \<Longrightarrow>
      \<exists>r'. push r x = (r', True) \<and> ring_queued b r' (q @ [x]) \<and> drop_count r' = drop_count r"
    unfolding ring_queued_def drop_count_def using ring_push_fits by blast
  show "ring_queued b r q \<Longrightarrow> \<not> ring_fits r x \<Longrightarrow>
      \<exists>r'. push r x = (r', False) \<and> ring_queued b r' q \<and> drop_count r' = drop_count r + 1"
    unfolding ring_queued_def drop_count_def using ring_push_full by fastforce
  show "ring_queued b r (x # q) \<Longrightarrow>
      \<exists>r'. pop_into r out = (r', out @ x, True) \<and> ring_queued b r' q \<and> drop_count r' = drop_count r"
    unfolding ring_queued_def drop_count_def using ring_pop_Cons by blast
  show "ring_queued b r [] \<Longrightarrow> pop_into r out = (r, out, False)"
    unfolding ring_queued_def using ring_pop_Nil by blast
qed

lemma fresh_ring_queued:
  assumes "0 < unat c" "unat c \<le> 2 ^ 32" "unat c dvd 2 ^ 64 \<or> b < 2 ^ 64"
  shows "ring_queued b (fresh_ring c) []"
  unfolding ring_queued_def
  by (rule exI [of _ 0], rule exI [of _ 0])
    (use assms in \<open>simp add: ring_at_def fresh_ring_def offset_safe_def Let_def\<close>)

lemma drop_count_fresh: "drop_count (fresh_ring c) = 0"
  by (simp add: drop_count_def fresh_ring_def)

lemma ring_push_bounded:
  assumes "ring_queued (4 + length x + b) r q"
  shows "\<exists>r' ok. push r x = (r', ok) \<and>
     (ok \<longleftrightarrow> sum_list (map (\<lambda>y. 4 + length y) q) + (4 + length x) \<le> unat (cap r)) \<and>
     ring_queued b r' (if ok then q @ [x] else q) \<and>
     drop_count r' = (if ok then drop_count r else drop_count r + 1)"
proof -
  have fits: "ring_fits r x \<longleftrightarrow> sum_list (map (\<lambda>y. 4 + length y) q) + (4 + length x) \<le> unat (cap r)"
    using assms ring_at_length ring_at_used by (auto simp: ring_queued_def ring_fits_def)
  show ?thesis
  proof (cases "ring_fits r x")
    case True
    with shm_ring.enq_fits [of x b r q] assms fits show ?thesis
      by auto
  next
    case False
    with shm_ring.enq_full [of b r q x] shm_ring.queued_mono [OF assms, of b] fits show ?thesis
      by auto
  qed
qed

lemma cap_push [simp]: "cap (fst (push r x)) = cap r"
  by (simp add: push_def Let_def)

lemma cap_pop_into [simp]: "cap (fst (pop_into r out)) = cap r"
  by (simp add: pop_into_def Let_def)

lemma cap_drain_upto [simp]: "cap (snd (drain_upto pop_into n r)) = cap r"
proof (induction n arbitrary: r)
  case (Suc n)
  have "cap (fst (pop_into r [])) = cap r"
    by simp
  with Suc show ?case
    by (cases "pop_into r []") (auto split: prod.splits bool.splits simp: prod_eq_iff)
qed simp

section \<open>Properties\<close>

text \<open>
  C13. From a fresh ring, any history of pushes and pops (while fewer than \<open>2 ^ 64\<close> framed bytes are
  pushed, or for ever when the capacity divides \<open>2 ^ 64\<close>) is a history of a first-in first-out
  queue: the records popped, followed by the records still in the ring, are exactly the records
  accepted, whole and in order, and the drop counter is the number of refused pushes.
\<close>

theorem ring_history_fifo:
  assumes "0 < unat c" "unat c \<le> 2 ^ 32" "unat c dvd 2 ^ 64 \<or> pushed_bytes ops < 2 ^ 64"
    and "run_queue push pop_into (fresh_ring c) ops = (accepted, popped, refused, r)"
  shows "\<exists>left. accepted = popped @ left \<and> ring_queued 0 r left \<and> drop_count r = of_nat refused"
  using shm_ring.run_queue_fifo [of 0 ops "fresh_ring c" "[]"] fresh_ring_queued assms
  by (simp add: drop_count_def fresh_ring_def)

theorem ring_history_fifo_witness:
  "\<exists>left r. run_queue push pop_into (fresh_ring 16) [Push [1, 2, 3], Push [4, 5], Push [6, 7, 8, 9], Pop, Push [10], Pop]
      = ([[1, 2, 3], [4, 5], [10]], [[1, 2, 3], [4, 5]], 1, r) \<and>
    [[1, 2, 3], [4, 5], [10]] = [[1, 2, 3], [4, 5]] @ left \<and> ring_queued 0 r left \<and> drop_count r = 1"
proof -
  let ?ops = "[Push [1, 2, 3], Push [4, 5], Push [6, 7, 8, 9], Pop, Push [10], Pop]"
  obtain r where r: "run_queue push pop_into (fresh_ring 16) ?ops
      = ([[1, 2, 3], [4, 5], [10]], [[1, 2, 3], [4, 5]], 1, r)"
  proof -
    have "fst (run_queue push pop_into (fresh_ring 16) ?ops) = [[1, 2, 3], [4, 5], [10]]"
      "fst (snd (run_queue push pop_into (fresh_ring 16) ?ops)) = [[1, 2, 3], [4, 5]]"
      "fst (snd (snd (run_queue push pop_into (fresh_ring 16) ?ops))) = 1"
      by code_simp+
    then show thesis
      using that by (metis prod.collapse)
  qed
  with ring_history_fifo [of 16 ?ops "[[1, 2, 3], [4, 5], [10]]" "[[1, 2, 3], [4, 5]]" 1 r] show ?thesis
    by auto
qed

text \<open>
  On a ring that holds the records \<open>q\<close>, \<open>push\<close> accepts a record exactly when its frame fits in
  the free bytes; then the ring holds \<open>q\<close> followed by the record, and otherwise the ring still holds
  \<open>q\<close> (the newest record is the one dropped) and the drop counter has grown by one.
\<close>

lemma ring_push_contract:
  assumes "ring_queued (4 + length x) r q"
  shows "\<exists>r' ok. push r x = (r', ok) \<and>
     (ok \<longleftrightarrow> sum_list (map (\<lambda>y. 4 + length y) q) + (4 + length x) \<le> unat (cap r)) \<and>
     ring_queued 0 r' (if ok then q @ [x] else q) \<and>
     drop_count r' = (if ok then drop_count r else drop_count r + 1)"
  using ring_push_bounded [of x 0 r q] assms by simp

end
