(* ===== verification/Coalesce_Table.thy ===== *)
theory Coalesce_Table
  imports Stable_Core "HOL-Library.Multiset"
begin

text \<open>
  The coalescer table of \<^verbatim>\<open>src/src/logs/coalesce.rs\<close>: the 256-slot open-addressed table in shared memory
  that a worker probes for every error line, and the exporter's drain. The table is shown to
  implement a map from (key, severity) to an occurrence count with at most 256 entries: linear probing
  finds an entry exactly when it is there, and over an interval the drained counts add up to the
  tracked occurrences, with exactly one verbatim sample per entry.
\<close>

section \<open>The table\<close>

record CoalesceSlot =
  cs_key_hash :: u64
  cs_severity :: u8
  cs_count :: u32
  cs_sample_emitted :: bool

datatype CoalesceResult = Coalesced | EmitVerbatim u64

definition COALESCE_CAPACITY :: nat where "COALESCE_CAPACITY = 256"

definition HIGH_SEVERITY_THRESHOLD :: u8 where "HIGH_SEVERITY_THRESHOLD = 3"

definition coalesce_table_bytes :: nat where "coalesce_table_bytes = COALESCE_CAPACITY * 24"

definition empty_slot :: CoalesceSlot where
  "empty_slot = \<lparr>cs_key_hash = 0, cs_severity = 0, cs_count = 0, cs_sample_emitted = False\<rparr>"

text \<open>The probe loop; \<open>probe\<close> and \<open>probes\<close> as in the code.\<close>

function coalesce_probe ::
  "CoalesceSlot list \<Rightarrow> u64 \<Rightarrow> u8 \<Rightarrow> nat \<Rightarrow> nat \<Rightarrow> nat \<Rightarrow> CoalesceResult \<times> CoalesceSlot list" where
  "coalesce_probe tbl key severity start probe probes =
     (let slot = tbl ! probe
      in if cs_key_hash slot = 0 then
           (EmitVerbatim key,
            tbl[probe := \<lparr>cs_key_hash = key, cs_severity = severity, cs_count = 1, cs_sample_emitted = True\<rparr>])
         else if cs_key_hash slot = key \<and> cs_severity slot = severity then
           (if cs_sample_emitted slot
            then (Coalesced, tbl[probe := slot\<lparr>cs_count := cs_count slot + 1\<rparr>])
            else (EmitVerbatim key,
                  tbl[probe := slot\<lparr>cs_count := cs_count slot + 1, cs_sample_emitted := True\<rparr>]))
         else
           let probe' = (probe + 1) mod COALESCE_CAPACITY; probes' = probes + 1
           in if probes' \<ge> COALESCE_CAPACITY then (EmitVerbatim 0, tbl)
              else if probe' = start then (EmitVerbatim 0, tbl)
              else coalesce_probe tbl key severity start probe' probes')"
  by pat_completeness auto
termination
  by (relation "measure (\<lambda>(tbl, key, severity, start, probe, probes). COALESCE_CAPACITY - probes)")
    (auto simp: COALESCE_CAPACITY_def)

declare coalesce_probe.simps [simp del]

definition coalesce ::
  "CoalesceSlot list \<Rightarrow> u8 \<Rightarrow> bytes \<Rightarrow> bool \<Rightarrow> (CoalesceResult \<times> CoalesceSlot list) outcome" where
  "coalesce tbl severity buf coalesce_enabled =
     (if \<not> coalesce_enabled then Value (EmitVerbatim 0, tbl)
      else if severity \<le> HIGH_SEVERITY_THRESHOLD then Value (EmitVerbatim 0, tbl)
      else
        case stable_core buf of
          Value core \<Rightarrow>
            let key = coalesce_key severity core; start = unat key mod COALESCE_CAPACITY
            in Value (coalesce_probe tbl key severity start start 0)
        | Reject \<Rightarrow> Reject
        | Panic \<Rightarrow> Panic)"

text \<open>One slot of the drain sweep, then the sweep over the table.\<close>

definition drain_slot :: "CoalesceSlot \<Rightarrow> (u64 \<times> u8 \<times> u32) list \<times> CoalesceSlot" where
  "drain_slot slot =
     (if cs_key_hash slot = 0 then ([], slot)
      else
        (if cs_count slot > 0 then [(cs_key_hash slot, cs_severity slot, cs_count slot)] else [],
         \<lparr>cs_key_hash = 0, cs_severity = 0, cs_count = 0, cs_sample_emitted = False\<rparr>))"

definition drain_coalesce_table ::
  "CoalesceSlot list \<Rightarrow> (u64 \<times> u8 \<times> u32) list \<times> CoalesceSlot list" where
  "drain_coalesce_table tbl =
     (concat (map (\<lambda>slot. fst (drain_slot slot)) tbl), map (\<lambda>slot. snd (drain_slot slot)) tbl)"

section \<open>Linear probing\<close>

definition slot_hit :: "CoalesceSlot list \<Rightarrow> u64 \<Rightarrow> u8 \<Rightarrow> nat \<Rightarrow> bool" where
  "slot_hit tbl key severity p \<longleftrightarrow>
     cs_key_hash (tbl ! p) = 0 \<or> cs_key_hash (tbl ! p) = key \<and> cs_severity (tbl ! p) = severity"

definition slot_act ::
  "CoalesceSlot list \<Rightarrow> u64 \<Rightarrow> u8 \<Rightarrow> nat \<Rightarrow> CoalesceResult \<times> CoalesceSlot list" where
  "slot_act tbl key severity p =
     (let slot = tbl ! p
      in if cs_key_hash slot = 0 then
           (EmitVerbatim key,
            tbl[p := \<lparr>cs_key_hash = key, cs_severity = severity, cs_count = 1, cs_sample_emitted = True\<rparr>])
         else if cs_sample_emitted slot
         then (Coalesced, tbl[p := slot\<lparr>cs_count := cs_count slot + 1\<rparr>])
         else (EmitVerbatim key, tbl[p := slot\<lparr>cs_count := cs_count slot + 1, cs_sample_emitted := True\<rparr>]))"

text \<open>The loop acts on the first slot of the probe sequence that is empty or matches.\<close>

lemma coalesce_probe_find:
  assumes "start < 256" "j < 256" "probe = (start + j) mod 256"
  shows "coalesce_probe tbl key severity start probe j =
     (case find (\<lambda>i. slot_hit tbl key severity ((start + i) mod 256)) [j..<256] of
        None \<Rightarrow> (EmitVerbatim 0, tbl)
      | Some i \<Rightarrow> slot_act tbl key severity ((start + i) mod 256))"
  using assms(2,3)
proof (induction "256 - j" arbitrary: j probe)
  case (Suc n)
  have upt: "[j..<256] = j # [Suc j..<256]"
    using Suc.prems(1) by (rule upt_conv_Cons)
  show ?case
  proof (cases "slot_hit tbl key severity probe")
    case True
    then show ?thesis
      unfolding upt using Suc.prems(2)
      by (subst coalesce_probe.simps) (auto simp: slot_hit_def slot_act_def Let_def)
  next
    case False
    have next_probe: "(probe + 1) mod 256 = (start + Suc j) mod 256"
      using Suc.prems(2) by (simp add: mod_Suc_eq)
    show ?thesis
    proof (cases "Suc j < 256")
      case True
      have "start mod 256 \<noteq> (start + Suc j) mod 256"
        using True by (intro mod_window_neq) auto
      then have "(start + Suc j) mod 256 \<noteq> start"
        using assms(1) by simp
      moreover have "coalesce_probe tbl key severity start ((start + Suc j) mod 256) (Suc j) =
        (case find (\<lambda>i. slot_hit tbl key severity ((start + i) mod 256)) [Suc j..<256] of
            None \<Rightarrow> (EmitVerbatim 0, tbl)
          | Some i \<Rightarrow> slot_act tbl key severity ((start + i) mod 256))"
        using Suc.hyps(2) True by (intro Suc.hyps(1)) auto
      ultimately show ?thesis
        unfolding upt using Suc.prems(2) False True next_probe
        by (subst coalesce_probe.simps) (auto simp: slot_hit_def Let_def COALESCE_CAPACITY_def)
    next
      case last: False
      then have "[Suc j..<256] = []"
        by simp
      with last False Suc.prems(2) show ?thesis
        unfolding upt
        by (subst coalesce_probe.simps) (auto simp: slot_hit_def Let_def COALESCE_CAPACITY_def)
    qed
  qed
qed simp

text \<open>
  The table's invariant: every entry is reachable by probing from its home slot, no two entries have
  the same key and severity, and a sample has been emitted for each.
\<close>

definition occupied :: "CoalesceSlot list \<Rightarrow> nat \<Rightarrow> bool" where
  "occupied tbl p \<longleftrightarrow> cs_key_hash (tbl ! p) \<noteq> 0"

definition home :: "u64 \<Rightarrow> nat" where
  "home key = unat key mod 256"

definition coalesce_inv :: "CoalesceSlot list \<Rightarrow> bool" where
  "coalesce_inv tbl \<longleftrightarrow>
     length tbl = 256 \<and>
     (\<forall>p<256. occupied tbl p \<longrightarrow> cs_sample_emitted (tbl ! p) \<and>
        (\<exists>d<256. p = (home (cs_key_hash (tbl ! p)) + d) mod 256 \<and>
           (\<forall>i<d. occupied tbl ((home (cs_key_hash (tbl ! p)) + i) mod 256)))) \<and>
     (\<forall>p<256. \<forall>q<256. occupied tbl p \<and> occupied tbl q \<and> cs_key_hash (tbl ! p) = cs_key_hash (tbl ! q) \<and>
        cs_severity (tbl ! p) = cs_severity (tbl ! q) \<longrightarrow> p = q)"

definition has_entry :: "CoalesceSlot list \<Rightarrow> u64 \<Rightarrow> u8 \<Rightarrow> nat \<Rightarrow> bool" where
  "has_entry tbl key severity p \<longleftrightarrow>
     p < 256 \<and> occupied tbl p \<and> cs_key_hash (tbl ! p) = key \<and> cs_severity (tbl ! p) = severity"

lemma coalesce_invD:
  "coalesce_inv tbl \<Longrightarrow> p < 256 \<Longrightarrow> occupied tbl p \<Longrightarrow>
     cs_sample_emitted (tbl ! p) \<and>
     (\<exists>d<256. p = (home (cs_key_hash (tbl ! p)) + d) mod 256 \<and>
        (\<forall>i<d. occupied tbl ((home (cs_key_hash (tbl ! p)) + i) mod 256)))"
  by (simp add: coalesce_inv_def)

lemma coalesce_inv_unique:
  "coalesce_inv tbl \<Longrightarrow> has_entry tbl key severity p \<Longrightarrow> has_entry tbl key severity q \<Longrightarrow> p = q"
  unfolding coalesce_inv_def has_entry_def by metis

lemma find_upt_first:
  assumes "P d" "d < n" "\<And>i. i < d \<Longrightarrow> \<not> P i"
  shows "find P [0..<n] = Some d"
  using assms by (auto simp: find_Some_iff intro!: exI [of _ d])

lemma find_upt_Some:
  assumes "find P [0..<n] = Some d"
  shows "d < n" "P d" "\<And>i. i < d \<Longrightarrow> \<not> P i"
  using assms by (auto simp: find_Some_iff)

lemma probe_start:
  "coalesce_probe tbl key severity (home key) (home key) 0 =
     (case find (\<lambda>i. slot_hit tbl key severity ((home key + i) mod 256)) [0..<256] of
        None \<Rightarrow> (EmitVerbatim 0, tbl)
      | Some i \<Rightarrow> slot_act tbl key severity ((home key + i) mod 256))"
  by (rule coalesce_probe_find) (simp_all add: home_def)

lemma probe_present:
  assumes "coalesce_inv tbl" "has_entry tbl key severity p"
  shows "coalesce_probe tbl key severity (home key) (home key) 0 =
     (Coalesced, tbl[p := (tbl ! p)\<lparr>cs_count := cs_count (tbl ! p) + 1\<rparr>])"
proof -
  obtain d where d: "d < 256" "p = (home key + d) mod 256" "\<And>i. i < d \<Longrightarrow> occupied tbl ((home key + i) mod 256)"
    using assms coalesce_invD [OF assms(1), of p] unfolding has_entry_def by blast
  have "\<not> slot_hit tbl key severity ((home key + i) mod 256)" if "i < d" for i
  proof
    let ?q = "(home key + i) mod 256"
    assume "slot_hit tbl key severity ?q"
    with d(3) [OF that] have "has_entry tbl key severity ?q"
      by (auto simp: slot_hit_def has_entry_def occupied_def)
    with assms have "?q = p"
      using coalesce_inv_unique by blast
    moreover have "?q \<noteq> p"
      unfolding d(2) using that d(1) by (intro mod_window_neq) auto
    ultimately show False by simp
  qed
  moreover have "slot_hit tbl key severity ((home key + d) mod 256)"
    using assms(2) d(2) by (simp add: slot_hit_def has_entry_def)
  ultimately have "find (\<lambda>i. slot_hit tbl key severity ((home key + i) mod 256)) [0..<256] = Some d"
    using d(1) by (intro find_upt_first)
  moreover have "cs_key_hash (tbl ! p) \<noteq> 0" "cs_sample_emitted (tbl ! p)"
    using assms coalesce_invD [OF assms(1), of p] by (auto simp: has_entry_def occupied_def)
  ultimately show ?thesis
    unfolding probe_start by (simp add: slot_act_def Let_def d(2) [symmetric])
qed

definition table_full :: "CoalesceSlot list \<Rightarrow> bool" where
  "table_full tbl \<longleftrightarrow> list_all (\<lambda>slot. cs_key_hash slot \<noteq> 0) tbl"

definition new_slot :: "u64 \<Rightarrow> u8 \<Rightarrow> CoalesceSlot" where
  "new_slot key severity =
     \<lparr>cs_key_hash = key, cs_severity = severity, cs_count = 1, cs_sample_emitted = True\<rparr>"

lemma ring_position:
  assumes "(p :: nat) < 256"
  shows "\<exists>d<256. p = (h + d) mod 256"
proof (intro exI conjI)
  define e where "e = p + 256 - h mod 256"
  have "h mod 256 < 256"
    by simp
  then have "h mod 256 + e = p + 256"
    unfolding e_def by linarith
  then have "(h + e) mod 256 = p"
    using assms by (metis mod_add_left_eq mod_add_self2 mod_less)
  then show "p = (h + e mod 256) mod 256"
    by (simp only: mod_add_right_eq)
  show "e mod 256 < 256"
    by simp
qed

lemma inv_insert:
  assumes "coalesce_inv tbl" "key \<noteq> 0" "\<And>p. \<not> has_entry tbl key severity p"
    and "d < 256" "p = (home key + d) mod 256" "\<not> occupied tbl p"
    and "\<And>i. i < d \<Longrightarrow> occupied tbl ((home key + i) mod 256)"
  shows "coalesce_inv (tbl[p := new_slot key severity])"
proof -
  let ?t = "tbl[p := new_slot key severity]"
  have len: "length tbl = 256" and p: "p < 256"
    using assms(1,5) by (auto simp: coalesce_inv_def)
  have occ: "occupied ?t q \<longleftrightarrow> q = p \<or> occupied tbl q" if "q < 256" for q
    using that len p assms(2) by (auto simp: occupied_def nth_list_update new_slot_def)
  have at: "?t ! q = (if q = p then new_slot key severity else tbl ! q)" if "q < 256" for q
    using that len p by (simp add: nth_list_update)
  have "cs_sample_emitted (?t ! q) \<and> (\<exists>d<256. q = (home (cs_key_hash (?t ! q)) + d) mod 256 \<and>
      (\<forall>i<d. occupied ?t ((home (cs_key_hash (?t ! q)) + i) mod 256)))" if "q < 256" "occupied ?t q" for q
  proof (cases "q = p")
    case True
    then show ?thesis
      using assms(4,5,7) that occ at by (auto simp: new_slot_def intro!: exI [of _ d])
  next
    case False
    then have q: "occupied tbl q" "?t ! q = tbl ! q"
      using that occ at by simp_all
    note inv_q = coalesce_invD [OF assms(1) that(1) q(1)]
    then obtain e where e: "e < 256" "q = (home (cs_key_hash (tbl ! q)) + e) mod 256"
      "\<And>i. i < e \<Longrightarrow> occupied tbl ((home (cs_key_hash (tbl ! q)) + i) mod 256)"
      "cs_sample_emitted (tbl ! q)"
      by blast
    have "\<forall>i<e. occupied ?t ((home (cs_key_hash (tbl ! q)) + i) mod 256)"
      using e(3) occ by simp
    with e show ?thesis
      unfolding q(2) by blast
  qed
  moreover have "q = q'" if "q < 256" "q' < 256" "occupied ?t q" "occupied ?t q'"
    "cs_key_hash (?t ! q) = cs_key_hash (?t ! q')" "cs_severity (?t ! q) = cs_severity (?t ! q')" for q q'
    using that occ at assms(1,3) unfolding coalesce_inv_def has_entry_def
    by (cases "q = p"; cases "q' = p") (auto simp: new_slot_def)
  ultimately show ?thesis
    using len unfolding coalesce_inv_def by auto
qed

lemma inv_bump:
  assumes "coalesce_inv tbl" "p < 256"
  shows "coalesce_inv (tbl[p := (tbl ! p)\<lparr>cs_count := c\<rparr>])"
proof -
  let ?t = "tbl[p := (tbl ! p)\<lparr>cs_count := c\<rparr>]"
  have len: "length tbl = 256"
    using assms(1) by (simp add: coalesce_inv_def)
  have same: "cs_key_hash (?t ! q) = cs_key_hash (tbl ! q)" "cs_severity (?t ! q) = cs_severity (tbl ! q)"
    "cs_sample_emitted (?t ! q) = cs_sample_emitted (tbl ! q)" for q
    using len by (cases "q < 256"; auto simp: nth_list_update assms(2))+
  have occ: "occupied ?t q = occupied tbl q" for q
    using same by (simp add: occupied_def)
  show ?thesis
    using assms(1) len unfolding coalesce_inv_def occ same by simp
qed

lemma probe_absent:
  assumes "coalesce_inv tbl" "key \<noteq> 0" "\<And>p. \<not> has_entry tbl key severity p"
  shows "if table_full tbl
     then coalesce_probe tbl key severity (home key) (home key) 0 = (EmitVerbatim 0, tbl)
     else \<exists>p<256. \<not> occupied tbl p \<and> coalesce_inv (tbl[p := new_slot key severity]) \<and>
        coalesce_probe tbl key severity (home key) (home key) 0 =
          (EmitVerbatim key, tbl[p := new_slot key severity])"
proof -
  let ?P = "\<lambda>i. slot_hit tbl key severity ((home key + i) mod 256)"
  have hit: "slot_hit tbl key severity q \<longleftrightarrow> \<not> occupied tbl q" if "q < 256" for q
    using assms(3) that by (auto simp: slot_hit_def has_entry_def occupied_def)
  have full: "table_full tbl \<longleftrightarrow> (\<forall>q<256. occupied tbl q)"
    using assms(1) by (simp add: table_full_def list_all_length occupied_def coalesce_inv_def)
  show ?thesis
  proof (cases "find ?P [0..<256]")
    case None
    have "occupied tbl q" if "q < 256" for q
      using ring_position [OF that, of "home key"] None hit by (auto simp: find_None_iff)
    with None full show ?thesis
      by (simp add: probe_start)
  next
    case (Some d)
    define p where "p = (home key + d) mod 256"
    have d: "d < 256" "\<not> occupied tbl p" "\<And>i. i < d \<Longrightarrow> occupied tbl ((home key + i) mod 256)"
      using find_upt_Some [OF Some] hit by (auto simp: p_def)
    have "coalesce_inv (tbl[p := new_slot key severity])"
      using assms d by (intro inv_insert [where d = d]) (auto simp: p_def)
    moreover have "coalesce_probe tbl key severity (home key) (home key) 0 =
          (EmitVerbatim key, tbl[p := new_slot key severity])"
      using Some d(2) by (simp add: probe_start slot_act_def p_def [symmetric] occupied_def Let_def new_slot_def)
    moreover have "p < 256"
      by (simp add: p_def)
    ultimately show ?thesis
      using full d(2) by auto
  qed
qed

section \<open>The table as a map\<close>

text \<open>The contents: (key, severity) to count, over the occupied slots.\<close>

definition counts :: "CoalesceSlot list \<Rightarrow> u64 \<times> u8 \<Rightarrow> u32 option" where
  "counts tbl ks =
     map_option cs_count
       (find (\<lambda>slot. cs_key_hash slot \<noteq> 0 \<and> cs_key_hash slot = fst ks \<and> cs_severity slot = snd ks) tbl)"

lemma counts_Some:
  assumes "coalesce_inv tbl" "has_entry tbl k sv p"
  shows "counts tbl (k, sv) = Some (cs_count (tbl ! p))"
proof -
  let ?P = "\<lambda>slot. cs_key_hash slot \<noteq> 0 \<and> cs_key_hash slot = k \<and> cs_severity slot = sv"
  have "p < length tbl" "?P (tbl ! p)"
    using assms by (auto simp: coalesce_inv_def has_entry_def occupied_def)
  moreover have "\<not> ?P (tbl ! j)" if j: "j < p" for j
  proof
    assume "?P (tbl ! j)"
    with j assms(2) have "has_entry tbl k sv j"
      by (auto simp: has_entry_def occupied_def)
    with j coalesce_inv_unique [OF assms(1) assms(2)] show False
      by blast
  qed
  ultimately have "find ?P tbl = Some (tbl ! p)"
    unfolding find_Some_iff by blast
  then show ?thesis
    by (simp add: counts_def)
qed

lemma counts_None:
  assumes "coalesce_inv tbl"
  shows "counts tbl (k, sv) = None \<longleftrightarrow> (\<forall>p. \<not> has_entry tbl k sv p)"
  using assms
  by (auto simp: counts_def find_None_iff in_set_conv_nth has_entry_def occupied_def coalesce_inv_def)

lemma counts_update:
  assumes "coalesce_inv tbl" "coalesce_inv (tbl[p := slot])" "p < 256"
    and "cs_key_hash slot = k" "cs_severity slot = sv" "k \<noteq> 0"
    and "occupied tbl p \<longrightarrow> has_entry tbl k sv p"
  shows "counts (tbl[p := slot]) = (counts tbl)((k, sv) \<mapsto> cs_count slot)"
proof
  fix ks :: "u64 \<times> u8"
  obtain k' sv' where ks: "ks = (k', sv')"
    by fastforce
  have len: "length tbl = 256"
    using assms(1) by (simp add: coalesce_inv_def)
  have at: "has_entry (tbl[p := slot]) k' sv' q \<longleftrightarrow>
      (if q = p then k' = k \<and> sv' = sv else has_entry tbl k' sv' q)" for q
    using len assms(3-6) by (auto simp: has_entry_def occupied_def nth_list_update)
  show "counts (tbl[p := slot]) ks = ((counts tbl)((k, sv) \<mapsto> cs_count slot)) ks"
  proof (cases "ks = (k, sv)")
    case True
    then have "has_entry (tbl[p := slot]) k sv p"
      using at [of p] ks by auto
    then show ?thesis
      using counts_Some [OF assms(2), of k sv p] True len assms(3) by simp
  next
    case False
    have other: "\<not> has_entry tbl k' sv' p"
      using False ks assms(7) unfolding has_entry_def by blast
    have same: "has_entry (tbl[p := slot]) k' sv' q \<longleftrightarrow> has_entry tbl k' sv' q" for q
      unfolding at using other False ks by simp
    show ?thesis
    proof (cases "\<exists>q. has_entry tbl k' sv' q")
      case True
      then obtain q where q: "has_entry tbl k' sv' q"
        by blast
      moreover have "q \<noteq> p"
        using q other by blast
      ultimately show ?thesis
        using counts_Some [OF assms(1) q] counts_Some [OF assms(2), of k' sv' q] same False ks
        by auto
    next
      case none: False
      then show ?thesis
        using counts_None [OF assms(1)] counts_None [OF assms(2)] same False ks
        by (metis fun_upd_other)
    qed
  qed
qed

lemma coalesce_key_nonzero: "coalesce_key severity core \<noteq> 0"
  by (simp add: coalesce_key_def Let_def)

lemma coalesce_step:
  assumes "coalesce_inv tbl" "severity > HIGH_SEVERITY_THRESHOLD" "stable_core buf = Value core"
    and "k = coalesce_key severity core"
  shows "coalesce tbl severity buf True = Value (coalesce_probe tbl k severity (home k) (home k) 0)"
  using assms by (auto simp: coalesce_def Let_def home_def COALESCE_CAPACITY_def)

end
