(* ===== verification/Coalesce_Interval.thy ===== *)
theory Coalesce_Interval
  imports Coalesce_Table
begin

text \<open>
  One export interval of the coalescer: a worker's error lines against an empty table, then the
  exporter's drain. The counts are conserved, and each drained entry has exactly one verbatim sample.
\<close>

section \<open>An interval\<close>

text \<open>The error lines of an interval, in order: severity and bytes.\<close>

fun run_coalesce ::
  "bool \<Rightarrow> CoalesceSlot list \<Rightarrow> (u8 \<times> bytes) list \<Rightarrow> CoalesceResult list \<times> CoalesceSlot list" where
  "run_coalesce enabled tbl [] = ([], tbl)"
| "run_coalesce enabled tbl ((severity, buf) # evs) =
     (case coalesce tbl severity buf enabled of
        Value (res, tbl') \<Rightarrow> (case run_coalesce enabled tbl' evs of (rs, tbl'') \<Rightarrow> (res # rs, tbl''))
      | _ \<Rightarrow> ([], tbl))"

definition empty_table :: "CoalesceSlot list" where
  "empty_table = replicate 256 empty_slot"

definition slot_total :: "CoalesceSlot \<Rightarrow> nat" where
  "slot_total slot = (if cs_key_hash slot = 0 then 0 else unat (cs_count slot))"

definition table_total :: "CoalesceSlot list \<Rightarrow> nat" where
  "table_total tbl = sum_list (map slot_total tbl)"

definition table_keys :: "CoalesceSlot list \<Rightarrow> u64 multiset" where
  "table_keys tbl = image_mset cs_key_hash (filter_mset (\<lambda>slot. cs_key_hash slot \<noteq> 0) (mset tbl))"

definition tracked :: "CoalesceResult \<Rightarrow> nat" where
  "tracked res = (if res = EmitVerbatim 0 then 0 else 1)"

definition sample_key :: "CoalesceResult \<Rightarrow> u64 list" where
  "sample_key res = (case res of EmitVerbatim k \<Rightarrow> if k = 0 then [] else [k] | Coalesced \<Rightarrow> [])"

definition slot_ok :: "nat \<Rightarrow> CoalesceSlot \<Rightarrow> bool" where
  "slot_ok n slot \<longleftrightarrow>
     (if cs_key_hash slot = 0 then slot = empty_slot else 1 \<le> unat (cs_count slot) \<and> unat (cs_count slot) \<le> n)"

text \<open>After at most \<open>n\<close> events since the table was empty.\<close>

definition interval_inv :: "nat \<Rightarrow> CoalesceSlot list \<Rightarrow> bool" where
  "interval_inv n tbl \<longleftrightarrow> coalesce_inv tbl \<and> (\<forall>slot\<in>set tbl. slot_ok n slot)"

lemma slot_ok_mono: "slot_ok n slot \<Longrightarrow> slot_ok (Suc n) slot"
  by (auto simp: slot_ok_def split: if_splits)

lemma interval_inv_update:
  assumes "interval_inv n tbl" "coalesce_inv (tbl[p := slot])" "slot_ok (Suc n) slot"
  shows "interval_inv (Suc n) (tbl[p := slot])"
proof -
  have "set (tbl[p := slot]) \<subseteq> insert slot (set tbl)"
    by (rule set_update_subset_insert)
  then show ?thesis
    using assms slot_ok_mono by (auto simp: interval_inv_def)
qed

lemma table_total_update:
  assumes "p < length tbl" "slot_total slot = Suc (slot_total (tbl ! p))"
  shows "table_total (tbl[p := slot]) = Suc (table_total tbl)"
proof -
  have le: "slot_total (tbl ! p) \<le> table_total tbl"
    unfolding table_total_def using assms(1) by (intro member_le_sum_list) auto
  have "table_total (tbl[p := slot]) = table_total tbl + slot_total slot - slot_total (tbl ! p)"
    using assms(1) by (simp add: table_total_def map_update sum_list_update)
  with le assms(2) show ?thesis
    by simp
qed

lemma table_keys_update:
  assumes "p < length tbl"
  shows "table_keys (tbl[p := slot]) + (if cs_key_hash (tbl ! p) = 0 then {#} else {#cs_key_hash (tbl ! p)#}) =
         table_keys tbl + (if cs_key_hash slot = 0 then {#} else {#cs_key_hash slot#})"
proof -
  define M where "M = mset tbl - {#tbl ! p#}"
  have old: "mset tbl = add_mset (tbl ! p) M"
    using assms by (simp add: M_def)
  have new: "mset (tbl[p := slot]) = add_mset slot M"
    unfolding M_def using assms by (rule mset_update)
  show ?thesis
    unfolding table_keys_def old new by simp
qed

lemma step_update:
  assumes "interval_inv n tbl" "p < 256" "coalesce_inv (tbl[p := slot])" "slot_ok (Suc n) slot"
    and "slot_total slot = Suc (slot_total (tbl ! p))" "res \<noteq> EmitVerbatim 0"
    and "mset (sample_key res) + (if cs_key_hash (tbl ! p) = 0 then {#} else {#cs_key_hash (tbl ! p)#}) =
         (if cs_key_hash slot = 0 then {#} else {#cs_key_hash slot#})"
  shows "interval_inv (Suc n) (tbl[p := slot])"
    "table_total (tbl[p := slot]) = table_total tbl + tracked res"
    "table_keys (tbl[p := slot]) = table_keys tbl + mset (sample_key res)"
proof -
  have len: "p < length tbl"
    using assms(1,2) by (simp add: interval_inv_def coalesce_inv_def)
  show "interval_inv (Suc n) (tbl[p := slot])"
    using assms(1,3,4) by (rule interval_inv_update)
  show "table_total (tbl[p := slot]) = table_total tbl + tracked res"
    using table_total_update [OF len assms(5)] assms(6) by (simp add: tracked_def)
  show "table_keys (tbl[p := slot]) = table_keys tbl + mset (sample_key res)"
  proof -
    let ?old = "if cs_key_hash (tbl ! p) = 0 then {#} else {#cs_key_hash (tbl ! p)#}"
    have "table_keys (tbl[p := slot]) + ?old = (table_keys tbl + mset (sample_key res)) + ?old"
      using table_keys_update [OF len, of slot] assms(7) by (simp only: add.assoc)
    then show ?thesis
      by (rule add_right_imp_eq)
  qed
qed

lemma interval_step:
  assumes "interval_inv n tbl" "Suc n < 2 ^ 32"
  shows "\<exists>res tbl'. coalesce tbl severity buf enabled = Value (res, tbl') \<and> interval_inv (Suc n) tbl' \<and>
     table_total tbl' = table_total tbl + tracked res \<and>
     table_keys tbl' = table_keys tbl + mset (sample_key res)"
proof (cases "enabled \<and> severity > HIGH_SEVERITY_THRESHOLD")
  case False
  then have "coalesce tbl severity buf enabled = Value (EmitVerbatim 0, tbl)"
    by (auto simp: coalesce_def)
  moreover have "interval_inv (Suc n) tbl"
    using assms(1) slot_ok_mono by (auto simp: interval_inv_def)
  ultimately show ?thesis
    by (simp add: tracked_def sample_key_def)
next
  case True
  obtain core where core: "stable_core buf = Value core"
    using stable_core_total by blast
  define k where "k = coalesce_key severity core"
  have k: "k \<noteq> 0"
    by (simp add: k_def coalesce_key_nonzero)
  have inv: "coalesce_inv tbl" and len: "length tbl = 256"
    using assms(1) by (auto simp: interval_inv_def coalesce_inv_def)
  have step: "coalesce tbl severity buf enabled = Value (coalesce_probe tbl k severity (home k) (home k) 0)"
    using coalesce_step [OF inv _ core k_def] True by simp
  show ?thesis
  proof (cases "\<exists>p. has_entry tbl k severity p")
    case True
    then obtain p where p: "has_entry tbl k severity p"
      by blast
    define slot where "slot = (tbl ! p)\<lparr>cs_count := cs_count (tbl ! p) + 1\<rparr>"
    have p256: "p < 256" and key: "cs_key_hash (tbl ! p) = k"
      using p by (auto simp: has_entry_def)
    have "slot_ok n (tbl ! p)"
      using assms(1) len p256 by (simp add: interval_inv_def)
    then have old: "1 \<le> unat (cs_count (tbl ! p))" "unat (cs_count (tbl ! p)) \<le> n"
      using key k by (auto simp: slot_ok_def)
    then have c: "unat (cs_count (tbl ! p) + 1) = Suc (unat (cs_count (tbl ! p)))"
      using assms(2) by (simp add: unat_word_ariths)
    have "coalesce_inv (tbl[p := slot])"
      unfolding slot_def using inv p256 by (rule inv_bump)
    moreover have "slot_ok (Suc n) slot" "slot_total slot = Suc (slot_total (tbl ! p))"
      using old c key k by (simp_all add: slot_ok_def slot_total_def slot_def)
    ultimately show ?thesis
      using step_update [OF assms(1) p256, of slot Coalesced] step probe_present [OF inv p] key k
      by (simp add: slot_def sample_key_def)
  next
    case False
    show ?thesis
    proof (cases "table_full tbl")
      case True
      moreover have "interval_inv (Suc n) tbl"
        using assms(1) slot_ok_mono by (auto simp: interval_inv_def)
      ultimately show ?thesis
        using probe_absent [OF inv k, of severity] False step by (simp add: tracked_def sample_key_def)
    next
      case free: False
      then obtain p where p: "p < 256" "\<not> occupied tbl p" "coalesce_inv (tbl[p := new_slot k severity])"
        "coalesce_probe tbl k severity (home k) (home k) 0 = (EmitVerbatim k, tbl[p := new_slot k severity])"
        using probe_absent [OF inv k, of severity] False by auto
      have "slot_ok (Suc n) (new_slot k severity)"
        "slot_total (new_slot k severity) = Suc (slot_total (tbl ! p))"
        using p(2) k by (simp_all add: slot_ok_def slot_total_def new_slot_def occupied_def)
      then show ?thesis
        using step_update [OF assms(1) p(1,3), of "EmitVerbatim k"] step p(2,4) k
        by (simp add: sample_key_def new_slot_def occupied_def)
    qed
  qed
qed

lemma run_coalesce_counts:
  "interval_inv n tbl \<Longrightarrow> n + length evs < 2 ^ 32 \<Longrightarrow> run_coalesce enabled tbl evs = (rs, tbl') \<Longrightarrow>
     length rs = length evs \<and> interval_inv (n + length evs) tbl' \<and>
     table_total tbl' = table_total tbl + sum_list (map tracked rs) \<and>
     table_keys tbl' = table_keys tbl + mset (concat (map sample_key rs))"
proof (induction evs arbitrary: n tbl rs tbl')
  case (Cons ev evs)
  obtain severity buf where ev: "ev = (severity, buf)"
    by fastforce
  obtain res tbl1 where step: "coalesce tbl severity buf enabled = Value (res, tbl1)"
    "interval_inv (Suc n) tbl1" "table_total tbl1 = table_total tbl + tracked res"
    "table_keys tbl1 = table_keys tbl + mset (sample_key res)"
    using interval_step [OF Cons.prems(1), of severity buf enabled] Cons.prems(2) by auto
  obtain rs1 where rs1: "run_coalesce enabled tbl1 evs = (rs1, tbl')" "rs = res # rs1"
    using Cons.prems(3) ev step(1) by (auto split: prod.splits)
  have "Suc n + length evs < 2 ^ 32"
    using Cons.prems(2) by simp
  from Cons.IH [OF step(2) this rs1(1)] step rs1(2) show ?case
    by simp
qed simp

lemma empty_table_inv: "interval_inv 0 empty_table"
proof -
  have "\<not> occupied empty_table p" if "p < 256" for p
    using that by (simp add: occupied_def empty_table_def empty_slot_def)
  then show ?thesis
    by (auto simp: interval_inv_def coalesce_inv_def empty_table_def slot_ok_def empty_slot_def)
qed

lemma drained_total:
  "sum_list (map (\<lambda>(k, s, c). unat c) (fst (drain_coalesce_table tbl))) = table_total tbl"
proof (induction tbl)
  case (Cons slot tbl)
  have "sum_list (map (\<lambda>(k, s, c). unat c) (fst (drain_slot slot))) = slot_total slot"
    by (auto simp: drain_slot_def slot_total_def word_gt_0 split: if_splits)
  with Cons show ?case
    by (simp add: drain_coalesce_table_def table_total_def)
qed (simp add: drain_coalesce_table_def table_total_def)

lemma drained_keys:
  "\<forall>slot\<in>set tbl. slot_ok n slot \<Longrightarrow> mset (map fst (fst (drain_coalesce_table tbl))) = table_keys tbl"
proof (induction tbl)
  case (Cons slot tbl)
  have "mset (map fst (fst (drain_slot slot))) = (if cs_key_hash slot = 0 then {#} else {#cs_key_hash slot#})"
    using Cons.prems by (auto simp: drain_slot_def slot_ok_def word_gt_0 split: if_splits)
  with Cons show ?case
    by (simp add: drain_coalesce_table_def table_keys_def)
qed (simp add: drain_coalesce_table_def table_keys_def)

lemma drained_table:
  assumes "interval_inv n tbl"
  shows "snd (drain_coalesce_table tbl) = empty_table"
proof -
  have "snd (drain_slot slot) = empty_slot" if "slot \<in> set tbl" for slot
    using assms that by (auto simp: interval_inv_def slot_ok_def drain_slot_def empty_slot_def split: if_splits)
  moreover have "length tbl = 256"
    using assms by (simp add: interval_inv_def coalesce_inv_def)
  ultimately show ?thesis
    unfolding drain_coalesce_table_def snd_conv empty_table_def
    by (metis (no_types, lifting) map_eq_conv map_replicate_const)
qed

section \<open>Properties\<close>

text \<open>
  C37. The table refines a bounded map: for a message below the high-severity threshold, \<open>coalesce\<close>
  keeps the table's invariant and, if the message's (key, severity) has a count, bumps it and
  suppresses the line; otherwise it enters the count 1 and asks for one verbatim sample tagged with
  the key, unless all 256 slots are taken, when the table is unchanged and the line is emitted
  untracked.
\<close>

theorem coalesce_refines_map:
  assumes "coalesce_inv tbl" "severity > HIGH_SEVERITY_THRESHOLD" "stable_core buf = Value core"
    and "k = coalesce_key severity core"
  shows "\<exists>res tbl'. coalesce tbl severity buf True = Value (res, tbl') \<and> coalesce_inv tbl' \<and>
     (case counts tbl (k, severity) of
        Some c \<Rightarrow> res = Coalesced \<and> counts tbl' = (counts tbl)((k, severity) \<mapsto> c + 1)
      | None \<Rightarrow>
          if table_full tbl then res = EmitVerbatim 0 \<and> tbl' = tbl
          else res = EmitVerbatim k \<and> counts tbl' = (counts tbl)((k, severity) \<mapsto> 1))"
proof -
  have k: "k \<noteq> 0"
    using assms(4) coalesce_key_nonzero by simp
  note step = coalesce_step [OF assms]
  show ?thesis
  proof (cases "\<exists>p. has_entry tbl k severity p")
    case True
    then obtain p where p: "has_entry tbl k severity p"
      by blast
    define slot where "slot = (tbl ! p)\<lparr>cs_count := cs_count (tbl ! p) + 1\<rparr>"
    have inv: "coalesce_inv (tbl[p := slot])"
      using inv_bump [OF assms(1)] p unfolding slot_def has_entry_def by blast
    have "counts (tbl[p := slot]) = (counts tbl)((k, severity) \<mapsto> cs_count slot)"
      using p k by (intro counts_update [OF assms(1) inv]) (auto simp: slot_def has_entry_def)
    then show ?thesis
      using counts_Some [OF assms(1) p] probe_present [OF assms(1) p] inv step
      by (simp add: slot_def)
  next
    case False
    then have none: "counts tbl (k, severity) = None"
      using counts_None [OF assms(1)] by blast
    show ?thesis
    proof (cases "table_full tbl")
      case True
      then show ?thesis
        using probe_absent [OF assms(1) k, of severity] False none step assms(1) by simp
    next
      case free: False
      then obtain p where p: "p < 256" "\<not> occupied tbl p" "coalesce_inv (tbl[p := new_slot k severity])"
        "coalesce_probe tbl k severity (home k) (home k) 0 = (EmitVerbatim k, tbl[p := new_slot k severity])"
        using probe_absent [OF assms(1) k, of severity] False by auto
      have "counts (tbl[p := new_slot k severity]) = (counts tbl)((k, severity) \<mapsto> cs_count (new_slot k severity))"
        using p k by (intro counts_update [OF assms(1) p(3)]) (auto simp: new_slot_def)
      then show ?thesis
        using none free p step by (simp add: new_slot_def)
    qed
  qed
qed

definition sample_line :: bytes where
  "sample_line = nginx_line (lit ''2024/01/01 00:00:00 [error'') (lit ''7#7'') (Some (lit ''12''))
     (lit ''open() failed'') (lit '', client: 10.0.0.1'')"

lemma sample_line_core: "stable_core sample_line = Value (lit ''open() failed'')"
  by code_simp

theorem coalesce_refines_map_witness:
  "\<exists>tbl'. coalesce empty_table 4 sample_line True =
       Value (EmitVerbatim (coalesce_key 4 (lit ''open() failed'')), tbl') \<and>
     counts tbl' (coalesce_key 4 (lit ''open() failed''), 4) = Some 1"
proof -
  have inv: "coalesce_inv empty_table"
    using empty_table_inv by (simp add: interval_inv_def)
  have sev: "HIGH_SEVERITY_THRESHOLD < 4"
    by (simp add: HIGH_SEVERITY_THRESHOLD_def)
  have "counts empty_table ks = None" "\<not> table_full empty_table" for ks
    by (auto simp: counts_def empty_table_def empty_slot_def find_None_iff table_full_def list_all_iff)
  with coalesce_refines_map [OF inv sev sample_line_core refl] show ?thesis
    by auto
qed

text \<open>
  C38. Nothing is lost or counted twice over an interval: starting from an empty table, after any
  sequence of fewer than \<open>2 ^ 32\<close> error lines, the counts the exporter drains add up to exactly the
  lines that were tracked (coalesced or sampled), there is exactly one verbatim sample per drained
  entry, and the drain leaves the table empty for the next interval.
\<close>

theorem coalesce_interval_conserved:
  assumes "length evs < 2 ^ 32" "run_coalesce enabled empty_table evs = (rs, tbl)"
    and "drain_coalesce_table tbl = (drained, tbl')"
  shows "length rs = length evs \<and>
     sum_list (map (\<lambda>(k, s, c). unat c) drained) = length (filter (\<lambda>r. r \<noteq> EmitVerbatim 0) rs) \<and>
     mset (map fst drained) = mset (concat (map sample_key rs)) \<and>
     tbl' = empty_table"
proof -
  have run: "length rs = length evs" "interval_inv (length evs) tbl"
    "table_total tbl = table_total empty_table + sum_list (map tracked rs)"
    "table_keys tbl = table_keys empty_table + mset (concat (map sample_key rs))"
    using run_coalesce_counts [OF empty_table_inv, of evs enabled rs tbl] assms(1,2) by simp_all
  have zero: "table_total empty_table = 0" "table_keys empty_table = {#}"
    by (simp_all add: table_total_def table_keys_def empty_table_def empty_slot_def slot_total_def
        sum_list_replicate filter_replicate mset_filter [symmetric] del: mset_replicate mset_filter)
  have "sum_list (map tracked rs) = length (filter (\<lambda>r. r \<noteq> EmitVerbatim 0) rs)"
    by (induction rs) (simp_all add: tracked_def)
  then show ?thesis
    using run zero drained_total [of tbl] drained_keys [of tbl "length evs"] drained_table [OF run(2)] assms(3)
    by (simp add: interval_inv_def)
qed

theorem coalesce_interval_conserved_witness:
  "\<exists>rs tbl drained. run_coalesce True empty_table [(4, sample_line), (4, sample_line), (2, sample_line)] = (rs, tbl) \<and>
     length rs = 3 \<and> drain_coalesce_table tbl = (drained, empty_table) \<and>
     sum_list (map (\<lambda>(k, s, c). unat c) drained) = length (filter (\<lambda>r. r \<noteq> EmitVerbatim 0) rs)"
proof -
  let ?evs = "[(4, sample_line), (4, sample_line), (2, sample_line)]"
  obtain rs tbl drained tbl' where eqs: "run_coalesce True empty_table ?evs = (rs, tbl)"
    "drain_coalesce_table tbl = (drained, tbl')"
    by (metis prod.collapse)
  moreover have "length ?evs < 2 ^ 32"
    by simp
  ultimately show ?thesis
    using coalesce_interval_conserved [of ?evs True rs tbl drained tbl'] by simp
qed

end
