(* ===== verification/Error_Record.thy ===== *)
theory Error_Record
  imports Otel_Data_Model Utf8_Lossy Request_Dims Signal_Ring Coalesce_Interval
begin

text \<open>
  The error-log path: the writer callback nginx calls for every error line and its ring record
  (\<^verbatim>\<open>src/src/logs/error_writer.rs\<close>), and the exporter's parser (\<open>parse_error_record\<close> of
  \<^verbatim>\<open>src/src/drain/mod.rs\<close>). Besides the codec lemmas, the writer is shown to release its re-entrancy
  flag on every path, to leave all shared state alone for lines it must ignore, and to account for
  every line it accepts.
\<close>

section \<open>Ring record\<close>

definition KIND_ERROR :: u8 where "KIND_ERROR = 0x01"

definition ERROR_RECORD_HDR :: nat where "ERROR_RECORD_HDR = 20"

definition MAX_ERROR_BODY_LEN :: nat where "MAX_ERROR_BODY_LEN = 512"

definition error_record_writes :: "u64 \<Rightarrow> u8 \<Rightarrow> u64 \<Rightarrow> bytes \<Rightarrow> bytes list" where
  "error_record_writes ts_ns ngx_level template_hash body =
     [[KIND_ERROR], u64_to_be_bytes ts_ns, [ngx_level], u64_to_be_bytes template_hash]
     @ capped MAX_ERROR_BODY_LEN body"

definition push_error_record :: "ring \<Rightarrow> u64 \<Rightarrow> u8 \<Rightarrow> u64 \<Rightarrow> bytes \<Rightarrow> ring outcome" where
  "push_error_record r ts_ns ngx_level template_hash body =
     (case write_all (ERROR_RECORD_HDR + MAX_ERROR_BODY_LEN)
             (error_record_writes ts_ns ngx_level template_hash body) of
        Value record \<Rightarrow> Value (fst (push r record))
      | Reject \<Rightarrow> Reject
      | Panic \<Rightarrow> Panic)"

text \<open>\<open>parse_error_record\<close>: fixed offsets behind the length guard; \<open>counts\<close> is the drained table.\<close>

definition error_log_record :: "u64 \<Rightarrow> u64 \<Rightarrow> u8 \<Rightarrow> u64 \<Rightarrow> bytes \<Rightarrow> (u64 \<Rightarrow> u32 option) \<Rightarrow> LogRecord" where
  "error_log_record ts observed_now_ns ngx_level template_hash body counts_map =
     \<lparr>lr_time_unix_nano = ts, lr_observed_time_unix_nano = observed_now_ns,
      lr_severity_number = fst (nginx_to_otel (ucast ngx_level)),
      lr_severity_text = snd (nginx_to_otel (ucast ngx_level)),
      lr_body = StringV (from_utf8_lossy body),
      lr_attributes =
        (if template_hash \<noteq> 0
         then [KV ''nginx.error.template_hash'' (IntV template_hash)]
              @ (let count = (case counts_map template_hash of Some c \<Rightarrow> c | None \<Rightarrow> 0)
                 in if count > 1 then [KV ''nginx.error.coalesced_count'' (IntV (ucast count))] else [])
         else []),
      lr_event_name = lit ''nginx.error'', lr_trace_id = [], lr_span_id = []\<rparr>"

definition parse_error_record :: "bytes \<Rightarrow> u64 \<Rightarrow> (u64 \<Rightarrow> u32 option) \<Rightarrow> LogRecord outcome" where
  "parse_error_record buf observed_now_ns counts_map =
     (if length buf < ERROR_RECORD_HDR then Reject
      else
        get_u8 (\<lambda>kind. if kind \<noteq> KIND_ERROR then (\<lambda>rest. Reject) else
        get_u64 (\<lambda>ts. get_u8 (\<lambda>ngx_level. get_u64 (\<lambda>template_hash. get_u16 (\<lambda>body_len.
        need (unat body_len) (get_bytes (unat body_len) (\<lambda>body rest.
          Value (error_log_record ts observed_now_ns ngx_level template_hash body counts_map)))))))) buf)"

definition parse_error_record_consuming ::
  "bytes \<Rightarrow> u64 \<Rightarrow> (u64 \<Rightarrow> u32 option) \<Rightarrow> LogRecord option \<times> u64 option" where
  "parse_error_record_consuming buf observed_now_ns counts_map =
     (case parse_error_record buf observed_now_ns counts_map of
        Value lr \<Rightarrow>
          let th = u64_from_be_bytes (slice buf 10 8)
          in (Some lr, if th \<noteq> 0 then Some th else None)
      | _ \<Rightarrow> (None, None))"

section \<open>The writer\<close>

text \<open>\<open>cached_unix_nanos\<close>: \<open>None\<close> is the null time pointer, else seconds and milliseconds.\<close>

definition cached_unix_nanos :: "(u64 \<times> u64) option \<Rightarrow> u64" where
  "cached_unix_nanos tp =
     (case tp of
        None \<Rightarrow> 0
      | Some (sec, msec) \<Rightarrow>
          saturating_add (saturating_mul sec 1000000000) (saturating_mul msec 1000000))"

text \<open>
  \<open>OtelErrorWriterState\<close>; the three shared-memory pointers are \<open>None\<close> until \<open>init_process\<close> wires them,
  then the worker's table, ring and counters they point to.
\<close>

record OtelErrorWriterState =
  ew_busy :: bool
  ew_cleanup :: bool
  ew_level_floor :: u64
  ew_logs_zone :: bool
  ew_coalesce_table :: "CoalesceSlot list option"
  ew_coalesce_enabled :: bool
  ew_error_ring :: "ring option"
  ew_error_rate :: "u64 list option"

definition bump_error_rate :: "u64 \<Rightarrow> OtelErrorWriterState \<Rightarrow> OtelErrorWriterState" where
  "bump_error_rate level st =
     (case ew_error_rate st of
        None \<Rightarrow> st
      | Some counters \<Rightarrow>
          let idx = severity_class_index (ucast level)
          in st\<lparr>ew_error_rate := Some (counters[idx := counters ! idx + 1])\<rparr>)"

text \<open>The closure under \<open>catch_unwind\<close>: a panic leaves what was done before it.\<close>

definition error_writer_body ::
  "bool \<Rightarrow> (u64 \<times> u64) option \<Rightarrow> u64 \<Rightarrow> bytes \<Rightarrow> OtelErrorWriterState \<Rightarrow> OtelErrorWriterState" where
  "error_writer_body is_worker time level buf st =
     (if level > ew_level_floor st then st
      else if \<not> is_worker \<or> \<not> ew_logs_zone st then st
      else
        let st1 = bump_error_rate level st
        in case ew_coalesce_table st1 of
             None \<Rightarrow> st1
           | Some tbl \<Rightarrow>
               (case coalesce tbl (ucast level) buf (ew_coalesce_enabled st1) of
                  Value (res, tbl') \<Rightarrow>
                    let st2 = st1\<lparr>ew_coalesce_table := Some tbl'\<rparr>
                    in (case res of
                          Coalesced \<Rightarrow> st2
                        | EmitVerbatim template_hash \<Rightarrow>
                            (case ew_error_ring st2 of
                               None \<Rightarrow> st2
                             | Some r \<Rightarrow>
                                 (case push_error_record r (cached_unix_nanos time) (ucast level) template_hash buf of
                                    Value r' \<Rightarrow> st2\<lparr>ew_error_ring := Some r'\<rparr>
                                  | _ \<Rightarrow> st2)))
                | _ \<Rightarrow> st1))"

definition ngx_otel_error_writer ::
  "bool \<Rightarrow> (u64 \<times> u64) option \<Rightarrow> u64 \<Rightarrow> bytes \<Rightarrow> OtelErrorWriterState \<Rightarrow> OtelErrorWriterState" where
  "ngx_otel_error_writer is_worker time level buf st =
     (if ew_cleanup st then st
      else if ew_busy st then st
      else (error_writer_body is_worker time level buf (st\<lparr>ew_busy := True\<rparr>))\<lparr>ew_busy := False\<rparr>)"

section \<open>The log chain\<close>

text \<open>
  A node of nginx's log chain: its level, and our writer's state when the node is ours. The chain is
  the list from \<open>cycle->new_log\<close> along \<open>next\<close>.
\<close>

record log_node =
  ln_level :: nat
  ln_state :: "OtelErrorWriterState option"

definition set_cleanup_flag :: "log_node list \<Rightarrow> log_node list" where
  "set_cleanup_flag chain =
     map (\<lambda>n. n\<lparr>ln_state := map_option (\<lambda>st. st\<lparr>ew_cleanup := True\<rparr>) (ln_state n)\<rparr>) chain"

definition wire_error_writer_state ::
  "bool \<Rightarrow> CoalesceSlot list option \<Rightarrow> ring option \<Rightarrow> u64 list option \<Rightarrow> bool \<Rightarrow> log_node list \<Rightarrow> log_node list" where
  "wire_error_writer_state zone tbl r rate enabled chain =
     map (\<lambda>n. n\<lparr>ln_state := map_option
        (\<lambda>st. st\<lparr>ew_logs_zone := zone, ew_coalesce_table := tbl, ew_error_ring := r, ew_error_rate := rate,
               ew_coalesce_enabled := enabled\<rparr>) (ln_state n)\<rparr>) chain"

text \<open>The walk from the head on, then the whole insertion with the head case.\<close>

fun log_insert_walk :: "log_node \<Rightarrow> log_node list \<Rightarrow> log_node list" where
  "log_insert_walk new_log [] = [new_log]"
| "log_insert_walk new_log (n # ns) =
     (if ln_level new_log > ln_level n then new_log # n # ns else n # log_insert_walk new_log ns)"

fun otel_log_insert :: "log_node \<Rightarrow> log_node list \<Rightarrow> log_node list" where
  "otel_log_insert new_log [] = []"
| "otel_log_insert new_log (head # ns) =
     (if ln_level new_log > ln_level head then new_log # head # ns
      else head # log_insert_walk new_log ns)"

definition parse_error_log_level :: "bytes \<Rightarrow> nat option" where
  "parse_error_log_level s =
     (if s = lit ''emerg'' then Some 1
      else if s = lit ''alert'' then Some 2
      else if s = lit ''crit'' then Some 3
      else if s = lit ''error'' then Some 4
      else if s = lit ''warn'' then Some 5
      else if s = lit ''notice'' then Some 6
      else if s = lit ''info'' then Some 7
      else if s = lit ''debug'' then Some 8
      else None)"

section \<open>Codec lemmas\<close>

lemma error_record_written:
  "write_all (ERROR_RECORD_HDR + MAX_ERROR_BODY_LEN) (error_record_writes ts lvl h body) =
     Value (concat (error_record_writes ts lvl h body))"
  by (rule write_all_fits) (simp add: error_record_writes_def ERROR_RECORD_HDR_def MAX_ERROR_BODY_LEN_def)

lemma error_record_shape:
  "concat (error_record_writes ts lvl h body) =
     KIND_ERROR # u64_to_be_bytes ts @ lvl # u64_to_be_bytes h @
     u16_to_be_bytes (of_nat (min (length body) 512)) @ take 512 body"
  by (simp add: error_record_writes_def concat_capped MAX_ERROR_BODY_LEN_def)

lemma parse_error_record_written:
  "parse_error_record (concat (error_record_writes ts lvl h body)) now counts_map =
     Value (error_log_record ts now lvl h (take MAX_ERROR_BODY_LEN body) counts_map)"
proof -
  have u16: "unat (of_nat (min (length body) 512) :: u16) = min (length body) 512"
    by (simp add: unat_of_nat take_bit_eq_mod)
  show ?thesis
    unfolding parse_error_record_def error_record_shape
    by (simp add: wire_simps u16 ERROR_RECORD_HDR_def MAX_ERROR_BODY_LEN_def get_bytes_def)
qed

lemma error_record_hash: "u64_from_be_bytes (slice (concat (error_record_writes ts lvl h body)) 10 8) = h"
  by (simp add: error_record_shape slice_def drop_append)

lemma parse_consuming_written:
  "parse_error_record_consuming (concat (error_record_writes ts lvl h body)) now counts_map =
     (Some (error_log_record ts now lvl h (take MAX_ERROR_BODY_LEN body) counts_map),
      if h \<noteq> 0 then Some h else None)"
  unfolding parse_error_record_consuming_def parse_error_record_written
  by (simp add: error_record_hash Let_def)

lemma length_error_record:
  "length (concat (error_record_writes ts lvl h body)) \<le> 532"
  by (simp add: error_record_shape)

lemma push_error_record_queued:
  assumes "ring_queued (536 + b) r q"
  shows "\<exists>r' ok. push_error_record r ts lvl h body = Value r' \<and>
     ring_queued b r' (if ok then q @ [concat (error_record_writes ts lvl h body)] else q) \<and>
     drop_count r' = drop_count r + (if ok then 0 else 1)"
proof -
  let ?rec = "concat (error_record_writes ts lvl h body)"
  have eq: "push_error_record r ts lvl h body = Value (fst (push r ?rec))"
    by (simp add: push_error_record_def error_record_written)
  have room: "ring_queued (4 + length ?rec + b) r q"
    using shm_ring.queued_mono [OF assms] length_error_record [of ts lvl h body] by simp
  show ?thesis
  proof (cases "ring_fits r ?rec")
    case True
    with shm_ring.enq_fits [OF room] eq show ?thesis
      by fastforce
  next
    case False
    have "ring_queued b r q"
      using shm_ring.queued_mono [OF assms] by simp
    from shm_ring.enq_full [OF this False] eq show ?thesis
      by fastforce
  qed
qed

section \<open>Chain lemmas\<close>

definition chain_sorted :: "log_node list \<Rightarrow> bool" where
  "chain_sorted chain \<longleftrightarrow> sorted_wrt (\<lambda>a b. ln_level a \<ge> ln_level b) chain"

lemma log_insert_walk_set: "set (log_insert_walk n ns) = insert n (set ns)"
  by (induction n ns rule: log_insert_walk.induct) auto

lemma log_insert_walk_sorted: "chain_sorted ns \<Longrightarrow> chain_sorted (log_insert_walk n ns)"
  by (induction n ns rule: log_insert_walk.induct)
    (auto simp: chain_sorted_def log_insert_walk_set)

lemma log_insert_walk_mset: "mset (log_insert_walk n ns) = add_mset n (mset ns)"
  by (induction n ns rule: log_insert_walk.induct) auto

section \<open>Writer lemmas\<close>

lemma bump_error_rate_frame [simp]:
  "ew_coalesce_table (bump_error_rate level st) = ew_coalesce_table st"
  "ew_coalesce_enabled (bump_error_rate level st) = ew_coalesce_enabled st"
  "ew_error_ring (bump_error_rate level st) = ew_error_ring st"
  "ew_cleanup (bump_error_rate level st) = ew_cleanup st"
  "ew_level_floor (bump_error_rate level st) = ew_level_floor st"
  "ew_logs_zone (bump_error_rate level st) = ew_logs_zone st"
  by (auto simp: bump_error_rate_def Let_def split: option.splits)

lemma sum_list_bump:
  fixes cs :: "u64 list"
  assumes "i < length cs"
  shows "sum_list (cs[i := cs ! i + 1]) = sum_list cs + 1"
  using assms by (induction cs arbitrary: i) (auto split: nat.splits)

text \<open>The states the writer works in, holding \<open>q\<close> in the ring with room for \<open>b\<close> more bytes.\<close>

definition writer_ready ::
  "nat \<Rightarrow> nat \<Rightarrow> OtelErrorWriterState \<Rightarrow> CoalesceSlot list \<Rightarrow> ring \<Rightarrow> bytes list \<Rightarrow> u64 list \<Rightarrow> bool" where
  "writer_ready n b st tbl r q cs \<longleftrightarrow>
     \<not> ew_busy st \<and> \<not> ew_cleanup st \<and> ew_logs_zone st \<and> ew_coalesce_table st = Some tbl \<and>
     ew_error_ring st = Some r \<and> ew_error_rate st = Some cs \<and> length cs = N_SEVERITY_CLASSES \<and>
     interval_inv n tbl \<and> ring_queued b r q"

definition verbatim :: "CoalesceResult \<Rightarrow> nat" where
  "verbatim res = (case res of Coalesced \<Rightarrow> 0 | EmitVerbatim _ \<Rightarrow> 1)"

lemma error_writer_step:
  assumes "writer_ready n (536 + b) st tbl r q cs" "level \<le> ew_level_floor st" "Suc n < 2 ^ 32"
    and "st' = ngx_otel_error_writer True time level buf st"
  shows "\<exists>res tbl' r' q' lost. coalesce tbl (ucast level) buf (ew_coalesce_enabled st) = Value (res, tbl') \<and>
     writer_ready (Suc n) b st' tbl' r' (q @ q') (cs[severity_class_index (ucast level) := cs ! severity_class_index (ucast level) + 1]) \<and>
     ew_level_floor st' = ew_level_floor st \<and> ew_coalesce_enabled st' = ew_coalesce_enabled st \<and>
     table_total tbl' = table_total tbl + tracked res \<and>
     length q' + lost = verbatim res \<and> drop_count r' = drop_count r + of_nat lost"
proof -
  have st: "\<not> ew_busy st" "\<not> ew_cleanup st" "ew_logs_zone st" "ew_coalesce_table st = Some tbl"
    "ew_error_ring st = Some r" "ew_error_rate st = Some cs" "length cs = N_SEVERITY_CLASSES"
    "interval_inv n tbl" "ring_queued (536 + b) r q"
    using assms(1) by (simp_all add: writer_ready_def)
  obtain res tbl' where res: "coalesce tbl (ucast level) buf (ew_coalesce_enabled st) = Value (res, tbl')"
    "interval_inv (Suc n) tbl'" "table_total tbl' = table_total tbl + tracked res"
    using interval_step [OF st(8) assms(3)] by blast
  define cs' where "cs' = cs[severity_class_index (ucast level) := cs ! severity_class_index (ucast level) + 1]"
  define st1 where "st1 = (bump_error_rate level (st\<lparr>ew_busy := True\<rparr>))\<lparr>ew_coalesce_table := Some tbl'\<rparr>"
  have st1: "ew_error_rate st1 = Some cs'" "ew_logs_zone st1" "\<not> ew_cleanup st1" "ew_error_ring st1 = Some r"
    "ew_level_floor st1 = ew_level_floor st" "ew_coalesce_enabled st1 = ew_coalesce_enabled st"
    "ew_coalesce_table st1 = Some tbl'"
    using st by (simp_all add: st1_def cs'_def bump_error_rate_def Let_def)
  have st': "st' = (case res of Coalesced \<Rightarrow> st1 | EmitVerbatim h \<Rightarrow>
      (case push_error_record r (cached_unix_nanos time) (ucast level) h buf of
         Value r' \<Rightarrow> st1\<lparr>ew_error_ring := Some r'\<rparr> | _ \<Rightarrow> st1))\<lparr>ew_busy := False\<rparr>"
    using st assms(2,4) res(1) unfolding st1_def
    by (simp add: ngx_otel_error_writer_def error_writer_body_def Let_def not_less
        split: CoalesceResult.splits)
  have len: "length cs' = N_SEVERITY_CLASSES"
    using st(7) by (simp add: cs'_def)
  show ?thesis
  proof (cases res)
    case Coalesced
    have "ring_queued b r q"
      using shm_ring.queued_mono [OF st(9)] by simp
    then have "writer_ready (Suc n) b st' tbl' r (q @ []) cs'"
      using st' Coalesced st1 len res(2) by (simp add: writer_ready_def)
    then show ?thesis
      using res Coalesced st1 st' unfolding cs'_def
      by (intro exI [of _ res] exI [of _ tbl'] exI [of _ r] exI [of _ "[]"] exI [of _ 0]) (simp add: verbatim_def)
  next
    case (EmitVerbatim h)
    let ?rec = "concat (error_record_writes (cached_unix_nanos time) (ucast level) h buf)"
    obtain r' ok where r': "push_error_record r (cached_unix_nanos time) (ucast level) h buf = Value r'"
      "ring_queued b r' (if ok then q @ [?rec] else q)" "drop_count r' = drop_count r + (if ok then 0 else 1)"
      using push_error_record_queued [OF st(9)] by blast
    define q' where "q' = (if ok then [?rec] else [])"
    define lost :: nat where "lost = (if ok then 0 else 1)"
    have "writer_ready (Suc n) b st' tbl' r' (q @ q') cs'"
      using st' EmitVerbatim st1 len res(2) r' by (auto simp: writer_ready_def q'_def)
    then show ?thesis
      using res EmitVerbatim st1 st' r' unfolding cs'_def
      by (intro exI [of _ res] exI [of _ tbl'] exI [of _ r'] exI [of _ q'] exI [of _ lost])
        (simp add: verbatim_def q'_def lost_def)
  qed
qed

lemma error_writer_run:
  assumes "writer_ready n (536 * length evs) st tbl r q cs" "n + length evs < 2 ^ 32"
    and "\<And>level buf. (level, buf) \<in> set evs \<Longrightarrow> level \<le> ew_level_floor st"
    and "st' = foldl (\<lambda>s (level, buf). ngx_otel_error_writer True time level buf s) st evs"
  shows "\<exists>tbl' r' recs cs' coalesced lost.
     writer_ready (n + length evs) 0 st' tbl' r' (q @ recs) cs' \<and>
     sum_list cs' = sum_list cs + of_nat (length evs) \<and>
     coalesced + length recs + lost = length evs \<and>
     drop_count r' = drop_count r + of_nat lost \<and>
     table_total tbl + coalesced \<le> table_total tbl' \<and> table_total tbl' \<le> table_total tbl + length evs"
  using assms
proof (induction evs arbitrary: n st tbl r q cs)
  case Nil
  show ?case
  proof (intro exI conjI)
    show "writer_ready (n + length []) 0 st' tbl r (q @ []) cs"
      using Nil by simp
    show "sum_list cs = sum_list cs + of_nat (length [])" "0 + length [] + 0 = length []"
      "drop_count r = drop_count r + of_nat 0" "table_total tbl + 0 \<le> table_total tbl"
      "table_total tbl \<le> table_total tbl + length []"
      by simp_all
  qed
next
  case (Cons ev evs)
  obtain level buf where ev: "ev = (level, buf)"
    by fastforce
  define st1 where "st1 = ngx_otel_error_writer True time level buf st"
  let ?i = "severity_class_index (ucast level)"
  have ready: "writer_ready n (536 + 536 * length evs) st tbl r q cs"
    using Cons.prems(1) by simp
  have lvl: "level \<le> ew_level_floor st" "Suc n < 2 ^ 32"
    using Cons.prems(2,3) ev by auto
  obtain res tbl1 r1 q1 lost1 where step:
    "writer_ready (Suc n) (536 * length evs) st1 tbl1 r1 (q @ q1) (cs[?i := cs ! ?i + 1])"
    "ew_level_floor st1 = ew_level_floor st" "table_total tbl1 = table_total tbl + tracked res"
    "length q1 + lost1 = verbatim res" "drop_count r1 = drop_count r + of_nat lost1"
    using error_writer_step [OF ready lvl st1_def] by blast
  have cs: "sum_list (cs[?i := cs ! ?i + 1]) = sum_list cs + 1"
    using ready severity_class_index_less by (intro sum_list_bump) (simp add: writer_ready_def)
  have rest: "st' = foldl (\<lambda>s (level, buf). ngx_otel_error_writer True time level buf s) st1 evs"
    using Cons.prems(4) ev by (simp add: st1_def)
  have bound: "Suc n + length evs < 2 ^ 32"
    using Cons.prems(2) by simp
  have floor: "l \<le> ew_level_floor st1" if "(l, b) \<in> set evs" for l b
    using Cons.prems(3) [of l b] that step(2) by simp
  from Cons.IH [OF step(1) bound _ rest] floor obtain tbl' r' recs cs' coalesced lost where ih:
    "writer_ready (Suc n + length evs) 0 st' tbl' r' ((q @ q1) @ recs) cs'"
    "sum_list cs' = sum_list (cs[?i := cs ! ?i + 1]) + of_nat (length evs)"
    "coalesced + length recs + lost = length evs" "drop_count r' = drop_count r1 + of_nat lost"
    "table_total tbl1 + coalesced \<le> table_total tbl'" "table_total tbl' \<le> table_total tbl1 + length evs"
    by blast
  have one: "tracked res \<le> 1" "1 - verbatim res \<le> tracked res" "verbatim res \<le> 1"
    by (auto simp: tracked_def verbatim_def split: CoalesceResult.splits)
  show ?case
  proof (intro exI conjI)
    show "writer_ready (n + length (ev # evs)) 0 st' tbl' r' (q @ (q1 @ recs)) cs'"
      using ih(1) by simp
    show "sum_list cs' = sum_list cs + of_nat (length (ev # evs))"
      using ih(2) cs by simp
    show "(coalesced + (1 - verbatim res)) + length (q1 @ recs) + (lost1 + lost) = length (ev # evs)"
      using ih(3) step(4) one by simp
    show "drop_count r' = drop_count r + of_nat (lost1 + lost)"
      using ih(4) step(5) by simp
    show "table_total tbl + (coalesced + (1 - verbatim res)) \<le> table_total tbl'"
      using ih(5) step(3) one by simp
    show "table_total tbl' \<le> table_total tbl + length (ev # evs)"
      using ih(6) step(3) one by simp
  qed
qed

section \<open>Properties\<close>

text \<open>
  On any bytes at all, \<open>parse_error_record\<close> returns a record or \<open>None\<close>; it never indexes out of
  bounds.
\<close>

lemma parse_error_record_no_panic: "parse_error_record buf now counts_map \<noteq> Panic"
proof (cases "length buf < ERROR_RECORD_HDR")
  case False
  then have "no_panic_out (parse_error_record buf now counts_map)"
    unfolding parse_error_record_def if_not_P [OF False]
    by (intro no_panic) (simp_all add: ERROR_RECORD_HDR_def)
  then show ?thesis
    by (simp add: no_panic_out_def)
qed (simp add: parse_error_record_def)

text \<open>
  An error line pushed by a worker is either dropped and counted, or is appended to the ring as a
  record from which the exporter's parser recovers the time, level, template hash and the first 512
  bytes of the line, marking the hash consumed exactly when it is not zero.
\<close>

lemma error_record_through_ring:
  assumes "ring_queued (536 + b) r q"
  shows "\<exists>r' ok record. push_error_record r ts lvl h body = Value r' \<and>
     ring_queued b r' (if ok then q @ [record] else q) \<and>
     drop_count r' = drop_count r + (if ok then 0 else 1) \<and>
     parse_error_record_consuming record now counts_map =
       (Some (error_log_record ts now lvl h (take MAX_ERROR_BODY_LEN body) counts_map),
        if h \<noteq> 0 then Some h else None)"
  using push_error_record_queued [OF assms] parse_consuming_written by blast

text \<open>
  C40. Every accepted line is accounted for. Over a sequence of lines within the severity floor, in a
  worker with its shared memory wired: the error-rate counters grow by exactly the number of lines;
  each line was coalesced into a table count, or is a record in the ring behind the ones already
  there, or was added to the ring's drop counter; and the writer is again ready (its busy flag is
  released).
\<close>

theorem error_writer_accounts:
  assumes "writer_ready 0 (536 * length evs) st empty_table r q cs" "length evs < 2 ^ 32"
    and "\<forall>(level, buf)\<in>set evs. level \<le> ew_level_floor st"
    and "st' = foldl (\<lambda>s (level, buf). ngx_otel_error_writer True time level buf s) st evs"
  shows "\<exists>tbl' r' recs cs' coalesced lost.
     writer_ready (length evs) 0 st' tbl' r' (q @ recs) cs' \<and>
     sum_list cs' = sum_list cs + of_nat (length evs) \<and>
     coalesced + length recs + lost = length evs \<and>
     drop_count r' = drop_count r + of_nat lost \<and> coalesced \<le> table_total tbl'"
proof -
  have "0 + length evs < 2 ^ 32"
    using assms(2) by simp
  moreover have "level \<le> ew_level_floor st" if "(level, buf) \<in> set evs" for level buf
    using assms(3) that by auto
  ultimately obtain tbl' r' recs cs' coalesced lost where
    "writer_ready (0 + length evs) 0 st' tbl' r' (q @ recs) cs'"
    "sum_list cs' = sum_list cs + of_nat (length evs)" "coalesced + length recs + lost = length evs"
    "drop_count r' = drop_count r + of_nat lost" "table_total empty_table + coalesced \<le> table_total tbl'"
    using error_writer_run [OF assms(1) _ _ assms(4)] by blast
  then show ?thesis
    by (metis add_0 add_leD2)
qed

definition sample_writer :: OtelErrorWriterState where
  "sample_writer =
     \<lparr>ew_busy = False, ew_cleanup = False, ew_level_floor = 5, ew_logs_zone = True,
      ew_coalesce_table = Some empty_table, ew_coalesce_enabled = True,
      ew_error_ring = Some (fresh_ring DEFAULT_LOG_RING_CAP), ew_error_rate = Some [0, 0, 0, 0, 0]\<rparr>"

definition sample_errors :: "(u64 \<times> bytes) list" where
  "sample_errors = [(4, sample_line), (4, sample_line)]"

theorem error_writer_accounts_witness:
  "\<exists>tbl' r' recs cs' coalesced lost.
     writer_ready (length sample_errors) 0
       (foldl (\<lambda>s (level, buf). ngx_otel_error_writer True None level buf s) sample_writer sample_errors)
       tbl' r' ([] @ recs) cs' \<and>
     sum_list cs' = sum_list [0, 0, 0, 0, 0] + of_nat (length sample_errors) \<and>
     coalesced + length recs + lost = length sample_errors \<and>
     drop_count r' = drop_count (fresh_ring DEFAULT_LOG_RING_CAP) + of_nat lost \<and> coalesced \<le> table_total tbl'"
proof (rule error_writer_accounts [OF _ _ _ refl])
  have "ring_queued (536 * length sample_errors) (fresh_ring DEFAULT_LOG_RING_CAP) []"
    by (rule fresh_ring_queued) (simp_all add: DEFAULT_LOG_RING_CAP_def)
  then show "writer_ready 0 (536 * length sample_errors) sample_writer empty_table
      (fresh_ring DEFAULT_LOG_RING_CAP) [] [0, 0, 0, 0, 0]"
    using empty_table_inv by (simp add: writer_ready_def sample_writer_def N_SEVERITY_CLASSES_def)
  show "length sample_errors < 2 ^ 32"
    by (simp add: sample_errors_def)
  show "\<forall>(level, buf)\<in>set sample_errors. level \<le> ew_level_floor sample_writer"
    by (simp add: sample_errors_def sample_writer_def)
qed

text \<open>
  Lines the writer must ignore change nothing: after teardown, on re-entry, below the severity
  floor, outside a worker, or before the zone is mapped, the writer's state and all shared memory are
  as before; and inserting its node keeps nginx's log chain in descending level order with no node lost.
\<close>

lemma error_writer_ignores:
  assumes "ew_cleanup st \<or> ew_busy st \<or> level > ew_level_floor st \<or> \<not> is_worker \<or> \<not> ew_logs_zone st"
    and "chain_sorted (head # ns)"
  shows "ngx_otel_error_writer is_worker time level buf st = st \<and>
     chain_sorted (otel_log_insert n (head # ns)) \<and>
     mset (otel_log_insert n (head # ns)) = add_mset n (mset (head # ns))"
proof -
  have "ngx_otel_error_writer is_worker time level buf st = st"
    using assms(1) by (auto simp: ngx_otel_error_writer_def error_writer_body_def)
  moreover have "chain_sorted (otel_log_insert n (head # ns))"
    using assms(2) log_insert_walk_sorted [of ns n]
    by (auto simp: chain_sorted_def log_insert_walk_set)
  ultimately show ?thesis
    by (simp add: log_insert_walk_mset)
qed

end
