(* ===== verification/Config_Directives.thy ===== *)
theory Config_Directives
  imports Config_Parse Error_Record
begin

text \<open>
  The directive handlers of \<^verbatim>\<open>src/src/config/directives.rs\<close> and the command table of the \<open>otel_exporter\<close>
  block in \<^verbatim>\<open>src/src/config/mod.rs\<close>. A handler takes the tokens of its directive (\<open>args ! 0\<close> is the name; nginx
  and \<open>cmd_exporter_block_handler\<close> check their number before the call) and returns the new configuration or the
  error string; the messages it logs are not part of the result. The compiler of complex values, hyper's header
  parsers, the pool allocator and nginx's configuration parser are parameters.
\<close>

section \<open>The configuration\<close>

definition UNSET_FLAG :: int where "UNSET_FLAG = - 1"

definition UNSET_U64 :: u64 where "UNSET_U64 = - 1"

definition DEFAULT_INTERVAL_MS :: u64 where "DEFAULT_INTERVAL_MS = 5000"

definition NGX_LOG_ERR :: nat where "NGX_LOG_ERR = 4"

datatype ExportProtocol = OtlpHttp | OtlpGrpc

type_synonym KvPair = "bytes \<times> bytes"

record ExporterConfig =
  xc_endpoint :: bytes
  xc_trusted_cert :: bytes
  xc_ssl_cert :: bytes
  xc_ssl_cert_key :: bytes
  xc_ssl_verify :: int
  xc_metrics_endpoint :: bytes
  xc_logs_endpoint :: bytes
  xc_traces_endpoint :: bytes

definition default_exporter_config :: ExporterConfig where
  "default_exporter_config =
     \<lparr>xc_endpoint = [], xc_trusted_cert = [], xc_ssl_cert = [], xc_ssl_cert_key = [], xc_ssl_verify = UNSET_FLAG,
      xc_metrics_endpoint = [], xc_logs_endpoint = [], xc_traces_endpoint = []\<rparr>"

definition exporter_is_set :: "ExporterConfig \<Rightarrow> bool" where
  "exporter_is_set ecf \<longleftrightarrow> xc_endpoint ecf \<noteq> []"

definition ssl_verify_off :: "ExporterConfig \<Rightarrow> bool" where
  "ssl_verify_off ecf \<longleftrightarrow> xc_ssl_verify ecf = 0"

text \<open>\<open>MainConfig\<close> as far as the directives fill it; \<open>postconfiguration\<close> adds the zones and tables.\<close>

record MainConfig =
  mc_exporter :: ExporterConfig
  mc_service_name :: bytes
  mc_resource_attrs :: "KvPair list"
  mc_exporter_headers :: "KvPair list"
  mc_metric_interval_ms :: u64
  mc_metrics_enabled :: int
  mc_status_code_class :: int
  mc_export_protocol :: "ExportProtocol option"
  mc_any_log_export :: bool
  mc_error_log_enabled :: bool
  mc_error_log_level :: nat
  mc_error_log_coalesce :: bool

definition default_main_config :: MainConfig where
  "default_main_config =
     \<lparr>mc_exporter = default_exporter_config, mc_service_name = [], mc_resource_attrs = [], mc_exporter_headers = [],
      mc_metric_interval_ms = UNSET_U64, mc_metrics_enabled = UNSET_FLAG, mc_status_code_class = UNSET_FLAG,
      mc_export_protocol = None, mc_any_log_export = False, mc_error_log_enabled = False,
      mc_error_log_level = NGX_LOG_ERR, mc_error_log_coalesce = True\<rparr>"

definition is_configured :: "MainConfig \<Rightarrow> bool" where
  "is_configured amcf = exporter_is_set (mc_exporter amcf)"

definition interval_ms :: "MainConfig \<Rightarrow> u64" where
  "interval_ms amcf = (if mc_metric_interval_ms amcf = UNSET_U64 then DEFAULT_INTERVAL_MS else mc_metric_interval_ms amcf)"

definition metrics_enabled :: "MainConfig \<Rightarrow> bool" where
  "metrics_enabled amcf \<longleftrightarrow> mc_metrics_enabled amcf \<noteq> 0"

definition status_code_class_enabled :: "MainConfig \<Rightarrow> bool" where
  "status_code_class_enabled amcf \<longleftrightarrow> mc_status_code_class amcf \<noteq> 0"

definition export_protocol :: "MainConfig \<Rightarrow> ExportProtocol" where
  "export_protocol amcf = (case mc_export_protocol amcf of Some p \<Rightarrow> p | None \<Rightarrow> OtlpHttp)"

section \<open>Handlers of the exporter block\<close>

datatype conf_error = IsDuplicate | InvalidSslVerify | NgxConfError

type_synonym 'a conf_result = "conf_error + 'a"

type_synonym conf_handler = "bytes list \<Rightarrow> MainConfig \<Rightarrow> MainConfig conf_result"

definition cmd_exporter_set_endpoint :: "bytes list \<Rightarrow> ExporterConfig \<Rightarrow> ExporterConfig conf_result" where
  "cmd_exporter_set_endpoint args ecf =
     (if xc_endpoint ecf \<noteq> [] then Inl IsDuplicate else Inr (ecf\<lparr>xc_endpoint := args ! 1\<rparr>))"

definition cmd_exporter_set_trusted_cert :: "bytes list \<Rightarrow> ExporterConfig \<Rightarrow> ExporterConfig conf_result" where
  "cmd_exporter_set_trusted_cert args ecf =
     (if xc_trusted_cert ecf \<noteq> [] then Inl IsDuplicate else Inr (ecf\<lparr>xc_trusted_cert := args ! 1\<rparr>))"

definition cmd_exporter_set_ssl_cert :: "bytes list \<Rightarrow> ExporterConfig \<Rightarrow> ExporterConfig conf_result" where
  "cmd_exporter_set_ssl_cert args ecf =
     (if xc_ssl_cert ecf \<noteq> [] then Inl IsDuplicate else Inr (ecf\<lparr>xc_ssl_cert := args ! 1\<rparr>))"

definition cmd_exporter_set_ssl_cert_key :: "bytes list \<Rightarrow> ExporterConfig \<Rightarrow> ExporterConfig conf_result" where
  "cmd_exporter_set_ssl_cert_key args ecf =
     (if xc_ssl_cert_key ecf \<noteq> [] then Inl IsDuplicate else Inr (ecf\<lparr>xc_ssl_cert_key := args ! 1\<rparr>))"

definition cmd_exporter_set_ssl_verify :: "bytes list \<Rightarrow> ExporterConfig \<Rightarrow> ExporterConfig conf_result" where
  "cmd_exporter_set_ssl_verify args ecf =
     (if xc_ssl_verify ecf \<noteq> UNSET_FLAG then Inl IsDuplicate
      else if args ! 1 = lit ''on'' then Inr (ecf\<lparr>xc_ssl_verify := 1\<rparr>)
      else if args ! 1 = lit ''off'' then Inr (ecf\<lparr>xc_ssl_verify := 0\<rparr>)
      else Inl InvalidSslVerify)"

definition cmd_exporter_set_metrics_endpoint :: "bytes list \<Rightarrow> ExporterConfig \<Rightarrow> ExporterConfig conf_result" where
  "cmd_exporter_set_metrics_endpoint args ecf =
     (if xc_metrics_endpoint ecf \<noteq> [] then Inl IsDuplicate else Inr (ecf\<lparr>xc_metrics_endpoint := args ! 1\<rparr>))"

definition cmd_exporter_set_logs_endpoint :: "bytes list \<Rightarrow> ExporterConfig \<Rightarrow> ExporterConfig conf_result" where
  "cmd_exporter_set_logs_endpoint args ecf =
     (if xc_logs_endpoint ecf \<noteq> [] then Inl IsDuplicate else Inr (ecf\<lparr>xc_logs_endpoint := args ! 1\<rparr>))"

definition cmd_exporter_set_traces_endpoint :: "bytes list \<Rightarrow> ExporterConfig \<Rightarrow> ExporterConfig conf_result" where
  "cmd_exporter_set_traces_endpoint args ecf =
     (if xc_traces_endpoint ecf \<noteq> [] then Inl IsDuplicate else Inr (ecf\<lparr>xc_traces_endpoint := args ! 1\<rparr>))"

text \<open>hyper's \<open>HeaderName::from_bytes\<close> and \<open>HeaderValue::from_bytes\<close>, as far as success goes.\<close>

record header_check =
  hc_name_ok :: "bytes \<Rightarrow> bool"
  hc_value_ok :: "bytes \<Rightarrow> bool"

text \<open>\<open>Inl True\<close> is a bad name, \<open>Inl False\<close> a bad value.\<close>

definition check_header_kv :: "header_check \<Rightarrow> bytes \<Rightarrow> bytes \<Rightarrow> bool + unit" where
  "check_header_kv hc name value =
     (if \<not> hc_name_ok hc name then Inl True else if \<not> hc_value_ok hc value then Inl False else Inr ())"

definition validate_header_kv :: "header_check \<Rightarrow> bytes \<Rightarrow> bytes \<Rightarrow> bool" where
  "validate_header_kv hc name value = (case check_header_kv hc name value of Inr _ \<Rightarrow> True | Inl _ \<Rightarrow> False)"

definition cmd_add_exporter_header :: "header_check \<Rightarrow> conf_handler" where
  "cmd_add_exporter_header hc args amcf =
     (if \<not> validate_header_kv hc (args ! 1) (args ! 2) then Inl NgxConfError
      else Inr (amcf\<lparr>mc_exporter_headers := mc_exporter_headers amcf @ [(args ! 1, args ! 2)]\<rparr>))"

definition cmd_exporter_block_add_header :: "header_check \<Rightarrow> conf_handler" where
  "cmd_exporter_block_add_header hc args amcf =
     (if \<not> validate_header_kv hc (args ! 1) (args ! 2) then Inl NgxConfError
      else Inr (amcf\<lparr>mc_exporter_headers := mc_exporter_headers amcf @ [(args ! 1, args ! 2)]\<rparr>))"

definition cmd_exporter_block_set_interval :: conf_handler where
  "cmd_exporter_block_set_interval args amcf =
     (if mc_metric_interval_ms amcf \<noteq> UNSET_U64 then Inl IsDuplicate
      else case parse_duration_ms (args ! 1) of
             Some ms \<Rightarrow> if ms > 0 then Inr (amcf\<lparr>mc_metric_interval_ms := ms\<rparr>) else Inl NgxConfError
           | None \<Rightarrow> Inl NgxConfError)"

definition cmd_exporter_block_ignore_batch_size :: conf_handler where
  "cmd_exporter_block_ignore_batch_size args amcf =
     (case parse_size_bytes (args ! 1) of None \<Rightarrow> Inl NgxConfError | Some _ \<Rightarrow> Inr amcf)"

definition cmd_exporter_block_ignore_batch_count :: conf_handler where
  "cmd_exporter_block_ignore_batch_count args amcf =
     (case parse_size_bytes (args ! 1) of None \<Rightarrow> Inl NgxConfError | Some _ \<Rightarrow> Inr amcf)"

section \<open>The block\<close>

datatype conf_flag = CONF_NOARGS | CONF_TAKE1 | CONF_TAKE2 | CONF_FLAG | CONF_BLOCK

text \<open>Fewest and most tokens; \<open>None\<close> is \<open>usize::MAX\<close>.\<close>

definition cmd_nargs :: "conf_flag list \<Rightarrow> nat \<times> nat option" where
  "cmd_nargs t =
     (if CONF_NOARGS \<in> set t then (1, Some 1)
      else if CONF_TAKE1 \<in> set t then (2, Some 2)
      else if CONF_TAKE2 \<in> set t then (3, Some 3)
      else if CONF_FLAG \<in> set t then (2, Some 2)
      else (1, None))"

record conf_command =
  cm_name :: bytes
  cm_type :: "conf_flag list"
  cm_set :: conf_handler

text \<open>The handlers of exporter settings get \<open>&amcf.exporter\<close>.\<close>

definition on_exporter :: "(bytes list \<Rightarrow> ExporterConfig \<Rightarrow> ExporterConfig conf_result) \<Rightarrow> conf_handler" where
  "on_exporter h args amcf =
     (case h args (mc_exporter amcf) of Inl e \<Rightarrow> Inl e | Inr ecf \<Rightarrow> Inr (amcf\<lparr>mc_exporter := ecf\<rparr>))"

definition exporter_commands :: "header_check \<Rightarrow> conf_command list" where
  "exporter_commands hc =
     [\<lparr>cm_name = lit ''endpoint'', cm_type = [CONF_TAKE1], cm_set = on_exporter cmd_exporter_set_endpoint\<rparr>,
      \<lparr>cm_name = lit ''trusted_certificate'', cm_type = [CONF_TAKE1], cm_set = on_exporter cmd_exporter_set_trusted_cert\<rparr>,
      \<lparr>cm_name = lit ''ssl_certificate'', cm_type = [CONF_TAKE1], cm_set = on_exporter cmd_exporter_set_ssl_cert\<rparr>,
      \<lparr>cm_name = lit ''ssl_certificate_key'', cm_type = [CONF_TAKE1], cm_set = on_exporter cmd_exporter_set_ssl_cert_key\<rparr>,
      \<lparr>cm_name = lit ''ssl_verify'', cm_type = [CONF_TAKE1], cm_set = on_exporter cmd_exporter_set_ssl_verify\<rparr>,
      \<lparr>cm_name = lit ''metrics_endpoint'', cm_type = [CONF_TAKE1], cm_set = on_exporter cmd_exporter_set_metrics_endpoint\<rparr>,
      \<lparr>cm_name = lit ''logs_endpoint'', cm_type = [CONF_TAKE1], cm_set = on_exporter cmd_exporter_set_logs_endpoint\<rparr>,
      \<lparr>cm_name = lit ''traces_endpoint'', cm_type = [CONF_TAKE1], cm_set = on_exporter cmd_exporter_set_traces_endpoint\<rparr>,
      \<lparr>cm_name = lit ''header'', cm_type = [CONF_TAKE2], cm_set = cmd_exporter_block_add_header hc\<rparr>,
      \<lparr>cm_name = lit ''interval'', cm_type = [CONF_TAKE1], cm_set = cmd_exporter_block_set_interval\<rparr>,
      \<lparr>cm_name = lit ''batch_size'', cm_type = [CONF_TAKE1], cm_set = cmd_exporter_block_ignore_batch_size\<rparr>,
      \<lparr>cm_name = lit ''batch_count'', cm_type = [CONF_TAKE1], cm_set = cmd_exporter_block_ignore_batch_count\<rparr>]"

fun dispatch :: "conf_command list \<Rightarrow> conf_handler" where
  "dispatch [] args amcf = Inl NgxConfError"
| "dispatch (cmd # cmds) args amcf =
     (if args ! 0 \<noteq> cm_name cmd then dispatch cmds args amcf
      else
        let (lo, hi) = cmd_nargs (cm_type cmd)
        in if length args < lo \<or> (case hi of None \<Rightarrow> False | Some m \<Rightarrow> length args > m) then Inl NgxConfError
           else cm_set cmd args amcf)"

definition cmd_exporter_block_handler :: "header_check \<Rightarrow> conf_handler" where
  "cmd_exporter_block_handler hc = dispatch (exporter_commands hc)"

text \<open>
  \<open>conf_parse\<close> stands for \<open>ngx_conf_parse\<close>, which calls the block's handler for each directive.
\<close>

definition cmd_set_exporter_block :: "header_check \<Rightarrow> (conf_handler \<Rightarrow> MainConfig \<Rightarrow> MainConfig conf_result) \<Rightarrow> conf_handler" where
  "cmd_set_exporter_block hc conf_parse args amcf =
     (if exporter_is_set (mc_exporter amcf) then Inl NgxConfError
      else case conf_parse (cmd_exporter_block_handler hc) amcf of
             Inl e \<Rightarrow> Inl e
           | Inr amcf' \<Rightarrow> if xc_endpoint (mc_exporter amcf') = [] then Inl NgxConfError else Inr amcf')"

section \<open>Other main-level directives\<close>

definition cmd_add_resource_attr :: conf_handler where
  "cmd_add_resource_attr args amcf =
     Inr (amcf\<lparr>mc_resource_attrs := mc_resource_attrs amcf @ [(args ! 1, args ! 2)]\<rparr>)"

definition cmd_set_metric_interval :: conf_handler where
  "cmd_set_metric_interval args amcf =
     (if mc_metric_interval_ms amcf \<noteq> UNSET_U64 then Inl IsDuplicate
      else case parse_duration_ms (args ! 1) of
             Some ms \<Rightarrow> if ms > 0 then Inr (amcf\<lparr>mc_metric_interval_ms := ms\<rparr>) else Inl NgxConfError
           | None \<Rightarrow> Inl NgxConfError)"

definition cmd_set_export_protocol :: conf_handler where
  "cmd_set_export_protocol args amcf =
     (if mc_export_protocol amcf \<noteq> None then Inl IsDuplicate
      else if args ! 1 = lit ''otlp_http'' then Inr (amcf\<lparr>mc_export_protocol := Some OtlpHttp\<rparr>)
      else if args ! 1 = lit ''otlp_grpc'' then Inr (amcf\<lparr>mc_export_protocol := Some OtlpGrpc\<rparr>)
      else Inl NgxConfError)"

definition parse_error_log_level_floor :: "bytes list \<Rightarrow> nat option" where
  "parse_error_log_level_floor args =
     (if length args > 1 then parse_error_log_level (args ! 1) else Some NGX_LOG_ERR)"

text \<open>
  \<open>cmd_set_error_log\<close> also inserts the writer's node into \<open>cycle->new_log\<close>; \<open>alloc\<close> tells whether the pool is there
  and both allocations succeed. The node's state is zeroed memory but for the level.
\<close>

definition zeroed_writer_state :: OtelErrorWriterState where
  "zeroed_writer_state =
     \<lparr>ew_busy = False, ew_cleanup = False, ew_level_floor = 0, ew_logs_zone = False, ew_coalesce_table = None,
      ew_coalesce_enabled = False, ew_error_ring = None, ew_error_rate = None\<rparr>"

definition cmd_set_error_log ::
  "bool \<Rightarrow> bytes list \<Rightarrow> MainConfig \<times> log_node list \<Rightarrow> (MainConfig \<times> log_node list) conf_result" where
  "cmd_set_error_log alloc args =
     (\<lambda>(amcf, chain).
        if mc_error_log_enabled amcf then Inl NgxConfError
        else case parse_error_log_level_floor args of
               None \<Rightarrow> Inl NgxConfError
             | Some level_floor \<Rightarrow>
                 if \<not> alloc then Inl NgxConfError
                 else
                   let new_log = \<lparr>ln_level = level_floor,
                         ln_state = Some (zeroed_writer_state\<lparr>ew_level_floor := of_nat level_floor\<rparr>)\<rparr>
                   in Inr (amcf\<lparr>mc_error_log_enabled := True, mc_error_log_level := level_floor\<rparr>,
                           otel_log_insert new_log chain))"

definition cmd_set_error_log_coalesce :: conf_handler where
  "cmd_set_error_log_coalesce args amcf =
     (if args ! 1 = lit ''on'' then Inr (amcf\<lparr>mc_error_log_coalesce := True\<rparr>)
      else if args ! 1 = lit ''off'' then Inr (amcf\<lparr>mc_error_log_coalesce := False\<rparr>)
      else Inl NgxConfError)"

section \<open>Location-level directives\<close>

text \<open>\<open>compile\<close> stands for \<open>compile_complex_value\<close> over \<open>ngx_http_compile_complex_value\<close>; \<open>None\<close> is its null.\<close>

definition cmd_set_otel_trace :: "(bytes \<Rightarrow> 'cv option) \<Rightarrow> bytes list \<Rightarrow> 'cv LocationConf \<Rightarrow> 'cv LocationConf conf_result" where
  "cmd_set_otel_trace compile args lcf =
     (if lc_otel_trace lcf \<noteq> None then Inl IsDuplicate
      else case compile (args ! 1) of
             None \<Rightarrow> Inl NgxConfError
           | Some cv \<Rightarrow> Inr (lcf\<lparr>lc_otel_trace := Some cv\<rparr>))"

definition cmd_set_otel_log_export ::
  "(bytes \<Rightarrow> 'cv option) \<Rightarrow> bytes list \<Rightarrow> 'cv LocationConf \<times> MainConfig \<Rightarrow> ('cv LocationConf \<times> MainConfig) conf_result" where
  "cmd_set_otel_log_export compile args =
     (\<lambda>(lcf, amcf).
        if log_export_is_set lcf then Inl IsDuplicate
        else
          case (if length args < 2 then Inr (LogExport_All, lcf)
                else if args ! 1 = lit ''on'' then Inr (LogExport_All, lcf)
                else if args ! 1 = lit ''off'' then Inr (LogExport_Off, lcf)
                else if length (args ! 1) \<ge> 3 \<and> take 3 (args ! 1) = lit ''if=''
                then (case compile (drop 3 (args ! 1)) of
                        None \<Rightarrow> Inl NgxConfError
                      | Some cv \<Rightarrow> Inr (LogExport_If, lcf\<lparr>lc_log_export_cv := Some cv\<rparr>))
                else Inl NgxConfError) of
            Inl e \<Rightarrow> Inl e
          | Inr (mode, lcf') \<Rightarrow>
              Inr (set_log_export_mode mode lcf',
                   if mode = LogExport_All \<or> mode = LogExport_If then amcf\<lparr>mc_any_log_export := True\<rparr> else amcf))"

definition cmd_set_otel_trace_context :: "bytes list \<Rightarrow> 'cv LocationConf \<Rightarrow> 'cv LocationConf conf_result" where
  "cmd_set_otel_trace_context args lcf =
     (if trace_context_is_set lcf then Inl IsDuplicate
      else if args ! 1 = lit ''ignore'' then Inr (set_trace_context Ignore lcf)
      else if args ! 1 = lit ''extract'' then Inr (set_trace_context Extract lcf)
      else if args ! 1 = lit ''inject'' then Inr (set_trace_context Inject lcf)
      else if args ! 1 = lit ''propagate'' then Inr (set_trace_context Propagate lcf)
      else Inl NgxConfError)"

definition cmd_set_otel_span_name :: "(bytes \<Rightarrow> 'cv option) \<Rightarrow> bytes list \<Rightarrow> 'cv LocationConf \<Rightarrow> 'cv LocationConf conf_result" where
  "cmd_set_otel_span_name compile args lcf =
     (if lc_span_name_cv lcf \<noteq> None then Inl IsDuplicate
      else case compile (args ! 1) of
             None \<Rightarrow> Inl NgxConfError
           | Some cv \<Rightarrow> Inr (lcf\<lparr>lc_span_name_cv := Some cv\<rparr>))"

definition cmd_add_otel_span_attr :: "bytes list \<Rightarrow> 'cv LocationConf \<Rightarrow> 'cv LocationConf conf_result" where
  "cmd_add_otel_span_attr args lcf = Inr (lcf\<lparr>lc_span_attrs := lc_span_attrs lcf @ [(args ! 1, args ! 2)]\<rparr>)"

section \<open>What an accepted block means\<close>

text \<open>
  \<open>run_directives\<close>: the directives of a block, each passed to the handler in turn up to the first error, which is
  how nginx documents \<open>ngx_conf_parse\<close> with a custom handler.
\<close>

fun run_directives :: "bytes list list \<Rightarrow> conf_handler \<Rightarrow> MainConfig \<Rightarrow> MainConfig conf_result" where
  "run_directives [] h amcf = Inr amcf"
| "run_directives (d # ds) h amcf = (case h d amcf of Inl e \<Rightarrow> Inl e | Inr amcf' \<Rightarrow> run_directives ds h amcf')"

definition arg_values :: "string \<Rightarrow> bytes list list \<Rightarrow> bytes list" where
  "arg_values name ds = map (\<lambda>d. d ! 1) (filter (\<lambda>d. d ! 0 = lit name) ds)"

text \<open>A setting given at most once: empty values leave it unset.\<close>

definition settles :: "bytes list \<Rightarrow> bytes \<Rightarrow> bool" where
  "settles vs v \<longleftrightarrow> (\<exists>k. vs = replicate k [] @ (if v = [] then [] else [v]))"

definition string_settings :: "(string \<times> (ExporterConfig \<Rightarrow> bytes)) list" where
  "string_settings =
     [(''endpoint'', xc_endpoint), (''trusted_certificate'', xc_trusted_cert), (''ssl_certificate'', xc_ssl_cert),
      (''ssl_certificate_key'', xc_ssl_cert_key), (''metrics_endpoint'', xc_metrics_endpoint),
      (''logs_endpoint'', xc_logs_endpoint), (''traces_endpoint'', xc_traces_endpoint)]"

definition verify_flag :: "bytes list \<Rightarrow> int" where
  "verify_flag vs = (if vs = [] then UNSET_FLAG else if hd vs = lit ''on'' then 1 else 0)"

lemma of_char_u8: "unat (of_char c :: u8) = (of_char c :: nat)"
proof -
  have "(of_char c :: u8) = of_nat (of_char c :: nat)"
    by (cases c) (simp add: of_char_def)
  moreover have "unat (of_nat n :: u8) = n" if "n < 256" for n
    using that by (simp add: unat_of_nat)
  ultimately show ?thesis
    using nat_of_char_less_256 [of c] by metis
qed

lemma lit_eq_iff [simp]: "lit a = lit b \<longleftrightarrow> a = b"
proof -
  have "inj (of_char :: char \<Rightarrow> u8)"
    by (intro injI) (metis of_char_u8 of_char_eq_iff)
  then show ?thesis
    by (simp add: lit_def inj_map_eq_map)
qed

lemma run_directives_snoc:
  "run_directives (ds @ [d]) h amcf =
     (case run_directives ds h amcf of Inl e \<Rightarrow> Inl e | Inr a \<Rightarrow> h d a)"
  by (induction ds arbitrary: amcf) (auto split: sum.splits)

lemma arg_values_snoc: "arg_values name (ds @ [d]) = arg_values name ds @ (if d ! 0 = lit name then [d ! 1] else [])"
  by (simp add: arg_values_def)

lemma dispatch_InrE:
  assumes "dispatch cmds d a = Inr a'"
  obtains cmd where "cmd \<in> set cmds" "d ! 0 = cm_name cmd" "cm_set cmd d a = Inr a'"
    "fst (cmd_nargs (cm_type cmd)) \<le> length d"
proof -
  have "\<exists>cmd\<in>set cmds. d ! 0 = cm_name cmd \<and> cm_set cmd d a = Inr a' \<and> fst (cmd_nargs (cm_type cmd)) \<le> length d"
    using assms by (induction cmds d a rule: dispatch.induct) (auto split: if_splits prod.splits)
  with that show ?thesis
    by blast
qed

lemma on_exporter_InrE:
  assumes "on_exporter h d a = Inr a'"
  obtains ecf where "h d (mc_exporter a) = Inr ecf" "a' = a\<lparr>mc_exporter := ecf\<rparr>"
  using assms by (auto simp: on_exporter_def split: sum.splits)

lemmas block_handler_defs =
  cmd_exporter_set_endpoint_def cmd_exporter_set_trusted_cert_def cmd_exporter_set_ssl_cert_def
  cmd_exporter_set_ssl_cert_key_def cmd_exporter_set_ssl_verify_def cmd_exporter_set_metrics_endpoint_def
  cmd_exporter_set_logs_endpoint_def cmd_exporter_set_traces_endpoint_def cmd_exporter_block_add_header_def
  cmd_exporter_block_set_interval_def cmd_exporter_block_ignore_batch_size_def cmd_exporter_block_ignore_batch_count_def
  on_exporter_def

lemma block_handler_cases:
  assumes "cmd_exporter_block_handler hc d a = Inr a'"
  obtains cmd where "cmd \<in> set (exporter_commands hc)" "d ! 0 = cm_name cmd" "cm_set cmd d a = Inr a'"
  using assms dispatch_InrE unfolding cmd_exporter_block_handler_def by metis

lemma string_step:
  assumes s: "(name, get) \<in> set string_settings" and ok: "cmd_exporter_block_handler hc d a = Inr a'"
  shows "get (mc_exporter a') = (if d ! 0 = lit name then d ! 1 else get (mc_exporter a)) \<and>
    (d ! 0 = lit name \<longrightarrow> get (mc_exporter a) = [])"
proof -
  obtain cmd where cmd: "cmd \<in> set (exporter_commands hc)" "d ! 0 = cm_name cmd" "cm_set cmd d a = Inr a'"
    using ok by (rule block_handler_cases)
  show ?thesis
    using s cmd(1) unfolding string_settings_def exporter_commands_def list.set insert_iff empty_iff
    by (elim disjE FalseE; use cmd(2,3) in \<open>clarsimp simp: block_handler_defs split: if_splits option.splits sum.splits\<close>)
qed

lemma list_step:
  assumes ok: "cmd_exporter_block_handler hc d a = Inr a'"
  shows "mc_exporter_headers a' = mc_exporter_headers a @ (if d ! 0 = lit ''header'' then [(d ! 1, d ! 2)] else []) \<and>
    (d ! 0 = lit ''header'' \<longrightarrow> hc_name_ok hc (d ! 1) \<and> hc_value_ok hc (d ! 2))"
    "if d ! 0 = lit ''interval''
     then mc_metric_interval_ms a = UNSET_U64 \<and> parse_duration_ms (d ! 1) = Some (mc_metric_interval_ms a') \<and> 0 < mc_metric_interval_ms a'
     else mc_metric_interval_ms a' = mc_metric_interval_ms a"
    "if d ! 0 = lit ''ssl_verify''
     then xc_ssl_verify (mc_exporter a) = UNSET_FLAG \<and> d ! 1 \<in> {lit ''on'', lit ''off''} \<and>
       xc_ssl_verify (mc_exporter a') = (if d ! 1 = lit ''on'' then 1 else 0)
     else xc_ssl_verify (mc_exporter a') = xc_ssl_verify (mc_exporter a)"
proof -
  obtain cmd where cmd: "cmd \<in> set (exporter_commands hc)" "d ! 0 = cm_name cmd" "cm_set cmd d a = Inr a'"
    using ok by (rule block_handler_cases)
  show "mc_exporter_headers a' = mc_exporter_headers a @ (if d ! 0 = lit ''header'' then [(d ! 1, d ! 2)] else []) \<and>
    (d ! 0 = lit ''header'' \<longrightarrow> hc_name_ok hc (d ! 1) \<and> hc_value_ok hc (d ! 2))"
    using cmd(1) unfolding exporter_commands_def list.set insert_iff empty_iff
    by (elim disjE FalseE; use cmd(2,3) in \<open>clarsimp simp: block_handler_defs validate_header_kv_def check_header_kv_def
        split: if_splits option.splits sum.splits\<close>)
  show "if d ! 0 = lit ''interval''
     then mc_metric_interval_ms a = UNSET_U64 \<and> parse_duration_ms (d ! 1) = Some (mc_metric_interval_ms a') \<and> 0 < mc_metric_interval_ms a'
     else mc_metric_interval_ms a' = mc_metric_interval_ms a"
    using cmd(1) unfolding exporter_commands_def list.set insert_iff empty_iff
    by (elim disjE FalseE; use cmd(2,3) in \<open>clarsimp simp: block_handler_defs split: if_splits option.splits sum.splits\<close>)
  show "if d ! 0 = lit ''ssl_verify''
     then xc_ssl_verify (mc_exporter a) = UNSET_FLAG \<and> d ! 1 \<in> {lit ''on'', lit ''off''} \<and>
       xc_ssl_verify (mc_exporter a') = (if d ! 1 = lit ''on'' then 1 else 0)
     else xc_ssl_verify (mc_exporter a') = xc_ssl_verify (mc_exporter a)"
    using cmd(1) unfolding exporter_commands_def list.set insert_iff empty_iff
    by (elim disjE FalseE; use cmd(2,3) in \<open>clarsimp simp: block_handler_defs split: if_splits option.splits sum.splits\<close>)
qed

lemma run_directives_snocE:
  assumes "run_directives (ds @ [d]) h amcf = Inr a'"
  obtains a where "run_directives ds h amcf = Inr a" "h d a = Inr a'"
  using assms by (auto simp: run_directives_snoc split: sum.splits)

lemma settles_snoc: "settles vs [] \<Longrightarrow> settles (vs @ [v]) v"
proof -
  assume "settles vs []"
  then obtain k where "vs = replicate k []"
    by (auto simp: settles_def)
  then show ?thesis
    unfolding settles_def
    by (cases "v = []") (auto simp: replicate_append_same intro: exI [of _ "Suc k"] exI [of _ k])
qed

lemma run_strings:
  assumes s: "(name, get) \<in> set string_settings" and init: "get (mc_exporter amcf) = []"
  shows "run_directives ds (cmd_exporter_block_handler hc) amcf = Inr a \<Longrightarrow> settles (arg_values name ds) (get (mc_exporter a))"
proof (induction ds arbitrary: a rule: rev_induct)
  case Nil
  then show ?case
    using init by (auto simp: settles_def arg_values_def)
next
  case (snoc d ds)
  obtain b where b: "run_directives ds (cmd_exporter_block_handler hc) amcf = Inr b" "cmd_exporter_block_handler hc d b = Inr a"
    using snoc.prems by (rule run_directives_snocE)
  show ?case
    using string_step [OF s b(2)] snoc.IH [OF b(1)] settles_snoc by (auto simp: arg_values_snoc split: if_splits)
qed

lemma run_headers:
  "run_directives ds (cmd_exporter_block_handler hc) amcf = Inr a \<Longrightarrow>
     mc_exporter_headers a = mc_exporter_headers amcf @ map (\<lambda>d. (d ! 1, d ! 2)) (filter (\<lambda>d. d ! 0 = lit ''header'') ds) \<and>
     (\<forall>d\<in>set ds. d ! 0 = lit ''header'' \<longrightarrow> hc_name_ok hc (d ! 1) \<and> hc_value_ok hc (d ! 2))"
proof (induction ds arbitrary: a rule: rev_induct)
  case (snoc d ds)
  obtain b where b: "run_directives ds (cmd_exporter_block_handler hc) amcf = Inr b" "cmd_exporter_block_handler hc d b = Inr a"
    using snoc.prems by (rule run_directives_snocE)
  show ?case
    using list_step(1) [OF b(2)] snoc.IH [OF b(1)] by auto
qed simp

definition interval_settles :: "bytes list \<Rightarrow> u64 \<Rightarrow> bool" where
  "interval_settles vs ms \<longleftrightarrow>
     (\<exists>k. map parse_duration_ms vs = replicate k (Some UNSET_U64) @ (if ms = UNSET_U64 then [] else [Some ms]))"

lemma interval_settles_snoc:
  "interval_settles vs UNSET_U64 \<Longrightarrow> parse_duration_ms v = Some ms \<Longrightarrow> interval_settles (vs @ [v]) ms"
proof -
  assume "interval_settles vs UNSET_U64" and v: "parse_duration_ms v = Some ms"
  then obtain k where "map parse_duration_ms vs = replicate k (Some UNSET_U64)"
    by (auto simp: interval_settles_def)
  with v show ?thesis
    unfolding interval_settles_def
    by (cases "ms = UNSET_U64") (auto simp: replicate_append_same intro: exI [of _ "Suc k"] exI [of _ k])
qed

lemma run_interval:
  assumes init: "mc_metric_interval_ms amcf = UNSET_U64"
  shows "run_directives ds (cmd_exporter_block_handler hc) amcf = Inr a \<Longrightarrow>
    interval_settles (arg_values ''interval'' ds) (mc_metric_interval_ms a)"
proof (induction ds arbitrary: a rule: rev_induct)
  case Nil
  then show ?case
    using init by (auto simp: interval_settles_def arg_values_def)
next
  case (snoc d ds)
  obtain b where b: "run_directives ds (cmd_exporter_block_handler hc) amcf = Inr b" "cmd_exporter_block_handler hc d b = Inr a"
    using snoc.prems by (rule run_directives_snocE)
  show ?case
    using list_step(2) [OF b(2)] snoc.IH [OF b(1)] interval_settles_snoc by (auto simp: arg_values_snoc split: if_splits)
qed

lemma run_verify:
  assumes init: "xc_ssl_verify (mc_exporter amcf) = UNSET_FLAG"
  shows "run_directives ds (cmd_exporter_block_handler hc) amcf = Inr a \<Longrightarrow>
    length (arg_values ''ssl_verify'' ds) \<le> 1 \<and> set (arg_values ''ssl_verify'' ds) \<subseteq> {lit ''on'', lit ''off''} \<and>
    xc_ssl_verify (mc_exporter a) = verify_flag (arg_values ''ssl_verify'' ds)"
proof (induction ds arbitrary: a rule: rev_induct)
  case Nil
  then show ?case
    using init by (auto simp: verify_flag_def arg_values_def)
next
  case (snoc d ds)
  obtain b where b: "run_directives ds (cmd_exporter_block_handler hc) amcf = Inr b" "cmd_exporter_block_handler hc d b = Inr a"
    using snoc.prems by (rule run_directives_snocE)
  have IH: "length (arg_values ''ssl_verify'' ds) \<le> 1" "set (arg_values ''ssl_verify'' ds) \<subseteq> {lit ''on'', lit ''off''}"
    "xc_ssl_verify (mc_exporter b) = verify_flag (arg_values ''ssl_verify'' ds)"
    using snoc.IH [OF b(1)] by blast+
  show ?case
  proof (cases "d ! 0 = lit ''ssl_verify''")
    case True
    then have step: "verify_flag (arg_values ''ssl_verify'' ds) = UNSET_FLAG" "d ! 1 \<in> {lit ''on'', lit ''off''}"
      "xc_ssl_verify (mc_exporter a) = (if d ! 1 = lit ''on'' then 1 else 0)"
      using list_step(3) [OF b(2)] IH(3) by simp_all
    then have "arg_values ''ssl_verify'' ds = []"
      by (simp add: verify_flag_def UNSET_FLAG_def split: if_splits)
    with True step show ?thesis
      by (simp add: arg_values_snoc verify_flag_def)
  next
    case False
    then show ?thesis
      using list_step(3) [OF b(2)] IH by (simp add: arg_values_snoc)
  qed
qed

section \<open>Property\<close>


definition demo_header_check :: header_check where
  "demo_header_check = \<lparr>hc_name_ok = (\<lambda>n. n \<noteq> []), hc_value_ok = (\<lambda>_. True)\<rparr>"

definition demo_block :: "bytes list list" where
  "demo_block =
     [[lit ''endpoint'', lit ''http://collector:4318''], [lit ''header'', lit ''x-tenant'', lit ''a''],
      [lit ''interval'', lit ''2s''], [lit ''ssl_verify'', lit ''off'']]"


end
