(* ===== verification/Histogram.thy ===== *)
theory Histogram
  imports Otel_Data_Model
begin

text \<open>
  The two histogram slots of the metrics zone, \<^verbatim>\<open>src/src/shm/histogram.rs\<close>: the exponential
  histogram that buckets request durations and the explicit-boundary histogram of sizes and upstream
  timings. A slot is a row of 64-bit atomic counters with one writer (a worker) and one reader (the
  exporter), so an observation is the sequence of the \<open>fetch_add\<close>s that \<open>record\<close> performs, and a
  snapshot reads each counter at its own moment of that sequence. Additions wrap at 64 bits.

  Shown: the integer table bucketing is the base-\<open>2^(1/8)\<close> mapping of the OpenTelemetry data model
  on seconds; the buckets partition the observations; a snapshot taken while the worker is recording
  never shows more observations in \<open>count\<close> than in the buckets.
\<close>

section \<open>Model\<close>

definition DURATION_BOUNDS_MS :: "u64 list" where
  "DURATION_BOUNDS_MS = [5, 10, 25, 50, 75, 100, 250, 500, 750, 1000, 2500, 5000, 7500, 10000]"

definition DURATION_BOUNDS_S :: "f64 list" where
  "DURATION_BOUNDS_S = [5 / 1000, 1 / 100, 25 / 1000, 5 / 100, 75 / 1000, 1 / 10, 25 / 100, 5 / 10,
     75 / 100, 1, 25 / 10, 5, 75 / 10, 10]"

definition N_DURATION_BUCKETS :: nat where "N_DURATION_BUCKETS = 15"

definition EXP_HISTOGRAM_SCALE :: int where "EXP_HISTOGRAM_SCALE = 3"

definition N_EXP_BUCKETS :: nat where "N_EXP_BUCKETS = 192"

definition EXP_HISTOGRAM_BUCKET_OFFSET :: int where "EXP_HISTOGRAM_BUCKET_OFFSET = - 160"

definition SECONDS_BUCKET_UPPER_US :: "u64 list" where
  "SECONDS_BUCKET_UPPER_US = map of_int
     [1, 1, 1, 1, 1, 1, 1, 1,
      2, 2, 2, 2, 2, 3, 3, 3,
      4, 4, 4, 5, 5, 6, 6, 7,
      8, 9, 9, 10, 11, 12, 13, 15,
      16, 18, 19, 21, 23, 25, 27, 30,
      33, 36, 39, 43, 47, 51, 55, 61,
      66, 72, 79, 86, 94, 102, 111, 122,
      133, 145, 158, 172, 188, 205, 223, 244,
      266, 290, 316, 345, 376, 410, 447, 488,
      532, 580, 633, 690, 753, 821, 895, 976,
      1064, 1161, 1266, 1381, 1506, 1642, 1791, 1953,
      2129, 2322, 2532, 2762, 3012, 3284, 3582, 3906,
      4259, 4645, 5065, 5524, 6024, 6569, 7164, 7812,
      8519, 9290, 10131, 11048, 12048, 13139, 14328, 15625,
      17039, 18581, 20263, 22097, 24097, 26278, 28656, 31250,
      34078, 37162, 40526, 44194, 48194, 52556, 57312, 62500,
      68156, 74325, 81052, 88388, 96388, 105112, 114625, 125000,
      136313, 148650, 162104, 176776, 192776, 210224, 229251, 250000,
      272626, 297301, 324209, 353553, 385552, 420448, 458502, 500000,
      545253, 594603, 648419, 707106, 771105, 840896, 917004, 1000000,
      1090507, 1189207, 1296839, 1414213, 1542210, 1681792, 1834008, 2000000,
      2181015, 2378414, 2593679, 2828427, 3084421, 3363585, 3668016, 4000000,
      4362030, 4756828, 5187358, 5656854, 6168843, 6727171, 7336032, 8000000,
      8724061, 9513656, 10374716, 11313708, 12337686, 13454342, 14672064, 16000000]"

definition BYTES_BOUNDS :: "u64 list" where
  "BYTES_BOUNDS = [128, 512, 4096, 65536, 524288, 4194304]"

definition N_BYTES_BUCKETS :: nat where "N_BYTES_BUCKETS = 7"

text \<open>
  \<open>partition_point\<close> of a slice that is partitioned by the predicate: the number of leading elements
  that satisfy it.
\<close>

definition partition_point :: "('a \<Rightarrow> bool) \<Rightarrow> 'a list \<Rightarrow> nat" where
  "partition_point P xs = length (takeWhile P xs)"

text \<open>One \<open>fetch_add\<close> on a counter of a slot.\<close>

datatype counter_add = AddBucket nat | AddZero | AddSum u64 | AddCount

record ExpHistogramSlot =
  eh_buckets :: "u64 list"
  eh_zero_count :: u64
  eh_sum :: u64
  eh_count :: u64

definition empty_exp_slot :: ExpHistogramSlot where
  "empty_exp_slot = \<lparr>eh_buckets = replicate N_EXP_BUCKETS 0, eh_zero_count = 0, eh_sum = 0, eh_count = 0\<rparr>"

fun exp_apply :: "counter_add \<Rightarrow> ExpHistogramSlot \<Rightarrow> ExpHistogramSlot" where
  "exp_apply (AddBucket i) s = s\<lparr>eh_buckets := (eh_buckets s)[i := eh_buckets s ! i + 1]\<rparr>"
| "exp_apply AddZero s = s\<lparr>eh_zero_count := eh_zero_count s + 1\<rparr>"
| "exp_apply (AddSum v) s = s\<lparr>eh_sum := eh_sum s + v\<rparr>"
| "exp_apply AddCount s = s\<lparr>eh_count := eh_count s + 1\<rparr>"

definition exp_bucket :: "u64 \<Rightarrow> nat" where
  "exp_bucket value_us =
     min (partition_point (\<lambda>t. t < value_us) SECONDS_BUCKET_UPPER_US) (N_EXP_BUCKETS - 1)"

definition exp_record_adds :: "u64 \<Rightarrow> counter_add list" where
  "exp_record_adds value_us =
     (if value_us = 0 then [AddZero] else [AddBucket (exp_bucket value_us)]) @ [AddSum value_us, AddCount]"

definition exp_record :: "u64 \<Rightarrow> ExpHistogramSlot \<Rightarrow> ExpHistogramSlot" where
  "exp_record value_us s = fold exp_apply (exp_record_adds value_us) s"

text \<open>
  The snapshot reads \<open>count\<close>, then the buckets in order, then \<open>zero_count\<close> and \<open>sum\<close>. The slot at
  moment \<open>t\<close> is \<open>st t\<close>; the moments of the reads are \<open>t0\<close>, the elements of \<open>ts\<close>, \<open>tz\<close> and \<open>tu\<close>.
\<close>

type_synonym exp_snap = "u64 list \<times> u64 \<times> u64 \<times> u64"

definition exp_snapshot_at ::
  "(nat \<Rightarrow> ExpHistogramSlot) \<Rightarrow> nat \<Rightarrow> nat list \<Rightarrow> nat \<Rightarrow> nat \<Rightarrow> exp_snap" where
  "exp_snapshot_at st t0 ts tz tu =
     (let count = eh_count (st t0);
          buckets = map (\<lambda>i. eh_buckets (st (ts ! i)) ! i) [0..<N_EXP_BUCKETS];
          zero_count = eh_zero_count (st tz);
          tot = eh_sum (st tu)
      in (buckets, zero_count, tot, count))"

definition exp_snapshot :: "ExpHistogramSlot \<Rightarrow> exp_snap" where
  "exp_snapshot s = exp_snapshot_at (\<lambda>_. s) 0 (replicate N_EXP_BUCKETS 0) 0 0"

record Histogram =
  hg_bucket :: "u64 list"
  hg_sum :: u64
  hg_count :: u64

definition empty_histogram :: "nat \<Rightarrow> Histogram" where
  "empty_histogram n = \<lparr>hg_bucket = replicate n 0, hg_sum = 0, hg_count = 0\<rparr>"

fun hist_apply :: "counter_add \<Rightarrow> Histogram \<Rightarrow> Histogram" where
  "hist_apply (AddBucket i) h = h\<lparr>hg_bucket := (hg_bucket h)[i := hg_bucket h ! i + 1]\<rparr>"
| "hist_apply AddZero h = h"
| "hist_apply (AddSum v) h = h\<lparr>hg_sum := hg_sum h + v\<rparr>"
| "hist_apply AddCount h = h\<lparr>hg_count := hg_count h + 1\<rparr>"

definition hist_record_adds :: "u64 list \<Rightarrow> u64 \<Rightarrow> counter_add list" where
  "hist_record_adds bounds v = [AddBucket (partition_point (\<lambda>b. b < v) bounds), AddSum v, AddCount]"

definition hist_record :: "u64 list \<Rightarrow> u64 \<Rightarrow> Histogram \<Rightarrow> Histogram" where
  "hist_record bounds v h = fold hist_apply (hist_record_adds bounds v) h"

type_synonym hist_snap = "u64 list \<times> u64 \<times> u64"

definition hist_snapshot_at ::
  "(nat \<Rightarrow> Histogram) \<Rightarrow> nat \<Rightarrow> nat \<Rightarrow> nat list \<Rightarrow> nat \<Rightarrow> hist_snap" where
  "hist_snapshot_at st n t0 ts tu =
     (let count = hg_count (st t0);
          counts = map (\<lambda>i. hg_bucket (st (ts ! i)) ! i) [0..<n];
          total = hg_sum (st tu)
      in (counts, total, count))"

definition hist_snapshot :: "Histogram \<Rightarrow> hist_snap" where
  "hist_snapshot h =
     (let n = length (hg_bucket h) in hist_snapshot_at (\<lambda>_. h) n 0 (replicate n 0) 0)"

section \<open>Counters as sums over the additions\<close>

lemma partition_point_le: "partition_point P xs \<le> length xs"
  by (simp add: partition_point_def length_takeWhile_le)

lemma partition_point_eq:
  assumes "sorted (xs :: 'a::linorder list)" "i \<le> length xs"
  shows "partition_point (\<lambda>b. b < v) xs = i \<longleftrightarrow>
    (i = 0 \<or> xs ! (i - 1) < v) \<and> (i = length xs \<or> v \<le> xs ! i)"
  using assms
proof (induction xs arbitrary: i)
  case Nil
  then show ?case by (simp add: partition_point_def)
next
  case (Cons x xs)
  show ?case
  proof (cases i)
    case 0
    then show ?thesis by (auto simp: partition_point_def)
  next
    case (Suc j)
    have IH: "partition_point (\<lambda>b. b < v) xs = j \<longleftrightarrow>
        (j = 0 \<or> xs ! (j - 1) < v) \<and> (j = length xs \<or> v \<le> xs ! j)"
      using Cons Suc by simp
    have "x \<le> xs ! (j - 1)" if "j \<noteq> 0"
      using Cons.prems Suc that by simp
    moreover have "partition_point (\<lambda>b. b < v) (x # xs) =
        (if x < v then Suc (partition_point (\<lambda>b. b < v) xs) else 0)"
      by (simp add: partition_point_def)
    ultimately show ?thesis
      using IH Suc by (cases j) auto
  qed
qed

lemma length_exp_fold [simp]: "length (eh_buckets (fold exp_apply p s)) = length (eh_buckets s)"
proof (induction p arbitrary: s)
  case (Cons a p)
  then show ?case by (cases a) auto
qed simp

lemma exp_fold_bucket:
  "i < length (eh_buckets s) \<Longrightarrow>
   eh_buckets (fold exp_apply p s) ! i = eh_buckets s ! i + of_nat (count_list p (AddBucket i))"
proof (induction p arbitrary: s)
  case (Cons a p)
  then show ?case by (cases a) (auto simp: nth_list_update)
qed simp

lemma exp_fold_zero: "eh_zero_count (fold exp_apply p s) = eh_zero_count s + of_nat (count_list p AddZero)"
proof (induction p arbitrary: s)
  case (Cons a p)
  then show ?case by (cases a) auto
qed simp

lemma exp_fold_count: "eh_count (fold exp_apply p s) = eh_count s + of_nat (count_list p AddCount)"
proof (induction p arbitrary: s)
  case (Cons a p)
  then show ?case by (cases a) auto
qed simp

primrec sum_added :: "counter_add \<Rightarrow> u64" where
  "sum_added (AddBucket i) = 0" | "sum_added AddZero = 0" | "sum_added (AddSum v) = v" | "sum_added AddCount = 0"

lemma exp_fold_sum: "eh_sum (fold exp_apply p s) = eh_sum s + sum_list (map sum_added p)"
proof (induction p arbitrary: s)
  case (Cons a p)
  then show ?case by (cases a) (auto simp: algebra_simps)
qed simp

lemma length_hist_fold [simp]: "length (hg_bucket (fold hist_apply p h)) = length (hg_bucket h)"
proof (induction p arbitrary: h)
  case (Cons a p)
  then show ?case by (cases a) auto
qed simp

lemma hist_fold_bucket:
  "i < length (hg_bucket h) \<Longrightarrow>
   hg_bucket (fold hist_apply p h) ! i = hg_bucket h ! i + of_nat (count_list p (AddBucket i))"
proof (induction p arbitrary: h)
  case (Cons a p)
  then show ?case by (cases a) (auto simp: nth_list_update)
qed simp

lemma hist_fold_count: "hg_count (fold hist_apply p h) = hg_count h + of_nat (count_list p AddCount)"
proof (induction p arbitrary: h)
  case (Cons a p)
  then show ?case by (cases a) auto
qed simp

lemma hist_fold_sum: "hg_sum (fold hist_apply p h) = hg_sum h + sum_list (map sum_added p)"
proof (induction p arbitrary: h)
  case (Cons a p)
  then show ?case by (cases a) (auto simp: algebra_simps)
qed simp

text \<open>The observations that have reached a bucket or the zero counter.\<close>

definition placed :: "counter_add list \<Rightarrow> nat" where
  "placed p = length (filter (\<lambda>a. a = AddZero \<or> (\<exists>i. a = AddBucket i)) p)"

lemma placed_simps [simp]:
  "placed [] = 0" "placed (AddZero # p) = Suc (placed p)" "placed (AddBucket i # p) = Suc (placed p)"
  "placed (AddSum v # p) = placed p" "placed (AddCount # p) = placed p"
  "placed (p @ q) = placed p + placed q"
  by (simp_all add: placed_def)

lemma placed_eq:
  assumes "\<And>i. AddBucket i \<in> set p \<Longrightarrow> i < n"
  shows "(\<Sum>i<n. count_list p (AddBucket i)) + count_list p AddZero = placed p"
  using assms
proof (induction p)
  case (Cons a p)
  have IH: "(\<Sum>i<n. count_list p (AddBucket i)) + count_list p AddZero = placed p"
    using Cons by simp
  show ?case
  proof (cases a)
    case (AddBucket j)
    have "j < n" using Cons.prems AddBucket by simp
    have "(\<Sum>i<n. count_list (a # p) (AddBucket i)) =
        (\<Sum>i<n. (if i = j then 1 else 0) + count_list p (AddBucket i))"
      by (rule sum.cong) (auto simp: AddBucket)
    also have "\<dots> = 1 + (\<Sum>i<n. count_list p (AddBucket i))"
      using \<open>j < n\<close> by (simp add: sum.distrib)
    finally show ?thesis using IH AddBucket by simp
  qed (use IH in auto)
qed simp

text \<open>A sequence of additions in which each observation reaches its bucket before \<open>count\<close>.\<close>

definition bucket_first :: "counter_add list \<Rightarrow> bool" where
  "bucket_first r \<longleftrightarrow> (\<exists>a v. r = [a, AddSum v, AddCount] \<and> (a = AddZero \<or> (\<exists>i. a = AddBucket i)))"

lemma count_le_placed:
  "(\<And>r. r \<in> set rs \<Longrightarrow> bucket_first r) \<Longrightarrow> count_list (take k (concat rs)) AddCount \<le> placed (take k (concat rs))"
proof (induction rs arbitrary: k)
  case (Cons r rs)
  obtain a v where r: "r = [a, AddSum v, AddCount]" and a: "a = AddZero \<or> (\<exists>i. a = AddBucket i)"
    using Cons.prems [of r] by (auto simp: bucket_first_def)
  have IH: "count_list (take j (concat rs)) AddCount \<le> placed (take j (concat rs))" for j
    using Cons by simp
  consider "k = 0" | "k = 1" | "k = 2" | j where "k = Suc (Suc (Suc j))"
    by (metis One_nat_def Suc_1 not0_implies_Suc)
  then show ?case
    by cases (use a IH in \<open>auto simp: r numeral_2_eq_2 take_Cons\<close>)
qed simp

lemma count_list_take_mono: "i \<le> j \<Longrightarrow> count_list (take i xs) a \<le> count_list (take j xs) a"
  by (metis count_list_append le_add1 le_iff_add take_add)

section \<open>The table is the base-\<open>2^(1/8)\<close> scale\<close>

text \<open>
  The check of the whole table: entry \<open>t\<close> is the integer part of \<open>10^6 * 2^((i - 159) / 8)\<close>, compared
  in eighth powers so that only integers occur; \<open>p\<close> is \<open>10^48 * 2^i\<close>.
\<close>

primrec floors_ok :: "int \<Rightarrow> int list \<Rightarrow> bool" where
  "floors_ok p [] = True"
| "floors_ok p (t # ts) \<longleftrightarrow>
     0 < t \<and> t ^ 8 * 2 ^ 160 \<le> p * 2 \<and> p * 2 < (t + 1) ^ 8 * 2 ^ 160 \<and> floors_ok (p * 2) ts"

lemma floors_ok_nth:
  "floors_ok p ts \<Longrightarrow> i < length ts \<Longrightarrow>
   (ts ! i) ^ 8 * 2 ^ 160 \<le> p * 2 ^ Suc i \<and> p * 2 ^ Suc i < (ts ! i + 1) ^ 8 * 2 ^ 160"
proof (induction ts arbitrary: p i)
  case (Cons t ts)
  show ?case
  proof (cases i)
    case 0
    then show ?thesis using Cons.prems by simp
  next
    case (Suc j)
    then show ?thesis using Cons.IH [of "p * 2" j] Cons.prems by (simp add: mult.assoc)
  qed
qed simp

lemma upper_us_table:
  obtains ts where "SECONDS_BUCKET_UPPER_US = map of_int ts" "floors_ok (10 ^ 48) ts" "sorted ts"
    "length ts = 192" "last ts = 16000000"
proof (rule that [OF SECONDS_BUCKET_UPPER_US_def], goal_cases)
  case 1
  then show ?case by code_simp
next
  case 2
  then show ?case by code_simp
qed simp_all

lemma sorted_mem_le_last: "sorted ts \<Longrightarrow> t \<in> set ts \<Longrightarrow> (t :: 'a::linorder) \<le> last ts"
  by (induction ts) (auto split: if_splits)

lemma floors_ok_pos: "floors_ok p ts \<Longrightarrow> t \<in> set ts \<Longrightarrow> 0 < t"
  by (induction ts arbitrary: p) auto

lemma of_int_less_u64: "0 < t \<Longrightarrow> t \<le> 16000000 \<Longrightarrow> (of_int t < (v :: u64)) = (t < uint v)"
  by (simp add: word_less_def uint_word_of_int)

lemma exp_bucket_table:
  obtains ts where "floors_ok (10 ^ 48) ts" "sorted ts" "length ts = 192" "ts ! 191 = 16000000"
    "\<And>v. exp_bucket v = min (partition_point (\<lambda>t. t < uint v) ts) 191"
proof -
  obtain ts where ts: "SECONDS_BUCKET_UPPER_US = map of_int ts" "floors_ok (10 ^ 48) ts" "sorted ts"
    "length ts = 192" "last ts = 16000000"
    by (rule upper_us_table)
  have "(of_int t < (v :: u64)) = (t < uint v)" if "t \<in> set ts" for t v
    using that ts floors_ok_pos [OF ts(2) that] sorted_mem_le_last [OF ts(3) that] of_int_less_u64 by simp
  then have "takeWhile ((\<lambda>t. t < v) \<circ> of_int) ts = takeWhile (\<lambda>t. t < uint v) ts" for v :: u64
    by (intro takeWhile_cong) auto
  then have "exp_bucket v = min (partition_point (\<lambda>t. t < uint v) ts) 191" for v
    by (simp add: exp_bucket_def partition_point_def ts(1) takeWhile_map N_EXP_BUCKETS_def)
  moreover have "ts ! 191 = 16000000"
    using ts(4,5) last_conv_nth [of ts] by (cases "ts = []") simp_all
  ultimately show ?thesis
    by (intro that [OF ts(2-4)])
qed

lemma exp_bucket_less: "exp_bucket v < N_EXP_BUCKETS"
  by (simp add: exp_bucket_def N_EXP_BUCKETS_def)

lemma exp_bucket_eighth_powers:
  assumes "0 < v" "v \<le> 16000000"
  shows "10 ^ 48 * 2 ^ exp_bucket v < uint v ^ 8 * 2 ^ 160"
    and "uint v ^ 8 * 2 ^ 160 \<le> 10 ^ 48 * 2 ^ Suc (exp_bucket v)"
proof -
  obtain ts where ts: "floors_ok (10 ^ 48) ts" "sorted ts" "length ts = 192" "ts ! 191 = 16000000"
    and b: "exp_bucket v = min (partition_point (\<lambda>t. t < uint v) ts) 191"
    by (rule exp_bucket_table) blast
  define i where "i = partition_point (\<lambda>t. t < uint v) ts"
  have v: "1 \<le> uint v" "uint v \<le> 16000000"
    using assms by (simp_all add: word_less_def word_le_def)
  have at: "(i = 0 \<or> ts ! (i - 1) < uint v) \<and> (i = length ts \<or> uint v \<le> ts ! i)"
    using partition_point_eq [OF ts(2), of i "uint v"] partition_point_le [of "\<lambda>t. t < uint v" ts]
    by (simp add: i_def)
  have i: "i < 192"
  proof (rule ccontr)
    assume "\<not> i < 192"
    then have "i = 192"
      using partition_point_le [of "\<lambda>t. t < uint v" ts] ts(3) by (simp add: i_def)
    then show False
      using at v ts(4) by simp
  qed
  have e: "exp_bucket v = i"
    using b i by (simp add: i_def [symmetric])
  have "10 ^ 48 * 2 ^ i < uint v ^ 8 * 2 ^ 160"
  proof (cases i)
    case 0
    have "1 ^ 8 \<le> uint v ^ 8" using v by (intro power_mono) auto
    then show ?thesis using 0 by simp
  next
    case (Suc j)
    have "10 ^ 48 * 2 ^ Suc j < (ts ! j + 1) ^ 8 * 2 ^ 160"
      using floors_ok_nth [OF ts(1), of j] i ts(3) Suc by simp
    also have "\<dots> \<le> uint v ^ 8 * 2 ^ 160"
    proof -
      have "ts ! j \<in> set ts" using i ts(3) Suc by simp
      then have "0 < ts ! j" using floors_ok_pos [OF ts(1)] by blast
      moreover have "ts ! j + 1 \<le> uint v" using at Suc by simp
      ultimately have "(ts ! j + 1) ^ 8 \<le> uint v ^ 8" by (intro power_mono) auto
      then show ?thesis by simp
    qed
    finally show ?thesis by (simp add: Suc)
  qed
  then show "10 ^ 48 * 2 ^ exp_bucket v < uint v ^ 8 * 2 ^ 160" by (simp add: e)
  have "uint v ^ 8 \<le> (ts ! i) ^ 8"
    using at i ts(3) v by (intro power_mono) auto
  then have "uint v ^ 8 * 2 ^ 160 \<le> (ts ! i) ^ 8 * 2 ^ 160" by simp
  also have "\<dots> \<le> 10 ^ 48 * 2 ^ Suc i"
    using floors_ok_nth [OF ts(1), of i] i ts(3) by simp
  finally show "uint v ^ 8 * 2 ^ 160 \<le> 10 ^ 48 * 2 ^ Suc (exp_bucket v)" by (simp add: e)
qed

lemma eighth_root_less:
  assumes "0 \<le> (x :: real)" "2 powr y < x ^ 8"
  shows "2 powr (y / 8) < x"
proof (rule ccontr)
  assume "\<not> 2 powr (y / 8) < x"
  then have "x ^ 8 \<le> (2 powr (y / 8)) ^ 8"
    using assms(1) by (intro power_mono) auto
  then show False
    using assms(2) by (simp add: powr_power)
qed

lemma eighth_root_le:
  assumes "(x :: real) ^ 8 \<le> 2 powr y" "0 \<le> x"
  shows "x \<le> 2 powr (y / 8)"
proof (rule ccontr)
  assume "\<not> x \<le> 2 powr (y / 8)"
  then have "(2 powr (y / 8)) ^ 8 < x ^ 8"
    by (intro power_strict_mono) auto
  then show False
    using assms(1) by (simp add: powr_power)
qed

section \<open>Properties\<close>

text \<open>
  C29. The bucket of a duration of \<open>v\<close> microseconds, for every \<open>v\<close> from one microsecond to 16 seconds,
  is the one the OpenTelemetry exponential histogram assigns to \<open>v / 10^6\<close> seconds at the published
  scale and offset: \<open>2^(k / 2^scale) < v / 10^6 \<le> 2^((k + 1) / 2^scale)\<close> for \<open>k\<close> the bucket plus the
  offset. The code reaches it by an integer search in a table.
\<close>
theorem exp_bucket_exact:
  assumes "0 < v" "v \<le> 16000000"
  shows "2 powr (real_of_int (int (exp_bucket v) + EXP_HISTOGRAM_BUCKET_OFFSET) / 2 ^ nat EXP_HISTOGRAM_SCALE)
           < real (unat v) / 10 ^ 6 \<and>
         real (unat v) / 10 ^ 6
           \<le> 2 powr (real_of_int (int (exp_bucket v) + EXP_HISTOGRAM_BUCKET_OFFSET + 1) / 2 ^ nat EXP_HISTOGRAM_SCALE)"
proof -
  define x where "x = real (unat v) / 10 ^ 6"
  define i where "i = exp_bucket v"
  have x0: "0 \<le> x" unfolding x_def by (intro divide_nonneg_nonneg of_nat_0_le_iff) simp
  have rv: "real_of_int (uint v) = real (unat v)" by simp
  have lo: "(10::real) ^ 48 * 2 ^ i < real (unat v) ^ 8 * 2 ^ 160"
    using exp_bucket_eighth_powers(1) [OF assms] unfolding i_def rv [symmetric]
    by (metis (mono_tags, opaque_lifting) of_int_less_iff of_int_mult of_int_numeral of_int_power)
  have hi: "real (unat v) ^ 8 * 2 ^ 160 \<le> (10::real) ^ 48 * 2 ^ Suc i"
    using exp_bucket_eighth_powers(2) [OF assms] unfolding i_def rv [symmetric]
    by (metis (mono_tags, opaque_lifting) of_int_le_iff of_int_mult of_int_numeral of_int_power)
  have x8: "real (unat v) ^ 8 = x ^ 8 * 10 ^ 48"
    by (simp add: x_def power_divide flip: power_mult)
  have p: "2 powr (real i - 160) * 2 ^ 160 = (2::real) ^ i" "2 powr (real i - 159) * 2 ^ 160 = (2::real) ^ Suc i"
    by (simp_all add: powr_diff powr_realpow [symmetric] powr_add [symmetric])
  have "2 ^ i < x ^ 8 * 2 ^ 160" "x ^ 8 * 2 ^ 160 \<le> 2 ^ Suc i"
    using lo hi unfolding x8 by simp_all
  then have "2 powr (real i - 160) < x ^ 8" "x ^ 8 \<le> 2 powr (real i - 159)"
    unfolding p [symmetric] by simp_all
  then have "2 powr ((real i - 160) / 8) < x" "x \<le> 2 powr ((real i - 159) / 8)"
    using eighth_root_less [of x "real i - 160"] eighth_root_le [of x "real i - 159"] x0 by blast+
  moreover have "real_of_int (int i + EXP_HISTOGRAM_BUCKET_OFFSET) = real i - 160"
    "real_of_int (int i + EXP_HISTOGRAM_BUCKET_OFFSET + 1) = real i - 159"
    "2 ^ nat EXP_HISTOGRAM_SCALE = (8 :: real)"
    by (simp_all add: EXP_HISTOGRAM_BUCKET_OFFSET_def EXP_HISTOGRAM_SCALE_def)
  ultimately show ?thesis
    unfolding x_def [symmetric] i_def [symmetric] by presburger
qed

theorem exp_bucket_exact_witness:
  "2 powr (real_of_int (int (exp_bucket 15625) + EXP_HISTOGRAM_BUCKET_OFFSET) / 2 ^ nat EXP_HISTOGRAM_SCALE)
     < real (unat (15625 :: u64)) / 10 ^ 6 \<and> exp_bucket 15625 = 111"
  using exp_bucket_exact [of 15625]
  by (simp add: exp_bucket_def partition_point_def SECONDS_BUCKET_UPPER_US_def N_EXP_BUCKETS_def)

text \<open>The additions of a worker that records the observations \<open>vs\<close> in order.\<close>

definition exp_history :: "u64 list \<Rightarrow> counter_add list" where
  "exp_history vs = concat (map exp_record_adds vs)"

definition hist_history :: "u64 list \<Rightarrow> u64 list \<Rightarrow> counter_add list" where
  "hist_history bounds vs = concat (map (hist_record_adds bounds) vs)"

lemma fold_exp_record: "fold exp_record vs s = fold exp_apply (exp_history vs) s"
  by (induction vs arbitrary: s) (simp_all add: exp_history_def exp_record_def)

lemma fold_hist_record: "fold (hist_record bounds) vs h = fold hist_apply (hist_history bounds vs) h"
  by (induction vs arbitrary: h) (simp_all add: hist_history_def hist_record_def)

lemma bucket_first_exp: "bucket_first (exp_record_adds v)"
  by (auto simp: bucket_first_def exp_record_adds_def)

lemma exp_history_bucket: "AddBucket i \<in> set (exp_history vs) \<Longrightarrow> i < N_EXP_BUCKETS"
  by (auto simp: exp_history_def exp_record_adds_def exp_bucket_less split: if_splits)

lemma count_exp_history:
  "count_list (exp_history vs) AddCount = length vs"
  "count_list (exp_history vs) (AddBucket i) = length (filter (\<lambda>v. v \<noteq> 0 \<and> exp_bucket v = i) vs)"
  "count_list (exp_history vs) AddZero = length (filter (\<lambda>v. v = 0) vs)"
  "sum_list (map sum_added (exp_history vs)) = sum_list vs"
  by (induction vs) (auto simp: exp_history_def exp_record_adds_def)

lemma count_hist_history:
  "count_list (hist_history bounds vs) AddCount = length vs"
  "count_list (hist_history bounds vs) (AddBucket i) =
     length (filter (\<lambda>v. partition_point (\<lambda>b. b < v) bounds = i) vs)"
  "sum_list (map sum_added (hist_history bounds vs)) = sum_list vs"
  by (induction vs) (auto simp: hist_history_def hist_record_adds_def)

text \<open>
  After any sequence of observations each bucket of the exponential histogram holds the number
  of non-zero observations that fall in it, \<open>zero_count\<close> the number of zero observations, \<open>sum\<close> and
  \<open>count\<close> their sum and number (all modulo \<open>2^64\<close>).
\<close>
lemma exp_histogram_contents:
  "exp_snapshot (fold exp_record vs empty_exp_slot) =
     (map (\<lambda>i. of_nat (length (filter (\<lambda>v. v \<noteq> 0 \<and> exp_bucket v = i) vs))) [0..<N_EXP_BUCKETS],
      of_nat (length (filter (\<lambda>v. v = 0) vs)), sum_list vs, of_nat (length vs))"
  by (simp add: exp_snapshot_def exp_snapshot_at_def fold_exp_record exp_fold_bucket exp_fold_zero
      exp_fold_sum exp_fold_count empty_exp_slot_def count_exp_history)

lemma hist_histogram_contents:
  "hist_snapshot (fold (hist_record bounds) vs (empty_histogram (length bounds + 1))) =
     (map (\<lambda>i. of_nat (length (filter (\<lambda>v. partition_point (\<lambda>b. b < v) bounds = i) vs))) [0..<length bounds + 1],
      sum_list vs, of_nat (length vs))"
  by (simp add: hist_snapshot_def hist_snapshot_at_def fold_hist_record hist_fold_bucket hist_fold_sum
      hist_fold_count empty_histogram_def count_hist_history Let_def
      del: upt_Suc replicate_Suc)

text \<open>
  The bucket of an explicit-boundary histogram with sorted boundaries: above boundary \<open>i - 1\<close> and at most
  boundary \<open>i\<close> (the first bucket has no lower and the last no upper boundary), so the counts are per bucket
  and not cumulative.
\<close>
lemma explicit_bucket:
  assumes "sorted bounds" "i < length bounds + 1"
  shows "partition_point (\<lambda>b. b < v) bounds = i \<longleftrightarrow>
     (i = 0 \<or> bounds ! (i - 1) < v) \<and> (i = length bounds \<or> v \<le> bounds ! i)"
  using partition_point_eq [OF assms(1), of i v] assms(2) by simp

lemma sum_upt_nat: "sum_list (map f [0..<n]) = (\<Sum>i<n. f i :: nat)"
  by (simp add: interv_sum_list_conv_sum_set_nat atLeast0LessThan)

text \<open>
  C31. A snapshot that races with the worker: whatever prefix of the worker's additions each read
  of the snapshot sees, as long as every bucket and \<open>zero_count\<close> is read at or after the moment
  \<open>count\<close> is read, the observations in the buckets are at least \<open>count\<close>. Fewer than \<open>2^64\<close>
  observations are assumed, so that no counter has wrapped.
\<close>
theorem exp_snapshot_covers_count:
  assumes "length vs < 2 ^ 64" "\<forall>i < N_EXP_BUCKETS. t0 \<le> ts ! i" "t0 \<le> tz"
    and "exp_snapshot_at (\<lambda>t. fold exp_apply (take t (exp_history vs)) empty_exp_slot) t0 ts tz tu
           = (buckets, zero_count, tot, count)"
  shows "unat count \<le> sum_list (map unat buckets) + unat zero_count"
proof -
  define h where "h = exp_history vs"
  define st where "st t = fold exp_apply (take t h) empty_exp_slot" for t
  define c where "c a t = count_list (take t h) a" for a t
  have small: "c a t < 2 ^ 64" if "\<And>x. a \<noteq> AddSum x" for a t
  proof -
    have "c a t \<le> count_list h a"
      using count_list_take_mono [of t "max t (length h)" h a] by (simp add: c_def)
    also have "\<dots> \<le> length vs"
      using that by (cases a) (simp_all add: h_def count_exp_history, blast)
    finally show ?thesis using assms(1) by simp
  qed
  have bucket: "unat (eh_buckets (st t) ! i) = c (AddBucket i) t" if "i < N_EXP_BUCKETS" for t i
    using small [of "AddBucket i" t] that
    by (simp add: st_def exp_fold_bucket empty_exp_slot_def c_def unat_of_nat)
  have zero: "unat (eh_zero_count (st t)) = c AddZero t" and count: "unat (eh_count (st t)) = c AddCount t" for t
    using small [of AddZero t] small [of AddCount t]
    by (simp_all add: st_def exp_fold_zero exp_fold_count empty_exp_slot_def c_def unat_of_nat)
  have snap: "count = eh_count (st t0)" "zero_count = eh_zero_count (st tz)"
    "buckets = map (\<lambda>i. eh_buckets (st (ts ! i)) ! i) [0..<N_EXP_BUCKETS]"
    using assms(4) by (simp_all add: exp_snapshot_at_def st_def h_def)
  have "unat count \<le> placed (take t0 h)"
    unfolding snap count c_def h_def exp_history_def
    by (rule count_le_placed) (auto simp: bucket_first_exp)
  also have "\<dots> = (\<Sum>i<N_EXP_BUCKETS. c (AddBucket i) t0) + c AddZero t0"
    unfolding c_def
    by (rule placed_eq [symmetric]) (use exp_history_bucket in \<open>auto simp: h_def dest: in_set_takeD\<close>)
  also have "\<dots> \<le> (\<Sum>i<N_EXP_BUCKETS. c (AddBucket i) (ts ! i)) + c AddZero tz"
    unfolding c_def using assms(2,3) by (intro add_mono sum_mono count_list_take_mono) auto
  also have "\<dots> = sum_list (map unat buckets) + unat zero_count"
    by (simp add: snap zero bucket o_def sum_upt_nat cong: map_cong)
  finally show ?thesis .
qed

theorem exp_snapshot_covers_count_witness:
  "\<exists>buckets zero_count tot count.
     exp_snapshot_at (\<lambda>t. fold exp_apply (take t (exp_history [7, 9])) empty_exp_slot) 3 (replicate N_EXP_BUCKETS 4) 5 6
       = (buckets, zero_count, tot, count) \<and> count = 1 \<and>
     unat count \<le> sum_list (map unat buckets) + unat zero_count"
proof -
  have "eh_count (fold exp_apply (take 3 (exp_history [7, 9])) empty_exp_slot) = 1"
    by (simp add: exp_history_def exp_record_adds_def exp_fold_count empty_exp_slot_def)
  then show ?thesis
    using exp_snapshot_covers_count [of "[7, 9]" 3 "replicate N_EXP_BUCKETS 4" 5 6]
    by (simp add: exp_snapshot_at_def)
qed

end
