(* ===== verification/Access_Record.thy ===== *)
theory Access_Record
  imports Otel_Data_Model Wire_Buffer Utf8_Lossy
begin

text \<open>
  The access-log record: \<open>emit_access_record\<close> of \<^verbatim>\<open>src/src/logs/access.rs\<close>, which a worker runs on the
  request path without allocating, and \<open>parse_access_record\<close> of \<^verbatim>\<open>src/src/drain/mod.rs\<close>, which the
  exporter runs on the bytes it pops. The lemmas show that the formatter never overflows its stack
  buffer, that the parser never panics on any bytes, and that parsing what was emitted gives the log
  record of the request with its fields cut at their caps.
\<close>

section \<open>Model\<close>

definition MAX_ACCESS_RECORD :: nat where "MAX_ACCESS_RECORD = 336"

definition MAX_URL_PATH :: nat where "MAX_URL_PATH = 64"

definition MAX_USER_AGENT :: nat where "MAX_USER_AGENT = 128"

definition MAX_CLIENT_ADDR :: nat where "MAX_CLIENT_ADDR = 46"

definition MAX_METHOD :: nat where "MAX_METHOD = 16"

definition ACCESS_RECORD_WORST_CASE :: nat where
  "ACCESS_RECORD_WORST_CASE =
     1 + 8 + 1 + (2 + MAX_METHOD) + 2 + 8 + 8 + (2 + MAX_CLIENT_ADDR) + (1 + 16 + 8)
     + (2 + MAX_URL_PATH) + (2 + MAX_USER_AGENT) + 8"

definition KIND_ACCESS :: u8 where "KIND_ACCESS = 0x00"

definition NGX_LEVEL_INFO :: u8 where "NGX_LEVEL_INFO = 7"

record SampledRequest =
  sr_ts_unix_nano :: u64
  sr_trace :: "(bytes \<times> bytes) option"
  sr_url_path :: bytes
  sr_user_agent :: bytes
  sr_duration_us :: u64
  sr_combo_idx :: u32
  sr_method :: bytes
  sr_status :: u16
  sr_request_length :: u64
  sr_response_bytes :: u64
  sr_client_addr :: bytes

text \<open>The writes of \<open>emit_access_record\<close>, in its order.\<close>

definition access_record_writes :: "SampledRequest \<Rightarrow> bytes list" where
  "access_record_writes req =
     [[KIND_ACCESS], u64_to_be_bytes (sr_ts_unix_nano req), [NGX_LEVEL_INFO]]
     @ capped MAX_METHOD (sr_method req)
     @ [u16_to_be_bytes (sr_status req), u64_to_be_bytes (sr_request_length req),
        u64_to_be_bytes (sr_response_bytes req)]
     @ capped MAX_CLIENT_ADDR (sr_client_addr req)
     @ (case sr_trace req of
          Some (trace_id, span_id) \<Rightarrow> [[1], trace_id, span_id]
        | None \<Rightarrow> [[0]])
     @ capped MAX_URL_PATH (sr_url_path req)
     @ capped MAX_USER_AGENT (sr_user_agent req)
     @ [u64_to_be_bytes (sr_duration_us req)]"

text \<open>The producer is the \<open>LogProducer\<close> the record is pushed to; \<open>Panic\<close> is a buffer overflow.\<close>

definition emit_access_record ::
  "('p \<Rightarrow> bytes \<Rightarrow> 'p \<times> bool) \<Rightarrow> 'p \<Rightarrow> SampledRequest \<Rightarrow> ('p \<times> bool) outcome" where
  "emit_access_record producer_push producer req =
     (case write_all MAX_ACCESS_RECORD (access_record_writes req) of
        Value buf \<Rightarrow> Value (producer_push producer buf)
      | Reject \<Rightarrow> Reject
      | Panic \<Rightarrow> Panic)"

definition read_u16_prefixed :: "bytes \<Rightarrow> bytes \<times> bytes" where
  "read_u16_prefixed rest =
     (if length rest < 2 then ([], rest)
      else
        let len = unat (u16_from_be_bytes (take 2 rest)); rest1 = drop 2 rest
        in if length rest1 < len then ([], rest1) else (take len rest1, drop len rest1))"

text \<open>The optional trace block: \<open>has_trace\<close>, then 24 bytes of ids when it is 1 and they are there.\<close>

fun read_trace_block :: "bytes \<Rightarrow> bytes \<times> bytes \<times> bytes" where
  "read_trace_block [] = ([], [], [])"
| "read_trace_block (has_trace # rest) =
     (if has_trace = 1 \<and> 24 \<le> length rest
      then (take 16 rest, take 8 (drop 16 rest), drop 24 rest)
      else ([], [], rest))"

text \<open>Assembly of the log record from the decoded fields.\<close>

definition access_log_record ::
  "u64 \<Rightarrow> u64 \<Rightarrow> u32 \<Rightarrow> rust_string \<Rightarrow> u16 \<Rightarrow> u64 \<Rightarrow> u64 \<Rightarrow> rust_string \<Rightarrow> bytes \<Rightarrow> bytes \<Rightarrow> bytes \<Rightarrow> bytes \<Rightarrow>
     u64 option \<Rightarrow> LogRecord" where
  "access_log_record ts observed_now_ns ngx_level method_str status req_len resp_bytes client_addr
       trace_id span_id url_path user_agent duration_us =
     \<lparr>lr_time_unix_nano = ts, lr_observed_time_unix_nano = observed_now_ns,
      lr_severity_number = fst (nginx_to_otel ngx_level),
      lr_severity_text = snd (nginx_to_otel ngx_level),
      lr_body = StringV [],
      lr_attributes =
        [KV ''http.request.method'' (StringV method_str),
         KV ''http.response.status_code'' (IntV (ucast status)),
         KV ''http.server.request.body.size'' (IntV req_len),
         KV ''http.server.response.body.size'' (IntV resp_bytes),
         KV ''client.address'' (StringV client_addr)]
        @ (if url_path \<noteq> [] then [KV ''url.path'' (StringV (from_utf8_lossy url_path))] else [])
        @ (if user_agent \<noteq> [] then [KV ''user_agent.original'' (StringV (from_utf8_lossy user_agent))] else [])
        @ (case duration_us of
             Some dur_us \<Rightarrow> [KV ''http.server.request.duration'' (DoubleV (of_nat (unat dur_us) / 1000000))]
           | None \<Rightarrow> []),
      lr_event_name = lit ''http.access'', lr_trace_id = trace_id, lr_span_id = span_id\<rparr>"

definition parse_access_record :: "bytes \<Rightarrow> u64 \<Rightarrow> LogRecord outcome" where
  "parse_access_record buf observed_now_ns =
     (if length buf < 32 then Reject
      else
        get_u8 (\<lambda>kind. if kind \<noteq> KIND_ACCESS then (\<lambda>rest. Reject) else
        get_u64 (\<lambda>ts.
        get_u8 (\<lambda>ngx_level.
        get_u16 (\<lambda>method_len.
        need (unat method_len) (get_bytes (unat method_len) (\<lambda>method_bytes.
        need 2 (get_u16 (\<lambda>status.
        need 8 (get_u64 (\<lambda>req_len.
        need 8 (get_u64 (\<lambda>resp_bytes.
        need 2 (get_u16 (\<lambda>addr_len rest.
          let (client_addr, rest) =
                (if unat addr_len \<le> length rest
                 then (from_utf8_lossy (take (unat addr_len) rest), drop (unat addr_len) rest)
                 else ([], rest));
              (trace_id, span_id, rest) = read_trace_block rest;
              (url_path, rest) = read_u16_prefixed rest;
              (user_agent, rest) = read_u16_prefixed rest;
              duration_us =
                (if 8 \<le> length rest then Some (u64_from_be_bytes (take 8 rest)) else None)
          in Value (access_log_record ts observed_now_ns (ucast ngx_level)
               (from_utf8_lossy method_bytes) status req_len resp_bytes client_addr
               trace_id span_id url_path user_agent duration_us))))))))))))))) buf)"

section \<open>The formatter fits its buffer\<close>

lemmas access_caps =
  MAX_ACCESS_RECORD_def MAX_URL_PATH_def MAX_USER_AGENT_def MAX_CLIENT_ADDR_def MAX_METHOD_def

text \<open>The array types \<open>[u8; 16]\<close> and \<open>[u8; 8]\<close> of the trace context.\<close>

definition wf_trace :: "(bytes \<times> bytes) option \<Rightarrow> bool" where
  "wf_trace tr = (case tr of Some (t, s) \<Rightarrow> length t = 16 \<and> length s = 8 | None \<Rightarrow> True)"

lemma access_record_length:
  assumes "wf_trace (sr_trace req)"
  shows "length (concat (access_record_writes req)) \<le> ACCESS_RECORD_WORST_CASE"
  using assms
  by (auto simp: access_record_writes_def ACCESS_RECORD_WORST_CASE_def access_caps wf_trace_def
      split: option.splits)

lemma access_record_written:
  assumes "wf_trace (sr_trace req)"
  shows "write_all MAX_ACCESS_RECORD (access_record_writes req) =
           Value (concat (access_record_writes req))"
proof (rule write_all_fits)
  show "length (concat (access_record_writes req)) \<le> MAX_ACCESS_RECORD"
    using access_record_length [OF assms]
    by (simp add: ACCESS_RECORD_WORST_CASE_def access_caps)
qed

section \<open>The parser\<close>

lemma read_u16_prefixed_capped:
  assumes "n < 2 ^ 16"
  shows "read_u16_prefixed (u16_to_be_bytes (of_nat (min (length data) n)) @ take n data @ rest) =
           (take n data, rest)"
proof -
  have "unat (of_nat (min (length data) n) :: u16) = min (length data) n"
    using assms by (simp add: unat_of_nat take_bit_eq_mod)
  then show ?thesis
    by (auto simp: read_u16_prefixed_def Let_def min_def)
qed

lemma read_trace_block_written:
  assumes "wf_trace tr"
  shows "read_trace_block
      (concat (case tr of Some (t, s) \<Rightarrow> [[1], t, s] | None \<Rightarrow> [[0]]) @ rest) =
      (case tr of Some (t, s) \<Rightarrow> (t, s, rest) | None \<Rightarrow> ([], [], rest))"
  using assms by (auto simp: wf_trace_def split: option.splits)

definition access_log_of :: "SampledRequest \<Rightarrow> u64 \<Rightarrow> LogRecord" where
  "access_log_of req now =
     access_log_record (sr_ts_unix_nano req) now 7
       (from_utf8_lossy (take MAX_METHOD (sr_method req))) (sr_status req)
       (sr_request_length req) (sr_response_bytes req)
       (from_utf8_lossy (take MAX_CLIENT_ADDR (sr_client_addr req)))
       (case sr_trace req of Some (t, s) \<Rightarrow> t | None \<Rightarrow> [])
       (case sr_trace req of Some (t, s) \<Rightarrow> s | None \<Rightarrow> [])
       (take MAX_URL_PATH (sr_url_path req)) (take MAX_USER_AGENT (sr_user_agent req))
       (Some (sr_duration_us req))"


lemma parse_access_record_written:
  assumes "wf_trace (sr_trace req)"
  shows "parse_access_record (concat (access_record_writes req)) now = Value (access_log_of req now)"
proof -
  let ?buf = "concat (access_record_writes req)"
  have buf: "?buf = KIND_ACCESS # u64_to_be_bytes (sr_ts_unix_nano req) @ NGX_LEVEL_INFO #
      u16_to_be_bytes (of_nat (min (length (sr_method req)) MAX_METHOD)) @ take MAX_METHOD (sr_method req) @
      u16_to_be_bytes (sr_status req) @ u64_to_be_bytes (sr_request_length req) @
      u64_to_be_bytes (sr_response_bytes req) @
      u16_to_be_bytes (of_nat (min (length (sr_client_addr req)) MAX_CLIENT_ADDR)) @
      take MAX_CLIENT_ADDR (sr_client_addr req) @
      concat (case sr_trace req of Some (t, s) \<Rightarrow> [[1], t, s] | None \<Rightarrow> [[0]]) @
      u16_to_be_bytes (of_nat (min (length (sr_url_path req)) MAX_URL_PATH)) @ take MAX_URL_PATH (sr_url_path req) @
      u16_to_be_bytes (of_nat (min (length (sr_user_agent req)) MAX_USER_AGENT)) @
      take MAX_USER_AGENT (sr_user_agent req) @ u64_to_be_bytes (sr_duration_us req)"
    by (simp add: access_record_writes_def concat_capped)
  have u16: "unat (of_nat (min (length xs) n) :: u16) = min (length xs) n" if "n < 2 ^ 16" for xs :: bytes and n
    using that by (simp add: unat_of_nat take_bit_eq_mod)
  show ?thesis
    unfolding parse_access_record_def buf access_log_of_def
    by (simp add: wire_simps u16 access_caps read_u16_prefixed_capped read_trace_block_written [OF assms]
        NGX_LEVEL_INFO_def split: option.splits)
qed

section \<open>Properties\<close>

definition sample_request :: SampledRequest where
  "sample_request =
     \<lparr>sr_ts_unix_nano = 1700000000000000000, sr_trace = Some (replicate 16 0xAB, replicate 8 0xCD),
      sr_url_path = lit ''/checkout'', sr_user_agent = replicate 200 0x61, sr_duration_us = 1500,
      sr_combo_idx = 24, sr_method = lit ''GET'', sr_status = 503, sr_request_length = 10,
      sr_response_bytes = 20, sr_client_addr = lit ''127.0.0.1''\<rparr>"

text \<open>
  On any bytes at all, \<open>parse_access_record\<close> returns a record or \<open>None\<close>; it never indexes out of
  bounds.
\<close>

lemma parse_access_record_no_panic: "parse_access_record buf now \<noteq> Panic"
proof (cases "length buf < 32")
  case False
  then have "no_panic_out (parse_access_record buf now)"
    unfolding parse_access_record_def
    by (auto intro!: no_panic simp: Let_def split: prod.splits)
  then show ?thesis
    by (simp add: no_panic_out_def)
qed (simp add: parse_access_record_def)

text \<open>
  C23. Parsing what \<open>emit_access_record\<close> pushed gives the log record of the request: every numeric
  field, the trace context, and the byte fields cut at their caps and decoded.
\<close>

theorem access_record_roundtrip:
  assumes "wf_trace (sr_trace req)"
  shows "\<exists>buf. emit_access_record (\<lambda>sent b. (sent @ [b], True)) [] req = Value ([buf], True) \<and>
           parse_access_record buf now = Value (access_log_of req now)"
  using access_record_written [OF assms] parse_access_record_written [OF assms]
  by (simp add: emit_access_record_def)

theorem access_record_roundtrip_witness:
  "\<exists>buf. emit_access_record (\<lambda>sent b. (sent @ [b], True)) [] sample_request = Value ([buf], True) \<and>
     parse_access_record buf 9 = Value (access_log_of sample_request 9)"
  using access_record_roundtrip [of sample_request 9]
  by (simp add: sample_request_def wf_trace_def)

end
