(* ===== verification/Exemplar_Reservoir.thy ===== *)
theory Exemplar_Reservoir
  imports Access_Record
begin

text \<open>
  The exemplar reservoirs of the metrics zone (\<open>ExemplarReservoir\<close> of \<^verbatim>\<open>src/src/shm/mod.rs\<close>): each
  data point of the request-duration histogram keeps two example requests per export interval, chosen by
  a hash of the running count. A worker writes, the exporter takes a snapshot and resets. The theory is
  about the sequential behaviour; a write that races with a snapshot can tear an entry, which the source
  accepts.
\<close>

section \<open>Model\<close>

definition EXEMPLAR_RESERVOIR_SIZE :: nat where "EXEMPLAR_RESERVOIR_SIZE = 2"

record ExemplarEntry =
  ee_value_us :: u64
  ee_trace_id_lo :: u64
  ee_trace_id_hi :: u64
  ee_span_id :: u64
  ee_ts_unix_nano :: u64
  ee_combo_idx :: u32
  ee_has_trace :: u8

record ExemplarReservoir =
  rv_seen :: u64
  rv_entries :: "ExemplarEntry list"

definition zeroed_entry :: ExemplarEntry where
  "zeroed_entry = \<lparr>ee_value_us = 0, ee_trace_id_lo = 0, ee_trace_id_hi = 0, ee_span_id = 0, ee_ts_unix_nano = 0,
     ee_combo_idx = 0, ee_has_trace = 0\<rparr>"

definition zeroed_reservoir :: ExemplarReservoir where
  "zeroed_reservoir = \<lparr>rv_seen = 0, rv_entries = replicate EXEMPLAR_RESERVOIR_SIZE zeroed_entry\<rparr>"

definition rand_index :: "u64 \<Rightarrow> u64" where
  "rand_index n =
     (let z = n + 0x9E3779B97F4A7C15;
          z = (z XOR drop_bit 30 z) * 0xBF58476D1CE4E5B9;
          z = (z XOR drop_bit 27 z) * 0x94D049BB133111EB
      in z XOR drop_bit 31 z)"

text \<open>The stores of one retained measurement. Without a trace the id fields keep their old value.\<close>

definition store_entry :: "SampledRequest \<Rightarrow> ExemplarEntry \<Rightarrow> ExemplarEntry" where
  "store_entry req e =
     (let e1 = e\<lparr>ee_value_us := sr_duration_us req, ee_ts_unix_nano := sr_ts_unix_nano req,
                 ee_combo_idx := sr_combo_idx req\<rparr>
      in case sr_trace req of
           Some (tid, sid) \<Rightarrow>
             e1\<lparr>ee_trace_id_lo := u64_from_be_bytes (slice tid 0 8), ee_trace_id_hi := u64_from_be_bytes (slice tid 8 8),
                ee_span_id := u64_from_be_bytes sid, ee_has_trace := 1\<rparr>
         | None \<Rightarrow> e1\<lparr>ee_has_trace := 0\<rparr>)"

text \<open>\<open>write\<close>: \<open>n + 1\<close> overflows, and the remainder then panics, for the last value of the counter only.\<close>

definition reservoir_write :: "SampledRequest \<Rightarrow> ExemplarReservoir \<Rightarrow> ExemplarReservoir outcome" where
  "reservoir_write req r =
     (let n = rv_seen r;
          r1 = r\<lparr>rv_seen := n + 1\<rparr>;
          size = of_nat EXEMPLAR_RESERVOIR_SIZE
      in if n \<ge> size \<and> n = - 1 then Panic
         else
           let bucket = (if n < size then n else rand_index n mod (n + 1))
           in if bucket \<ge> size then Value r1
              else Value (r1\<lparr>rv_entries := (rv_entries r1)[unat bucket := store_entry req (rv_entries r1 ! unat bucket)]\<rparr>))"

record ExemplarSnapshot =
  xs_value_us :: u64
  xs_combo_idx :: u32
  xs_has_trace :: bool
  xs_trace_id :: bytes
  xs_span_id :: bytes
  xs_ts_unix_nano :: u64

definition entry_snapshot :: "ExemplarEntry \<Rightarrow> ExemplarSnapshot" where
  "entry_snapshot e =
     \<lparr>xs_value_us = ee_value_us e, xs_combo_idx = ee_combo_idx e, xs_has_trace = (ee_has_trace e \<noteq> 0),
      xs_trace_id = u64_to_be_bytes (ee_trace_id_lo e) @ u64_to_be_bytes (ee_trace_id_hi e),
      xs_span_id = u64_to_be_bytes (ee_span_id e), xs_ts_unix_nano = ee_ts_unix_nano e\<rparr>"

definition reservoir_snapshot :: "ExemplarReservoir \<Rightarrow> ExemplarSnapshot list" where
  "reservoir_snapshot r =
     (let filled = min (unat (rv_seen r)) EXEMPLAR_RESERVOIR_SIZE
      in map (\<lambda>i. entry_snapshot (rv_entries r ! i)) [0..<filled])"

definition reservoir_reset :: "ExemplarReservoir \<Rightarrow> ExemplarReservoir" where
  "reservoir_reset r = r\<lparr>rv_seen := 0\<rparr>"

text \<open>The writes of one export interval.\<close>

fun reservoir_writes :: "SampledRequest list \<Rightarrow> ExemplarReservoir \<Rightarrow> ExemplarReservoir outcome" where
  "reservoir_writes [] r = Value r"
| "reservoir_writes (req # reqs) r =
     (case reservoir_write req r of Value r1 \<Rightarrow> reservoir_writes reqs r1 | Reject \<Rightarrow> Reject | Panic \<Rightarrow> Panic)"

section \<open>What an interval keeps\<close>

text \<open>What the snapshot of a request with a trace should be.\<close>

definition exemplar_of :: "SampledRequest \<Rightarrow> ExemplarSnapshot" where
  "exemplar_of req =
     (let (tid, sid) = the (sr_trace req)
      in \<lparr>xs_value_us = sr_duration_us req, xs_combo_idx = sr_combo_idx req, xs_has_trace = True,
          xs_trace_id = tid, xs_span_id = sid, xs_ts_unix_nano = sr_ts_unix_nano req\<rparr>)"

definition traced :: "SampledRequest \<Rightarrow> bool" where
  "traced req = (case sr_trace req of Some (tid, sid) \<Rightarrow> length tid = 16 \<and> length sid = 8 | None \<Rightarrow> False)"

definition kept :: "SampledRequest list \<Rightarrow> nat list \<Rightarrow> ExemplarReservoir \<Rightarrow> bool" where
  "kept ws js r \<longleftrightarrow>
     rv_seen r = of_nat (length ws) \<and> length (rv_entries r) = 2 \<and>
     length js = min (length ws) 2 \<and> distinct js \<and> (\<forall>j\<in>set js. j < length ws) \<and>
     (length ws \<le> 2 \<longrightarrow> js = [0..<length ws]) \<and>
     (\<forall>k<length js. entry_snapshot (rv_entries r ! k) = exemplar_of (ws ! (js ! k)))"

lemma be_nat_nat_be: "be_nat (length bs) (nat_be bs) = bs"
proof (induction bs rule: rev_induct)
  case (snoc b bs)
  have "unat b < 256"
    using unsigned_less [of b] by simp
  then have "(nat_be bs * 256 + unat b) div 256 = nat_be bs"
    by simp
  moreover have "(of_nat (nat_be bs * 256 + unat b) :: u8) = b"
  proof -
    have z: "of_nat 256 = (0 :: u8)" by simp
    show ?thesis by (simp only: of_nat_add of_nat_mult z mult_zero_right add_0_left) simp
  qed
  ultimately show ?case
    using snoc by simp
qed simp

lemma u64_to_from_be_bytes: "length bs = 8 \<Longrightarrow> u64_to_be_bytes (u64_from_be_bytes bs) = bs"
  using be_nat_nat_be [of bs] nat_be_less [of bs]
  by (simp add: u64_to_be_bytes_def u64_from_be_bytes_def unat_of_nat)

lemma store_entry_snapshot:
  assumes "traced req"
  shows "entry_snapshot (store_entry req e) = exemplar_of req"
proof -
  obtain tid sid where t: "sr_trace req = Some (tid, sid)" "length tid = 16" "length sid = 8"
    using assms by (auto simp: traced_def split: option.splits)
  have "take 8 tid @ take 8 (drop 8 tid) = tid"
    using t(2) append_take_drop_id [of 8 tid] by simp
  with t show ?thesis
    by (simp add: store_entry_def entry_snapshot_def exemplar_of_def Let_def u64_to_from_be_bytes slice_def)
qed

lemma reservoir_write_kept:
  assumes "kept ws js r" "traced req" "Suc (length ws) < 2 ^ 64"
  shows "\<exists>r' js'. reservoir_write req r = Value r' \<and> kept (ws @ [req]) js' r'"
proof -
  let ?n = "length ws"
  have n: "unat (rv_seen r) = ?n" and seen: "rv_seen r = of_nat ?n"
    using assms by (simp_all add: kept_def unat_of_nat take_bit_eq_mod)
  have no_panic: "rv_seen r \<noteq> - 1"
    using n assms(3) by (auto simp: unat_minus_one)
  let ?b = "if rv_seen r < 2 then rv_seen r else rand_index (rv_seen r) mod (rv_seen r + 1)"
  let ?e = "(rv_entries r)[unat ?b := store_entry req (rv_entries r ! unat ?b)]"
  have small: "rv_seen r < 2 \<longleftrightarrow> ?n < 2"
    using n by (simp add: word_less_nat_alt)
  show ?thesis
  proof (cases "2 \<le> ?b")
    case True
    then have big: "\<not> ?n < 2" using small by auto
    have "reservoir_write req r = Value (r\<lparr>rv_seen := rv_seen r + 1\<rparr>)"
      using True no_panic by (simp add: reservoir_write_def EXEMPLAR_RESERVOIR_SIZE_def Let_def)
    moreover have "kept (ws @ [req]) js (r\<lparr>rv_seen := rv_seen r + 1\<rparr>)"
      using assms(1) big seen by (auto simp: kept_def nth_append)
    ultimately show ?thesis by blast
  next
    case False
    then have b: "unat ?b < 2"
      by (simp add: word_le_nat_alt del: if_split)
    have w: "reservoir_write req r = Value (r\<lparr>rv_seen := rv_seen r + 1, rv_entries := ?e\<rparr>)"
      using False no_panic by (simp add: reservoir_write_def EXEMPLAR_RESERVOIR_SIZE_def Let_def)
    let ?js = "if ?n < 2 then js @ [?n] else js[unat ?b := ?n]"
    have at: "unat ?b = ?n" if "?n < 2"
      using that small n by simp
    have "kept (ws @ [req]) ?js (r\<lparr>rv_seen := rv_seen r + 1, rv_entries := ?e\<rparr>)"
    proof (cases "?n < 2")
      case True
      with assms at seen show ?thesis
        by (auto simp: kept_def nth_append less_Suc_eq store_entry_snapshot nth_list_update)
    next
      case False
      have "distinct (js[unat ?b := ?n])"
        using assms(1) by (intro distinct_list_update) (auto simp: kept_def)
      with assms b False seen show ?thesis
        by (auto simp: kept_def nth_append store_entry_snapshot nth_list_update dest!: set_update_subset_insert [THEN subsetD])
    qed
    with w show ?thesis by blast
  qed
qed

lemma reservoir_writes_kept:
  "kept ws js r \<Longrightarrow> \<forall>req\<in>set reqs. traced req \<Longrightarrow> length ws + length reqs < 2 ^ 64 \<Longrightarrow>
     \<exists>r' js'. reservoir_writes reqs r = Value r' \<and> kept (ws @ reqs) js' r'"
proof (induction reqs arbitrary: ws js r)
  case (Cons req reqs)
  have "Suc (length ws) < 2 ^ 64" "traced req"
    using Cons.prems by simp_all
  then obtain r1 js1 where r1: "reservoir_write req r = Value r1" "kept (ws @ [req]) js1 r1"
    using reservoir_write_kept [OF Cons.prems(1)] by blast
  show ?case
    using Cons.IH [OF r1(2)] Cons.prems r1(1) by simp
qed auto

lemma kept_start: "rv_seen r = 0 \<Longrightarrow> length (rv_entries r) = 2 \<Longrightarrow> kept [] [] r"
  by (simp add: kept_def)

lemma kept_snapshot:
  assumes "kept ws js r" "length ws < 2 ^ 64"
  shows "reservoir_snapshot r = map (\<lambda>j. exemplar_of (ws ! j)) js"
proof -
  have "unat (rv_seen r) = length ws"
    using assms by (simp add: kept_def unat_of_nat take_bit_eq_mod)
  then show ?thesis
    using assms(1) by (intro nth_equalityI) (auto simp: reservoir_snapshot_def kept_def EXEMPLAR_RESERVOIR_SIZE_def)
qed

section \<open>Properties\<close>

text \<open>
  C20. Whatever an export interval's requests are, the reservoir never panics; its snapshot has one
  exemplar for each of the first two requests, and from the third on two exemplars of two different
  requests of this interval, each with the value, time, trace id and span id of one request. After the
  reset the next interval starts from an empty reservoir, so no exemplar is reported twice.
\<close>

theorem exemplars_are_requests:
  assumes "rv_seen r = 0" "length (rv_entries r) = 2"
    and "\<forall>req\<in>set reqs. traced req" "length reqs < 2 ^ 64"
  shows "\<exists>r' js. reservoir_writes reqs r = Value r' \<and>
     reservoir_snapshot r' = map (\<lambda>j. exemplar_of (reqs ! j)) js \<and>
     distinct js \<and> (\<forall>j\<in>set js. j < length reqs) \<and> length js = min (length reqs) 2 \<and>
     (length reqs \<le> 2 \<longrightarrow> reservoir_snapshot r' = map exemplar_of reqs) \<and>
     reservoir_snapshot (reservoir_reset r') = [] \<and>
     rv_seen (reservoir_reset r') = 0 \<and> length (rv_entries (reservoir_reset r')) = 2"
proof -
  have len: "length [] + length reqs < 2 ^ 64"
    using assms(4) by simp
  obtain r' js where r': "reservoir_writes reqs r = Value r'" "kept reqs js r'"
    using reservoir_writes_kept [OF kept_start [OF assms(1,2)] assms(3) len] by auto
  have snap: "reservoir_snapshot r' = map (\<lambda>j. exemplar_of (reqs ! j)) js"
    by (rule kept_snapshot [OF r'(2) assms(4)])
  have "map (\<lambda>j. exemplar_of (reqs ! j)) [0..<length reqs] = map exemplar_of reqs"
    by (intro nth_equalityI) simp_all
  with r' snap show ?thesis
    by (intro exI [of _ r'] exI [of _ js]) (auto simp: kept_def reservoir_reset_def reservoir_snapshot_def)
qed

definition sample_traced :: "u64 \<Rightarrow> SampledRequest" where
  "sample_traced us = \<lparr>sr_ts_unix_nano = 1000, sr_trace = Some (replicate 16 1, replicate 8 2), sr_url_path = [],
     sr_user_agent = [], sr_duration_us = us, sr_combo_idx = 5, sr_method = lit ''GET'', sr_status = 200,
     sr_request_length = 0, sr_response_bytes = 0, sr_client_addr = []\<rparr>"

theorem exemplars_are_requests_witness:
  "\<exists>r'. reservoir_writes [sample_traced 70, sample_traced 90] zeroed_reservoir = Value r' \<and>
     reservoir_snapshot r' = [exemplar_of (sample_traced 70), exemplar_of (sample_traced 90)] \<and>
     reservoir_snapshot (reservoir_reset r') = []"
proof -
  have "rv_seen zeroed_reservoir = 0" "length (rv_entries zeroed_reservoir) = 2"
    "\<forall>req\<in>set [sample_traced 70, sample_traced 90]. traced req" "length [sample_traced 70, sample_traced 90] < 2 ^ 64"
    by (simp_all add: zeroed_reservoir_def EXEMPLAR_RESERVOIR_SIZE_def traced_def sample_traced_def)
  from exemplars_are_requests [OF this] show ?thesis
    by auto
qed

end
