(* ===== verification/Worker_Slots.thy ===== *)
theory Worker_Slots
  imports Histogram Request_Dims Exemplar_Reservoir
begin

text \<open>
  The per-worker block of the metrics zone, \<open>WorkerSlots\<close> of \<^verbatim>\<open>src/src/shm/mod.rs\<close>, its size, and the
  initialiser of the zone. On a fresh start the active slots are zeroed; on a reload only the route and
  upstream histograms are, because their indices are assigned anew, and every other series goes on.
\<close>

section \<open>Model\<close>

record WorkerSlots =
  ws_request_duration_combos :: "ExpHistogramSlot list"
  ws_route_duration_combos :: "ExpHistogramSlot list"
  ws_upstream_duration_combos :: "ExpHistogramSlot list"
  ws_request_body_bytes :: Histogram
  ws_response_body_bytes :: Histogram
  ws_upstream_response_ms :: Histogram
  ws_upstream_header_ms :: Histogram
  ws_upstream_connect_ms :: Histogram
  ws_upstream_bytes_received :: Histogram
  ws_upstream_bytes_sent :: Histogram
  ws_exemplar_reservoirs :: "ExemplarReservoir list"
  ws_error_rate_counters :: "u64 list"

definition zeroed_slots :: WorkerSlots where
  "zeroed_slots =
     \<lparr>ws_request_duration_combos = replicate N_COMBOS empty_exp_slot,
      ws_route_duration_combos = replicate N_ROUTE_SLOTS empty_exp_slot,
      ws_upstream_duration_combos = replicate N_UPSTREAM_SLOTS empty_exp_slot,
      ws_request_body_bytes = empty_histogram N_BYTES_BUCKETS,
      ws_response_body_bytes = empty_histogram N_BYTES_BUCKETS,
      ws_upstream_response_ms = empty_histogram N_DURATION_BUCKETS,
      ws_upstream_header_ms = empty_histogram N_DURATION_BUCKETS,
      ws_upstream_connect_ms = empty_histogram N_DURATION_BUCKETS,
      ws_upstream_bytes_received = empty_histogram N_BYTES_BUCKETS,
      ws_upstream_bytes_sent = empty_histogram N_BYTES_BUCKETS,
      ws_exemplar_reservoirs = replicate N_COMBOS zeroed_reservoir,
      ws_error_rate_counters = replicate N_SEVERITY_CLASSES 0\<rparr>"

text \<open>\<open>size_of\<close> of the \<open>repr(C)\<close> structures, whose fields are all 8-byte aligned.\<close>

definition size_of_ExpHistogramSlot :: nat where
  "size_of_ExpHistogramSlot = (N_EXP_BUCKETS + 3) * 8"

definition size_of_Histogram :: "nat \<Rightarrow> nat" where
  "size_of_Histogram n = (n + 2) * 8"

definition size_of_ExemplarReservoir :: nat where
  "size_of_ExemplarReservoir = 8 + EXEMPLAR_RESERVOIR_SIZE * 48"

definition size_of_WorkerSlots :: nat where
  "size_of_WorkerSlots =
     (N_COMBOS + N_ROUTE_SLOTS + N_UPSTREAM_SLOTS) * size_of_ExpHistogramSlot
     + 4 * size_of_Histogram N_BYTES_BUCKETS + 3 * size_of_Histogram N_DURATION_BUCKETS
     + N_COMBOS * size_of_ExemplarReservoir + N_SEVERITY_CLASSES * 8"

definition zero_route_upstream_histograms :: "WorkerSlots \<Rightarrow> WorkerSlots" where
  "zero_route_upstream_histograms ws =
     ws\<lparr>ws_route_duration_combos := replicate N_ROUTE_SLOTS empty_exp_slot,
        ws_upstream_duration_combos := replicate N_UPSTREAM_SLOTS empty_exp_slot\<rparr>"

text \<open>\<open>wp_from_cycle\<close>, from the \<open>worker_processes\<close> of the cycle if its core configuration is there.\<close>

definition wp_from_cycle :: "int option \<Rightarrow> nat option" where
  "wp_from_cycle worker_processes =
     (case worker_processes of None \<Rightarrow> None | Some wp \<Rightarrow> if wp \<ge> 1 then Some (nat wp) else None)"

text \<open>
  \<open>otel_shm_zone_init\<close> on the reserved slots of a zone that holds at least one; \<open>reload\<close> is a non-null
  \<open>old_data\<close>, \<open>zid\<close> tells whether the zone carries its \<open>ZoneInitData\<close>.
\<close>

definition otel_shm_zone_init :: "bool \<Rightarrow> bool \<Rightarrow> int option \<Rightarrow> WorkerSlots list \<Rightarrow> WorkerSlots list" where
  "otel_shm_zone_init reload zid worker_processes slots =
     (if reload then map zero_route_upstream_histograms slots
      else
        let n_active = (if zid then (case wp_from_cycle worker_processes of Some n \<Rightarrow> n | None \<Rightarrow> 1) else 1);
            n_init = max (min n_active (length slots)) 1
        in replicate n_init zeroed_slots @ drop n_init slots)"

end
