(* ===== verification/Ring_Stream.thy ===== *)
theory Ring_Stream
  imports Signal_Ring Wire_Buffer
begin

text \<open>
  The path of a record type through the worker rings, generic in its codec: workers emit records into
  their own ring, the exporter's collector (the loops of \<open>collect_log_records\<close> and
  \<open>collect_span_records\<close> in \<^verbatim>\<open>src/src/drain/mod.rs\<close>) drains every ring up to a cap and parses what it
  popped. The locale \<open>ring_stream\<close> states what a codec promises; a history of emissions and ticks is
  then equal to one of plain bounded queues, one per worker.
\<close>

section \<open>The collector's loops\<close>

definition parsed :: "'a outcome \<Rightarrow> 'a list" where
  "parsed r = (case r of Value x \<Rightarrow> [x] | _ \<Rightarrow> [])"

definition collect_ring ::
  "(bytes \<Rightarrow> u64 \<Rightarrow> 'o outcome) \<Rightarrow> nat \<Rightarrow> u64 \<Rightarrow> ring \<Rightarrow> 'o list \<times> u64 \<times> ring" where
  "collect_ring parse n now r =
     (let dropped = drop_count r;
          (bufs, r') = drain_upto pop_into n r
      in (concat (map (\<lambda>buf. parsed (parse buf now)) bufs), dropped, r'))"

fun collect_rings ::
  "(bytes \<Rightarrow> u64 \<Rightarrow> 'o outcome) \<Rightarrow> nat \<Rightarrow> u64 \<Rightarrow> ring list \<Rightarrow> 'o list \<times> u64 \<times> ring list" where
  "collect_rings parse n now [] = ([], 0, [])"
| "collect_rings parse n now (r # rs) =
     (let (out, d, r') = collect_ring parse n now r;
          (rest, ds, rs') = collect_rings parse n now rs
      in (out @ rest, d + ds, r' # rs'))"

section \<open>Histories\<close>

text \<open>\<open>Emit w x\<close>: worker \<open>w\<close> emits \<open>x\<close>. \<open>Tick now\<close>: the exporter collects from every ring.\<close>

datatype 'r stream_op = Emit nat 'r | Tick u64

fun run_stream ::
  "('s \<Rightarrow> nat \<Rightarrow> 'r \<Rightarrow> ('s \<times> bool) outcome) \<Rightarrow> (u64 \<Rightarrow> 's \<Rightarrow> 'o list \<times> u64 \<times> 's) \<Rightarrow>
     's \<Rightarrow> 'r stream_op list \<Rightarrow> (('o list \<times> u64) list \<times> 's) outcome" where
  "run_stream emit collect s [] = Value ([], s)"
| "run_stream emit collect s (Emit w x # ops) =
     (case emit s w x of
        Value (s', _) \<Rightarrow> run_stream emit collect s' ops
      | Reject \<Rightarrow> Reject
      | Panic \<Rightarrow> Panic)"
| "run_stream emit collect s (Tick now # ops) =
     (let (out, dropped, s') = collect now s
      in case run_stream emit collect s' ops of
           Value (outs, s'') \<Rightarrow> Value ((out, dropped) # outs, s'')
         | Reject \<Rightarrow> Reject
         | Panic \<Rightarrow> Panic)"

definition emit_at ::
  "(ring \<Rightarrow> 'r \<Rightarrow> (ring \<times> bool) outcome) \<Rightarrow> ring list \<Rightarrow> nat \<Rightarrow> 'r \<Rightarrow> (ring list \<times> bool) outcome" where
  "emit_at emit rs w x =
     (case emit (rs ! w) x of
        Value (r', ok) \<Rightarrow> Value (rs[w := r'], ok)
      | Reject \<Rightarrow> Reject
      | Panic \<Rightarrow> Panic)"

text \<open>
  The reference: a worker's ring is the list of the records waiting in it and the number of records
  it refused. A record is refused exactly when its frame does not fit in the capacity.
\<close>

fun queue_stream ::
  "('r \<Rightarrow> nat) \<Rightarrow> ('r \<Rightarrow> u64 \<Rightarrow> 'o) \<Rightarrow> nat \<Rightarrow> nat \<Rightarrow> ('r list \<times> u64) list \<Rightarrow> 'r stream_op list \<Rightarrow>
     ('o list \<times> u64) list \<times> ('r list \<times> u64) list" where
  "queue_stream frame_size view n c qs [] = ([], qs)"
| "queue_stream frame_size view n c qs (Emit w x # ops) =
     (let (q, refused) = qs ! w
      in if sum_list (map frame_size q) + frame_size x \<le> c
         then queue_stream frame_size view n c (qs[w := (q @ [x], refused)]) ops
         else queue_stream frame_size view n c (qs[w := (q, refused + 1)]) ops)"
| "queue_stream frame_size view n c qs (Tick now # ops) =
     (let out = concat (map (\<lambda>(q, _). map (\<lambda>x. view x now) (take n q)) qs);
          (outs, qs') = queue_stream frame_size view n c (map (\<lambda>(q, refused). (drop n q, refused)) qs) ops
      in ((out, sum_list (map snd qs)) # outs, qs'))"

fun emissions :: "'r stream_op list \<Rightarrow> nat" where
  "emissions [] = 0"
| "emissions (Emit w x # ops) = Suc (emissions ops)"
| "emissions (Tick now # ops) = emissions ops"

fun valid_op :: "('r \<Rightarrow> bool) \<Rightarrow> nat \<Rightarrow> 'r stream_op \<Rightarrow> bool" where
  "valid_op valid n (Emit w x) \<longleftrightarrow> w < n \<and> valid x"
| "valid_op valid n (Tick now) \<longleftrightarrow> True"

text \<open>
  A history over a larger state per worker, when the operations only see and change the ring \<open>pr s\<close>
  of a worker's state \<open>s\<close>.
\<close>

lemma run_stream_project:
  fixes pr :: "'s \<Rightarrow> ring"
  assumes emit: "\<And>s w x. w < length s \<Longrightarrow> emit_at e (map pr s) w x =
        map_outcome (\<lambda>(s', ok). (map pr s', ok)) (emit s w x)"
    and emit_len: "\<And>s w x s' ok. emit s w x = Value (s', ok) \<Longrightarrow> length s' = length s"
    and collect: "\<And>now s out d s'. collect now s = (out, d, s') \<Longrightarrow>
        collect' now (map pr s) = (out, d, map pr s') \<and> length s' = length s"
    and "\<forall>op\<in>set ops. valid_op valid (length s) op"
    and run: "run_stream (emit_at e) collect' (map pr s) ops = Value (outs, t)"
  shows "\<exists>s'. run_stream emit collect s ops = Value (outs, s') \<and> map pr s' = t"
  using run assms(4)
proof (induction ops arbitrary: s outs)
  case (Cons op ops)
  show ?case
  proof (cases op)
    case (Emit w x)
    then obtain s1 ok where s1: "emit s w x = Value (s1, ok)"
      using Cons.prems emit [of w s x] by (cases "emit s w x") auto
    then have "emit_at e (map pr s) w x = Value (map pr s1, ok)"
      using emit [of w s x] Cons.prems Emit by simp
    with Cons Emit s1 emit_len [OF s1] show ?thesis
      by simp
  next
    case (Tick now)
    obtain out d s1 where c: "collect now s = (out, d, s1)"
      by (metis prod_cases3)
    from collect [OF this] Cons.prems Tick obtain outs1 where
      outs1: "run_stream (emit_at e) collect' (map pr s1) ops = Value (outs1, t)" "outs = (out, d) # outs1"
      by (auto split: outcome.splits)
    then obtain s2 where "run_stream emit collect s1 ops = Value (outs1, s2)" "map pr s2 = t"
      using Cons.IH [of s1 outs1] Cons.prems(2) collect [OF c] by auto
    with c outs1(2) Tick show ?thesis
      by simp
  qed
qed simp

section \<open>The codec contract\<close>

locale ring_stream =
  fixes emit :: "ring \<Rightarrow> 'r \<Rightarrow> (ring \<times> bool) outcome"
    and parse :: "bytes \<Rightarrow> u64 \<Rightarrow> 'o outcome"
    and enc :: "'r \<Rightarrow> bytes"
    and view :: "'r \<Rightarrow> u64 \<Rightarrow> 'o"
    and valid :: "'r \<Rightarrow> bool"
    and bound :: nat
  assumes emit_push: "valid x \<Longrightarrow> emit r x = Value (push r (enc x))"
    and enc_bound: "valid x \<Longrightarrow> 4 + length (enc x) \<le> bound"
    and parse_enc: "valid x \<Longrightarrow> parse (enc x) now = Value (view x now)"
begin

definition holds :: "nat \<Rightarrow> nat \<Rightarrow> ring \<Rightarrow> 'r list \<times> u64 \<Rightarrow> bool" where
  "holds c b r q \<longleftrightarrow>
     ring_queued b r (map enc (fst q)) \<and> (\<forall>x\<in>set (fst q). valid x) \<and> drop_count r = snd q \<and> unat (cap r) = c"

lemma collect_ring_holds:
  assumes "holds c b r q"
  shows "\<exists>r'. collect_ring parse n now r = (map (\<lambda>x. view x now) (take n (fst q)), snd q, r') \<and>
           holds c b r' (drop n (fst q), snd q)"
proof -
  obtain r' where r': "drain_upto pop_into n r = (take n (map enc (fst q)), r')"
    "ring_queued b r' (drop n (map enc (fst q)))" "drop_count r' = drop_count r"
    using shm_ring.drain_upto_queued [of b r "map enc (fst q)" n] assms by (auto simp: holds_def)
  have "cap r' = cap r"
    using cap_drain_upto [of n r] r'(1) by simp
  moreover have "concat (map (\<lambda>buf. parsed (parse buf now)) (map enc xs)) = map (\<lambda>x. view x now) xs"
    if "\<forall>x\<in>set xs. valid x" for xs
    using that by (induction xs) (simp_all add: parse_enc parsed_def)
  then have "concat (map (\<lambda>buf. parsed (parse buf now)) (take n (map enc (fst q)))) =
      map (\<lambda>x. view x now) (take n (fst q))"
    using assms unfolding take_map holds_def by (meson in_set_takeD)
  ultimately show ?thesis
    using r' assms unfolding holds_def collect_ring_def
    by (auto simp: drop_map dest: in_set_dropD)
qed

lemma collect_rings_holds:
  "list_all2 (holds c b) rs qs \<Longrightarrow>
     \<exists>rs'. collect_rings parse n now rs =
        (concat (map (\<lambda>(q, _). map (\<lambda>x. view x now) (take n q)) qs), sum_list (map snd qs), rs') \<and>
        list_all2 (holds c b) rs' (map (\<lambda>(q, refused). (drop n q, refused)) qs)"
proof (induction rule: list_all2_induct)
  case (Cons r rs q qs)
  with collect_ring_holds [of c b r q n now] show ?case
    by (auto simp: case_prod_beta)
qed simp

lemma emit_holds:
  assumes "holds c (bound + b) r q" "valid x"
  shows "\<exists>r' ok. emit r x = Value (r', ok) \<and>
     holds c b r' (if sum_list (map (\<lambda>y. 4 + length (enc y)) (fst q)) + (4 + length (enc x)) \<le> c
                   then (fst q @ [x], snd q) else (fst q, snd q + 1))"
proof -
  have "ring_queued (4 + length (enc x) + b) r (map enc (fst q))"
    using shm_ring.queued_mono [of "bound + b" r] assms enc_bound by (simp add: holds_def)
  from ring_push_bounded [OF this] obtain r' ok where r': "push r (enc x) = (r', ok)"
    "ok \<longleftrightarrow> sum_list (map (\<lambda>y. 4 + length y) (map enc (fst q))) + (4 + length (enc x)) \<le> unat (cap r)"
    "ring_queued b r' (if ok then map enc (fst q) @ [enc x] else map enc (fst q))"
    "drop_count r' = (if ok then drop_count r else drop_count r + 1)"
    by blast
  moreover have "cap r' = cap r"
    using cap_push [of r "enc x"] r'(1) by simp
  ultimately show ?thesis
    using assms by (auto simp: holds_def emit_push comp_def)
qed

lemma holds_mono: "holds c b r q \<Longrightarrow> b' \<le> b \<Longrightarrow> holds c b' r q"
  using shm_ring.queued_mono by (auto simp: holds_def)

lemma run_stream_queues:
  "list_all2 (holds c (bound * emissions ops)) rs qs \<Longrightarrow> \<forall>op\<in>set ops. valid_op valid (length rs) op \<Longrightarrow>
     \<exists>rs'. run_stream (emit_at emit) (collect_rings parse n) rs ops =
         Value (fst (queue_stream (\<lambda>x. 4 + length (enc x)) view n c qs ops), rs') \<and>
       list_all2 (holds c 0) rs' (snd (queue_stream (\<lambda>x. 4 + length (enc x)) view n c qs ops))"
proof (induction ops arbitrary: rs qs)
  case (Cons op ops)
  show ?case
  proof (cases op)
    case (Emit w x)
    have len: "w < length rs" "valid x" "length qs = length rs"
      using Cons.prems Emit by (auto dest: list_all2_lengthD)
    have "holds c (bound + bound * emissions ops) (rs ! w) (qs ! w)"
      using Cons.prems(1) Emit len by (simp add: list_all2_conv_all_nth)
    from emit_holds [OF this len(2)] obtain r' ok q' where r': "emit (rs ! w) x = Value (r', ok)"
      "holds c (bound * emissions ops) r' q'"
      "q' = (if sum_list (map (\<lambda>y. 4 + length (enc y)) (fst (qs ! w))) + (4 + length (enc x)) \<le> c
             then (fst (qs ! w) @ [x], snd (qs ! w)) else (fst (qs ! w), snd (qs ! w) + 1))"
      by blast
    have "list_all2 (holds c (bound * emissions ops)) (rs[w := r']) (qs[w := q'])"
      using Cons.prems(1) r'(2) len Emit holds_mono [of c "bound * emissions (op # ops)" _ _ "bound * emissions ops"]
      by (auto simp: list_all2_conv_all_nth nth_list_update)
    from Cons.IH [OF this] Cons.prems(2) r' Emit show ?thesis
      by (simp add: emit_at_def case_prod_beta split: if_splits)
  next
    case (Tick now)
    then obtain rs1 where rs1: "collect_rings parse n now rs =
        (concat (map (\<lambda>(q, _). map (\<lambda>x. view x now) (take n q)) qs), sum_list (map snd qs), rs1)"
        "list_all2 (holds c (bound * emissions ops)) rs1 (map (\<lambda>(q, refused). (drop n q, refused)) qs)"
      using collect_rings_holds [of c "bound * emissions ops" rs qs n now] Cons.prems by auto
    have "length rs1 = length rs"
      using rs1(2) Cons.prems(1) by (metis length_map list_all2_lengthD)
    with Cons.IH [OF rs1(2)] Cons.prems(2) rs1(1) Tick show ?thesis
      by (fastforce simp: case_prod_beta Let_def)
  qed
qed simp

lemma fresh_rings_hold:
  assumes "0 < unat c" "unat c \<le> 2 ^ 32" "unat c dvd 2 ^ 64 \<or> b < 2 ^ 64"
  shows "list_all2 (holds (unat c) b) (replicate k (fresh_ring c)) (replicate k ([], 0))"
proof -
  have "cap (fresh_ring c) = c"
    by (simp add: fresh_ring_def)
  then show ?thesis
    using fresh_ring_queued [OF assms] drop_count_fresh
    by (simp add: holds_def list_all2_conv_all_nth)
qed

end

end
