(* ===== verification/Span_Record.thy ===== *)
theory Span_Record
  imports Otel_Data_Model Wire_Buffer Utf8_Lossy Request_Dims Access_Record
begin

text \<open>
  The span record of \<^verbatim>\<open>src/src/traces/mod.rs\<close>: \<open>emit_span_record\<close>, which a worker runs in the LOG phase,
  and \<open>parse_span_record\<close>, which the exporter runs on the bytes of the spans ring. As for the access
  record: the formatter fits its stack buffer, the parser never panics, and parsing an emitted record
  gives the span with its fields cut at their caps.
\<close>

section \<open>Model\<close>

definition MAX_SPAN_NAME :: nat where "MAX_SPAN_NAME = 64"

definition MAX_URL_QUERY :: nat where "MAX_URL_QUERY = 128"

definition MAX_SPAN_ROUTE :: nat where "MAX_SPAN_ROUTE = 64"

definition MAX_SERVER_ADDR :: nat where "MAX_SERVER_ADDR = 64"

definition MAX_SPAN_EXTRA_ATTRS :: nat where "MAX_SPAN_EXTRA_ATTRS = 4"

definition MAX_SPAN_ATTR_KEY :: nat where "MAX_SPAN_ATTR_KEY = 32"

definition MAX_SPAN_ATTR_VAL :: nat where "MAX_SPAN_ATTR_VAL = 64"

definition SPAN_RECORD_FIXED_HDR :: nat where
  "SPAN_RECORD_FIXED_HDR = 16 + 8 + 8 + 4 + 8 + 8 + 1 + 1"

definition SPAN_RECORD_WORST_CASE :: nat where
  "SPAN_RECORD_WORST_CASE =
     SPAN_RECORD_FIXED_HDR + (2 + MAX_SPAN_NAME) + (2 + MAX_METHOD) + 2 + (2 + MAX_URL_PATH) + 8
     + 1 + 1 + 2 + 2 + 2 + 8 + 8 + (2 + MAX_URL_QUERY) + (2 + MAX_SPAN_ROUTE) + (2 + MAX_USER_AGENT)
     + (2 + MAX_SERVER_ADDR) + (2 + MAX_CLIENT_ADDR) + (2 + MAX_CLIENT_ADDR) + 2
     + MAX_SPAN_EXTRA_ATTRS * (1 + MAX_SPAN_ATTR_KEY + 2 + MAX_SPAN_ATTR_VAL)"

text \<open>\<open>(SPAN_RECORD_WORST_CASE + 15) & !15\<close>\<close>

definition MAX_SPAN_RECORD :: nat where
  "MAX_SPAN_RECORD = (SPAN_RECORD_WORST_CASE + 15) div 16 * 16"

record SpanRecord =
  sp_trace_id :: bytes
  sp_span_id :: bytes
  sp_parent_span_id :: bytes
  sp_flags :: u32
  sp_start_time_unix_nano :: u64
  sp_end_time_unix_nano :: u64
  sp_status_code :: u8
  sp_kind :: u8
  sp_name :: bytes
  sp_method :: bytes
  sp_http_status :: u16
  sp_url_path :: bytes
  sp_duration_us :: u64
  sp_proto :: u8
  sp_scheme_https :: bool
  sp_server_port :: u16
  sp_client_port :: u16
  sp_peer_port :: u16
  sp_req_body_size :: u64
  sp_resp_body_size :: u64
  sp_url_query :: bytes
  sp_route :: bytes
  sp_user_agent :: bytes
  sp_server_address :: bytes
  sp_client_address :: bytes
  sp_peer_address :: bytes
  sp_extra_attrs :: "(bytes \<times> bytes) list"

text \<open>One \<open>otel_span_attr\<close> pair: \<open>u8\<close> key length, key, \<open>u16\<close> value length, value.\<close>

definition extra_attr_writes :: "bytes \<times> bytes \<Rightarrow> bytes list" where
  "extra_attr_writes kv =
     (let k = take MAX_SPAN_ATTR_KEY (fst kv); v = take MAX_SPAN_ATTR_VAL (snd kv)
      in [[of_nat (length k)], k, u16_to_be_bytes (of_nat (length v)), v])"

definition span_record_writes :: "SpanRecord \<Rightarrow> bytes list" where
  "span_record_writes rec =
     [sp_trace_id rec, sp_span_id rec, sp_parent_span_id rec, u32_to_be_bytes (sp_flags rec),
      u64_to_be_bytes (sp_start_time_unix_nano rec), u64_to_be_bytes (sp_end_time_unix_nano rec),
      [sp_status_code rec], [sp_kind rec]]
     @ capped MAX_SPAN_NAME (sp_name rec)
     @ capped MAX_METHOD (sp_method rec)
     @ [u16_to_be_bytes (sp_http_status rec)]
     @ capped MAX_URL_PATH (sp_url_path rec)
     @ [u64_to_be_bytes (sp_duration_us rec), [sp_proto rec], [if sp_scheme_https rec then 1 else 0],
        u16_to_be_bytes (sp_server_port rec), u16_to_be_bytes (sp_client_port rec),
        u16_to_be_bytes (sp_peer_port rec), u64_to_be_bytes (sp_req_body_size rec),
        u64_to_be_bytes (sp_resp_body_size rec)]
     @ capped MAX_URL_QUERY (sp_url_query rec)
     @ capped MAX_SPAN_ROUTE (sp_route rec)
     @ capped MAX_USER_AGENT (sp_user_agent rec)
     @ capped MAX_SERVER_ADDR (sp_server_address rec)
     @ capped MAX_CLIENT_ADDR (sp_client_address rec)
     @ capped MAX_CLIENT_ADDR (sp_peer_address rec)
     @ (let n = min (length (sp_extra_attrs rec)) MAX_SPAN_EXTRA_ATTRS
        in u16_to_be_bytes (of_nat n) # concat (map extra_attr_writes (take n (sp_extra_attrs rec))))"

definition emit_span_record ::
  "('p \<Rightarrow> bytes \<Rightarrow> 'p \<times> bool) \<Rightarrow> 'p \<Rightarrow> SpanRecord \<Rightarrow> ('p \<times> bool) outcome" where
  "emit_span_record producer_push producer rec =
     (case write_all MAX_SPAN_RECORD (span_record_writes rec) of
        Value buf \<Rightarrow> Value (producer_push producer buf)
      | Reject \<Rightarrow> Reject
      | Panic \<Rightarrow> Panic)"

definition span_status_code :: "u8 \<Rightarrow> StatusCode" where
  "span_status_code raw = (if raw = 1 then Status_Ok else if raw = 2 then Status_Error else Unset)"

definition span_kind_of :: "u8 \<Rightarrow> SpanKind" where
  "span_kind_of raw =
     (if raw = 1 then Internal else if raw = 2 then Server else if raw = 3 then Client
      else if raw = 4 then Producer else if raw = 5 then Consumer else Kind_Unspecified)"

text \<open>The loop over the extra attributes, breaking off at the first truncated one.\<close>

primrec read_extra_attrs :: "nat \<Rightarrow> bytes \<Rightarrow> (rust_string \<times> rust_string) list" where
  "read_extra_attrs 0 rest = []"
| "read_extra_attrs (Suc n) rest =
     (if length rest < 1 then []
      else
        let k_len = unat (rest ! 0); rest = drop 1 rest
        in if length rest < k_len then []
           else
             let key = from_utf8_lossy (take k_len rest); rest = drop k_len rest
             in if length rest < 2 then []
                else
                  let v_len = unat (u16_from_be_bytes (take 2 rest)); rest = drop 2 rest
                  in if length rest < v_len then []
                     else (key, from_utf8_lossy (take v_len rest)) # read_extra_attrs n (drop v_len rest))"

definition str_attr :: "string \<Rightarrow> rust_string \<Rightarrow> KeyValue list" where
  "str_attr k v = (if v \<noteq> [] then [KV k (StringV v)] else [])"

definition port_attr :: "string \<Rightarrow> u16 \<Rightarrow> KeyValue list" where
  "port_attr k v = (if v > 0 then [KV k (IntV (ucast v))] else [])"

text \<open>The attributes of the span, in the order the parser pushes them.\<close>

definition span_record_attributes :: "SpanRecord \<Rightarrow> KeyValue list" where
  "span_record_attributes f =
     map (\<lambda>(k, v). \<lparr>kv_key = k, kv_value = StringV v\<rparr>) (sp_extra_attrs f)
     @ str_attr ''http.request.method'' (sp_method f)
     @ port_attr ''http.response.status_code'' (sp_http_status f)
     @ str_attr ''url.path'' (sp_url_path f)
     @ (if sp_duration_us f > 0
        then [KV ''http.server.request.duration'' (DoubleV (of_nat (unat (sp_duration_us f)) / 1000000))] else [])
     @ str_attr ''url.query'' (sp_url_query f)
     @ str_attr ''http.route'' (sp_route f)
     @ [KV ''url.scheme'' (StringV (if sp_scheme_https f then lit ''https'' else lit ''http'')),
        KV ''network.protocol.version'' (StringV (proto_as_str (proto_from_index (unat (sp_proto f)))))]
     @ str_attr ''user_agent.original'' (sp_user_agent f)
     @ [KV ''http.request.body.size'' (IntV (sp_req_body_size f)),
        KV ''http.response.body.size'' (IntV (sp_resp_body_size f))]
     @ str_attr ''server.address'' (sp_server_address f)
     @ port_attr ''server.port'' (sp_server_port f)
     @ str_attr ''client.address'' (sp_client_address f)
     @ port_attr ''client.port'' (sp_client_port f)
     @ str_attr ''network.peer.address'' (sp_peer_address f)
     @ port_attr ''network.peer.port'' (sp_peer_port f)
     @ (if sp_http_status f \<ge> 500
        then [KV ''error.type'' (StringV (dec_digits (unat (sp_http_status f))))] else [])"

definition span_from_fields :: "SpanRecord \<Rightarrow> Span" where
  "span_from_fields f =
     \<lparr>span_trace_id = sp_trace_id f, span_span_id = sp_span_id f,
      span_parent_span_id = (if sp_parent_span_id f = replicate 8 0 then [] else sp_parent_span_id f),
      span_flags = sp_flags f, span_name = sp_name f, span_kind = span_kind_of (sp_kind f),
      span_start_time_unix_nano = sp_start_time_unix_nano f,
      span_end_time_unix_nano = sp_end_time_unix_nano f,
      span_attributes = span_record_attributes f, span_events = [], span_links = [],
      span_status = \<lparr>status_code = span_status_code (sp_status_code f), status_message = []\<rparr>\<rparr>"

text \<open>\<open>read_capped_str!\<close> and the three inlined reads of the same shape.\<close>

definition get_str :: "(rust_string \<Rightarrow> bytes \<Rightarrow> 'a outcome) \<Rightarrow> bytes \<Rightarrow> 'a outcome" where
  "get_str k = get_capped (\<lambda>bs. k (from_utf8_lossy bs))"

definition parse_span_record :: "bytes \<Rightarrow> u64 \<Rightarrow> Span outcome" where
  "parse_span_record buf observed_ns =
     (if length buf < SPAN_RECORD_FIXED_HDR + 2 then Reject
      else
        get_bytes 16 (\<lambda>trace_id. get_bytes 8 (\<lambda>span_id. get_bytes 8 (\<lambda>parent.
        get_u32 (\<lambda>flags. get_u64 (\<lambda>start_ns. get_u64 (\<lambda>end_ns.
        get_u8 (\<lambda>status_raw. get_u8 (\<lambda>kind_raw.
        get_str (\<lambda>name. get_str (\<lambda>method_str.
        need 2 (get_u16 (\<lambda>http_status.
        get_str (\<lambda>url_path.
        need 8 (get_u64 (\<lambda>duration_us.
        need 2 (get_u8 (\<lambda>proto_idx. get_u8 (\<lambda>scheme.
        need 6 (get_u16 (\<lambda>server_port. get_u16 (\<lambda>client_port. get_u16 (\<lambda>peer_port.
        need 16 (get_u64 (\<lambda>req_body_size. get_u64 (\<lambda>resp_body_size.
        get_str (\<lambda>url_query. get_str (\<lambda>route. get_str (\<lambda>user_agent.
        get_str (\<lambda>server_address. get_str (\<lambda>client_address. get_str (\<lambda>peer_address rest.
          let (n_extra, rest) =
                (if 2 \<le> length rest
                 then (min (unat (u16_from_be_bytes (take 2 rest))) MAX_SPAN_EXTRA_ATTRS, drop 2 rest)
                 else (0, rest))
          in Value (span_from_fields
               \<lparr>sp_trace_id = trace_id, sp_span_id = span_id, sp_parent_span_id = parent,
                sp_flags = flags, sp_start_time_unix_nano = start_ns, sp_end_time_unix_nano = end_ns,
                sp_status_code = status_raw, sp_kind = kind_raw, sp_name = name,
                sp_method = method_str, sp_http_status = http_status, sp_url_path = url_path,
                sp_duration_us = duration_us, sp_proto = proto_idx, sp_scheme_https = (scheme \<noteq> 0),
                sp_server_port = server_port, sp_client_port = client_port, sp_peer_port = peer_port,
                sp_req_body_size = req_body_size, sp_resp_body_size = resp_body_size,
                sp_url_query = url_query, sp_route = route, sp_user_agent = user_agent,
                sp_server_address = server_address, sp_client_address = client_address,
                sp_peer_address = peer_address,
                sp_extra_attrs = read_extra_attrs n_extra rest\<rparr>)))))))))))))))))))))))))))))))) buf)"

section \<open>The formatter fits its buffer\<close>

lemmas span_caps =
  MAX_SPAN_NAME_def MAX_URL_QUERY_def MAX_SPAN_ROUTE_def MAX_SERVER_ADDR_def MAX_SPAN_EXTRA_ATTRS_def
  MAX_SPAN_ATTR_KEY_def MAX_SPAN_ATTR_VAL_def SPAN_RECORD_FIXED_HDR_def access_caps

definition wf_span_ids :: "SpanRecord \<Rightarrow> bool" where
  "wf_span_ids rec \<longleftrightarrow>
     length (sp_trace_id rec) = 16 \<and> length (sp_span_id rec) = 8 \<and> length (sp_parent_span_id rec) = 8"

lemma extra_attrs_length:
  "length (concat (concat (map extra_attr_writes kvs))) \<le> length kvs * 99"
proof (induction kvs)
  case (Cons kv kvs)
  have "length (concat (extra_attr_writes kv)) \<le> 99"
    by (simp add: extra_attr_writes_def Let_def span_caps)
  with Cons show ?case
    by simp
qed simp

lemma span_record_length:
  assumes "wf_span_ids rec"
  shows "length (concat (span_record_writes rec)) \<le> SPAN_RECORD_WORST_CASE"
proof -
  let ?n = "min (length (sp_extra_attrs rec)) 4"
  have "length (concat (concat (map extra_attr_writes (take ?n (sp_extra_attrs rec))))) \<le> ?n * 99"
    using extra_attrs_length [of "take ?n (sp_extra_attrs rec)"] by simp
  then have "length (concat (concat (map extra_attr_writes (take ?n (sp_extra_attrs rec))))) \<le> 396"
    by simp
  with assms show ?thesis
    unfolding span_record_writes_def SPAN_RECORD_WORST_CASE_def wf_span_ids_def Let_def span_caps
    by simp
qed

lemma span_record_written:
  assumes "wf_span_ids rec"
  shows "write_all MAX_SPAN_RECORD (span_record_writes rec) = Value (concat (span_record_writes rec))"
proof (rule write_all_fits)
  have "SPAN_RECORD_WORST_CASE \<le> MAX_SPAN_RECORD"
    by (simp add: MAX_SPAN_RECORD_def SPAN_RECORD_WORST_CASE_def span_caps)
  then show "length (concat (span_record_writes rec)) \<le> MAX_SPAN_RECORD"
    using span_record_length [OF assms] by simp
qed

section \<open>The parser\<close>

lemma no_panic_get_str [no_panic]:
  "(\<And>bs rest'. no_panic_out (k bs rest')) \<Longrightarrow> no_panic_out (get_str k rest)"
  unfolding get_str_def by (rule no_panic_get_capped)

lemma get_str_append [wire_simps]:
  "n < 2 ^ 16 \<Longrightarrow>
     get_str k (u16_to_be_bytes (of_nat (min (length data) n)) @ take n data @ rest) =
       k (from_utf8_lossy (take n data)) rest"
  by (simp add: get_str_def get_capped_append)

lemma unat_of_nat_u8: "n < 256 \<Longrightarrow> unat (of_nat n :: u8) = n"
  by (simp add: unat_of_nat take_bit_eq_mod)

lemma unat_of_nat_u16: "n < 65536 \<Longrightarrow> unat (of_nat n :: u16) = n"
  by (simp add: unat_of_nat take_bit_eq_mod)

lemma read_extra_attrs_written:
  "read_extra_attrs (length kvs) (concat (concat (map extra_attr_writes kvs)) @ rest) =
     map (\<lambda>(k, v). (from_utf8_lossy (take MAX_SPAN_ATTR_KEY k), from_utf8_lossy (take MAX_SPAN_ATTR_VAL v))) kvs"
proof (induction kvs)
  case (Cons kv kvs)
  obtain k v where kv: "kv = (k, v)"
    by fastforce
  have "unat (of_nat (min (length k) 32) :: u8) = min (length k) 32"
    "unat (of_nat (min (length v) 64) :: u16) = min (length v) 64"
    by (simp_all add: unat_of_nat_u8 unat_of_nat_u16)
  with Cons kv show ?case
    by (simp add: extra_attr_writes_def Let_def span_caps)
qed simp

text \<open>What the exporter must see: every field cut at its cap and decoded.\<close>

definition capped_fields :: "SpanRecord \<Rightarrow> SpanRecord" where
  "capped_fields rec =
     \<lparr>sp_trace_id = sp_trace_id rec, sp_span_id = sp_span_id rec, sp_parent_span_id = sp_parent_span_id rec,
      sp_flags = sp_flags rec, sp_start_time_unix_nano = sp_start_time_unix_nano rec,
      sp_end_time_unix_nano = sp_end_time_unix_nano rec, sp_status_code = sp_status_code rec,
      sp_kind = sp_kind rec,
      sp_name = from_utf8_lossy (take MAX_SPAN_NAME (sp_name rec)),
      sp_method = from_utf8_lossy (take MAX_METHOD (sp_method rec)),
      sp_http_status = sp_http_status rec,
      sp_url_path = from_utf8_lossy (take MAX_URL_PATH (sp_url_path rec)),
      sp_duration_us = sp_duration_us rec, sp_proto = sp_proto rec, sp_scheme_https = sp_scheme_https rec,
      sp_server_port = sp_server_port rec, sp_client_port = sp_client_port rec, sp_peer_port = sp_peer_port rec,
      sp_req_body_size = sp_req_body_size rec, sp_resp_body_size = sp_resp_body_size rec,
      sp_url_query = from_utf8_lossy (take MAX_URL_QUERY (sp_url_query rec)),
      sp_route = from_utf8_lossy (take MAX_SPAN_ROUTE (sp_route rec)),
      sp_user_agent = from_utf8_lossy (take MAX_USER_AGENT (sp_user_agent rec)),
      sp_server_address = from_utf8_lossy (take MAX_SERVER_ADDR (sp_server_address rec)),
      sp_client_address = from_utf8_lossy (take MAX_CLIENT_ADDR (sp_client_address rec)),
      sp_peer_address = from_utf8_lossy (take MAX_CLIENT_ADDR (sp_peer_address rec)),
      sp_extra_attrs =
        map (\<lambda>(k, v). (from_utf8_lossy (take MAX_SPAN_ATTR_KEY k), from_utf8_lossy (take MAX_SPAN_ATTR_VAL v)))
          (take MAX_SPAN_EXTRA_ATTRS (sp_extra_attrs rec))\<rparr>"

lemma parse_span_record_written:
  assumes "wf_span_ids rec"
  shows "parse_span_record (concat (span_record_writes rec)) now = Value (span_from_fields (capped_fields rec))"
proof -
  let ?buf = "concat (span_record_writes rec)"
  define n where "n = min (length (sp_extra_attrs rec)) 4"
  define tail where "tail = concat (concat (map extra_attr_writes (take n (sp_extra_attrs rec))))"
  have extra: "read_extra_attrs n tail =
      map (\<lambda>(k, v). (from_utf8_lossy (take MAX_SPAN_ATTR_KEY k), from_utf8_lossy (take MAX_SPAN_ATTR_VAL v)))
        (take 4 (sp_extra_attrs rec))"
    using read_extra_attrs_written [of "take n (sp_extra_attrs rec)" "[]"] by (simp add: tail_def n_def)
  have n: "unat (of_nat n :: u16) = n" "min n 4 = n"
    by (simp_all add: n_def unat_of_nat_u16)
  let ?cap = "\<lambda>m xs. u16_to_be_bytes (of_nat (min (length xs) m)) @ take m xs"
  have buf: "?buf = sp_trace_id rec @ sp_span_id rec @ sp_parent_span_id rec @ u32_to_be_bytes (sp_flags rec) @
      u64_to_be_bytes (sp_start_time_unix_nano rec) @ u64_to_be_bytes (sp_end_time_unix_nano rec) @
      sp_status_code rec # sp_kind rec # ?cap 64 (sp_name rec) @ ?cap 16 (sp_method rec) @
      u16_to_be_bytes (sp_http_status rec) @ ?cap 64 (sp_url_path rec) @
      u64_to_be_bytes (sp_duration_us rec) @ sp_proto rec # (if sp_scheme_https rec then 1 else 0) #
      u16_to_be_bytes (sp_server_port rec) @ u16_to_be_bytes (sp_client_port rec) @
      u16_to_be_bytes (sp_peer_port rec) @ u64_to_be_bytes (sp_req_body_size rec) @
      u64_to_be_bytes (sp_resp_body_size rec) @ ?cap 128 (sp_url_query rec) @ ?cap 64 (sp_route rec) @
      ?cap 128 (sp_user_agent rec) @ ?cap 64 (sp_server_address rec) @ ?cap 46 (sp_client_address rec) @
      ?cap 46 (sp_peer_address rec) @ u16_to_be_bytes (of_nat n) @ tail"
    by (simp add: span_record_writes_def concat_capped Let_def span_caps n_def tail_def)
  show ?thesis
    unfolding parse_span_record_def buf using assms
    by (simp add: wire_simps wf_span_ids_def n extra span_caps capped_fields_def)
qed

section \<open>Properties\<close>

definition sample_span :: SpanRecord where
  "sample_span =
     \<lparr>sp_trace_id = replicate 16 0xAB, sp_span_id = replicate 8 0xCD, sp_parent_span_id = replicate 8 0,
      sp_flags = 1, sp_start_time_unix_nano = 1000, sp_end_time_unix_nano = 2500, sp_status_code = 2,
      sp_kind = 2, sp_name = lit ''GET /checkout'', sp_method = lit ''GET'', sp_http_status = 503,
      sp_url_path = replicate 80 0x61, sp_duration_us = 1500, sp_proto = 1, sp_scheme_https = True,
      sp_server_port = 443, sp_client_port = 50000, sp_peer_port = 0, sp_req_body_size = 7,
      sp_resp_body_size = 9, sp_url_query = [], sp_route = lit ''/checkout'', sp_user_agent = lit ''curl/8'',
      sp_server_address = lit ''example.com'', sp_client_address = lit ''10.0.0.1'', sp_peer_address = [],
      sp_extra_attrs = replicate 6 (lit ''tenant'', lit ''blue'')\<rparr>"

lemma wf_sample_span: "wf_span_ids sample_span"
  by (simp add: wf_span_ids_def sample_span_def)

text \<open>
  On any bytes at all, \<open>parse_span_record\<close> returns a span or \<open>None\<close>; it never indexes out of bounds.
\<close>

lemma parse_span_record_no_panic: "parse_span_record buf observed_ns \<noteq> Panic"
proof (cases "length buf < SPAN_RECORD_FIXED_HDR + 2")
  case False
  then have "no_panic_out (parse_span_record buf observed_ns)"
    unfolding parse_span_record_def if_not_P [OF False]
    using False by (intro no_panic) (simp_all add: span_caps Let_def split: prod.splits)
  then show ?thesis
    by (simp add: no_panic_out_def)
qed (simp add: parse_span_record_def)

text \<open>
  C24. Parsing what \<open>emit_span_record\<close> pushed gives the span of the request: identifiers (an all-zero
  parent becomes the empty parent of a root span), flags, times, status and kind, and the attributes
  from the fields cut at their caps, with at most four extra attributes.
\<close>

theorem span_record_roundtrip:
  assumes "wf_span_ids rec"
  shows "\<exists>buf. emit_span_record (\<lambda>sent b. (sent @ [b], True)) [] rec = Value ([buf], True) \<and>
           parse_span_record buf observed_ns = Value (span_from_fields (capped_fields rec))"
  using span_record_written [OF assms] parse_span_record_written [OF assms]
  by (simp add: emit_span_record_def)

theorem span_record_roundtrip_witness:
  "\<exists>buf. emit_span_record (\<lambda>sent b. (sent @ [b], True)) [] sample_span = Value ([buf], True) \<and>
     parse_span_record buf 0 = Value (span_from_fields (capped_fields sample_span))"
  by (rule span_record_roundtrip [OF wf_sample_span])

end
