(* ===== verification/Log_Collect.thy ===== *)
theory Log_Collect
  imports Ring_Stream Access_Record Span_Record Error_Record
begin

text \<open>
  The exporter's collectors, \<^verbatim>\<open>src/src/drain/mod.rs\<close>: \<open>build_resource_attrs\<close>, \<open>collect_log_records\<close>
  and \<open>collect_span_records\<close>. The shared memory of a worker is its two log rings, its coalescing table
  and its spans ring. Each ring is drained up to a cap per pass; what a parser rejects is skipped (the
  parsers never panic). The package version is a parameter; \<open>now\<close> is the wall clock.

  Shown: what workers emitted is in the batch, in order and decoded; every occurrence the coalescing
  table counted reaches the batch, with the sampled record or with a synthetic one.
\<close>

section \<open>Model\<close>

record resource_conf =
  rc_service_name :: bytes
  rc_resource_attrs :: "(bytes \<times> bytes) list"
  rc_master_pid :: nat
  rc_version :: rust_string

definition build_resource_attrs :: "resource_conf \<Rightarrow> KeyValue list" where
  "build_resource_attrs rc =
     (let svc_name = (if rc_service_name rc \<noteq> []
                      then (if utf8_valid (rc_service_name rc) then Some (rc_service_name rc) else None)
                      else Some (lit ''unknown_service:nginx''));
          attrs = (case svc_name of Some name \<Rightarrow> [KV ''service.name'' (StringV name)] | None \<Rightarrow> [])
                  @ map (\<lambda>(k, v). \<lparr>kv_key = k, kv_value = StringV v\<rparr>)
                      (filter (\<lambda>(k, v). utf8_valid k \<and> utf8_valid v) (rc_resource_attrs rc));
          has_instance_id = (\<exists>kv\<in>set attrs. kv_key kv = lit ''service.instance.id'')
      in if has_instance_id then attrs
         else attrs @ [KV ''service.instance.id'' (StringV (dec_digits (rc_master_pid rc)))])"

definition exporter_scope :: "resource_conf \<Rightarrow> Scope" where
  "exporter_scope rc = \<lparr>scope_name = lit ''ngx-otel-rust'', scope_version = rc_version rc\<rparr>"

record worker_logs =
  wl_access :: ring
  wl_error :: ring
  wl_coalesce :: "CoalesceSlot list"

record LogsDropCounts =
  ld_access_dropped :: u64
  ld_error_dropped :: u64
  ld_error_coalesced_orphaned :: u64

definition MAX_ACCESS_RECORDS_PER_WORKER_PER_DRAIN :: nat where
  "MAX_ACCESS_RECORDS_PER_WORKER_PER_DRAIN = 2500"

definition MAX_ERROR_RECORDS_PER_WORKER_PER_DRAIN :: nat where
  "MAX_ERROR_RECORDS_PER_WORKER_PER_DRAIN = 50000"

definition MAX_SPAN_RECORDS_PER_WORKER_PER_DRAIN :: nat where
  "MAX_SPAN_RECORDS_PER_WORKER_PER_DRAIN = 2500"

text \<open>One worker of the access loop.\<close>

definition collect_access :: "u64 \<Rightarrow> worker_logs \<Rightarrow> LogRecord list \<times> u64 \<times> worker_logs" where
  "collect_access now wl =
     (let (logs, dropped, ring) =
            collect_ring parse_access_record MAX_ACCESS_RECORDS_PER_WORKER_PER_DRAIN now (wl_access wl)
      in (logs, dropped, wl\<lparr>wl_access := ring\<rparr>))"

definition ORPHANED_BODY :: rust_string where
  "ORPHANED_BODY = lit ''(ring-full: verbatim sample dropped '' @ [0xE2, 0x80, 0x94]
     @ lit '' occurrence count preserved)''"

definition orphaned_record :: "u64 \<Rightarrow> u64 \<Rightarrow> u8 \<Rightarrow> u32 \<Rightarrow> LogRecord" where
  "orphaned_record now hash severity cnt =
     \<lparr>lr_time_unix_nano = now, lr_observed_time_unix_nano = now,
      lr_severity_number = fst (nginx_to_otel (ucast severity)),
      lr_severity_text = snd (nginx_to_otel (ucast severity)),
      lr_body = StringV ORPHANED_BODY,
      lr_attributes = [KV ''nginx.error.template_hash'' (IntV hash),
                       KV ''nginx.error.coalesced_count'' (IntV (ucast cnt))],
      lr_event_name = lit ''nginx.error'', lr_trace_id = [], lr_span_id = []\<rparr>"

text \<open>One worker of the error loop. Building the hash map, a later entry replaces an earlier one.\<close>

definition counts_lookup :: "(u64 \<times> u8 \<times> u32) list \<Rightarrow> u64 \<Rightarrow> u32 option" where
  "counts_lookup counts_vec = map_of (rev (map (\<lambda>(hash, _, cnt). (hash, cnt)) counts_vec))"

text \<open>What one popped record adds to the batch and to the consumed hashes.\<close>

fun pushed_log :: "LogRecord option \<times> u64 option \<Rightarrow> LogRecord list" where
  "pushed_log (Some lr, _) = [lr]"
| "pushed_log (None, _) = []"

fun consumed_hash :: "LogRecord option \<times> u64 option \<Rightarrow> u64 list" where
  "consumed_hash (Some lr, Some th) = [th]"
| "consumed_hash _ = []"

definition collect_errors :: "u64 \<Rightarrow> worker_logs \<Rightarrow> LogRecord list \<times> u64 \<times> u64 \<times> worker_logs" where
  "collect_errors now wl =
     (let (counts_vec, tbl) = drain_coalesce_table (wl_coalesce wl);
          counts_map = counts_lookup counts_vec;
          dropped = drop_count (wl_error wl);
          (bufs, ring) = drain_upto pop_into MAX_ERROR_RECORDS_PER_WORKER_PER_DRAIN (wl_error wl);
          results = map (\<lambda>buf. parse_error_record_consuming buf now counts_map) bufs;
          logs = concat (map pushed_log results);
          consumed = concat (map consumed_hash results);
          orphans = filter (\<lambda>(hash, severity, cnt). cnt > 0 \<and> hash \<notin> set consumed) counts_vec
      in (logs @ map (\<lambda>(hash, severity, cnt). orphaned_record now hash severity cnt) orphans,
          dropped, sum_list (map (\<lambda>(_, _, cnt). ucast cnt) orphans),
          wl\<lparr>wl_coalesce := tbl, wl_error := ring\<rparr>))"

fun collect_access_all :: "u64 \<Rightarrow> worker_logs list \<Rightarrow> LogRecord list \<times> u64 \<times> worker_logs list" where
  "collect_access_all now [] = ([], 0, [])"
| "collect_access_all now (wl # wls) =
     (let (logs, d, wl') = collect_access now wl; (rest, ds, wls') = collect_access_all now wls
      in (logs @ rest, d + ds, wl' # wls'))"

fun collect_errors_all :: "u64 \<Rightarrow> worker_logs list \<Rightarrow> LogRecord list \<times> u64 \<times> u64 \<times> worker_logs list" where
  "collect_errors_all now [] = ([], 0, 0, [])"
| "collect_errors_all now (wl # wls) =
     (let (logs, d, orph, wl') = collect_errors now wl; (rest, ds, orphs, wls') = collect_errors_all now wls
      in (logs @ rest, d + ds, orph + orphs, wl' # wls'))"

definition collect_log_records ::
  "resource_conf \<Rightarrow> bool \<Rightarrow> u64 \<Rightarrow> worker_logs list \<Rightarrow> (LogsBatch \<times> LogsDropCounts) \<times> worker_logs list" where
  "collect_log_records rc error_log_enabled now wls =
     (let (logs, access_dropped, wls1) = collect_access_all now wls;
          (elogs, error_dropped, orphaned, wls2) =
            (if error_log_enabled then collect_errors_all now wls1 else ([], 0, 0, wls1))
      in ((\<lparr>logs_resource = \<lparr>res_attributes = build_resource_attrs rc\<rparr>, logs_scope = exporter_scope rc,
            logs_logs = logs @ elogs\<rparr>,
           \<lparr>ld_access_dropped = access_dropped, ld_error_dropped = error_dropped,
            ld_error_coalesced_orphaned = orphaned\<rparr>), wls2))"

definition collect_span_records :: "resource_conf \<Rightarrow> u64 \<Rightarrow> ring list \<Rightarrow> (SpansBatch \<times> u64) \<times> ring list" where
  "collect_span_records rc now rings =
     (let (spans, total_dropped, rings') =
            collect_rings parse_span_record MAX_SPAN_RECORDS_PER_WORKER_PER_DRAIN now rings
      in ((\<lparr>spans_resource = \<lparr>res_attributes = build_resource_attrs rc\<rparr>, spans_scope = exporter_scope rc,
            spans_spans = spans\<rparr>, total_dropped), rings'))"

section \<open>The access path\<close>

lemma access_sr_bound: "wf_trace (sr_trace req) \<Longrightarrow> 4 + length (concat (access_record_writes req)) \<le> 340"
  using access_record_length [of req] by (simp add: ACCESS_RECORD_WORST_CASE_def access_caps)

interpretation access_stream: ring_stream "emit_access_record push" parse_access_record
  "\<lambda>req. concat (access_record_writes req)" access_log_of "\<lambda>req. wf_trace (sr_trace req)" 340
  by unfold_locales
    (simp_all add: emit_access_record_def access_record_written parse_access_record_written access_sr_bound)

definition emit_access ::
  "worker_logs list \<Rightarrow> nat \<Rightarrow> SampledRequest \<Rightarrow> (worker_logs list \<times> bool) outcome" where
  "emit_access wls w req =
     (case emit_access_record push (wl_access (wls ! w)) req of
        Value (r', ok) \<Rightarrow> Value (wls[w := (wls ! w)\<lparr>wl_access := r'\<rparr>], ok)
      | Reject \<Rightarrow> Reject
      | Panic \<Rightarrow> Panic)"

definition tick_access ::
  "resource_conf \<Rightarrow> bool \<Rightarrow> u64 \<Rightarrow> worker_logs list \<Rightarrow> LogRecord list \<times> u64 \<times> worker_logs list" where
  "tick_access rc error_log_enabled now wls =
     (let ((batch, drops), wls') = collect_log_records rc error_log_enabled now wls
      in (filter (\<lambda>lr. lr_event_name lr = lit ''http.access'') (logs_logs batch), ld_access_dropped drops, wls'))"

lemma collect_access_all_rings:
  "collect_access_all now wls = (logs, d, wls') \<Longrightarrow>
     collect_rings parse_access_record MAX_ACCESS_RECORDS_PER_WORKER_PER_DRAIN now (map wl_access wls) =
       (logs, d, map wl_access wls')"
proof (induction wls arbitrary: logs d wls')
  case (Cons wl wls)
  then show ?case
    by (auto simp: collect_access_def split: prod.splits)
qed simp

lemma collect_errors_access: "map wl_access (snd (snd (snd (collect_errors_all now wls)))) = map wl_access wls"
  by (induction wls) (simp_all add: collect_errors_def Let_def case_prod_beta)

definition outcome_all :: "('a \<Rightarrow> bool) \<Rightarrow> 'a outcome \<Rightarrow> bool" where
  "outcome_all P r \<longleftrightarrow> (\<forall>x. r = Value x \<longrightarrow> P x)"

lemma outcome_all_simps [simp]:
  "outcome_all P (Value x) = P x" "outcome_all P Reject" "outcome_all P Panic"
  by (simp_all add: outcome_all_def)

lemma outcome_all_get:
  "(\<And>bs rest'. outcome_all P (k bs rest')) \<Longrightarrow> outcome_all P (get_bytes n k rest)"
  "(\<And>rest'. outcome_all P (k' rest')) \<Longrightarrow> outcome_all P (need n k' rest)"
  by (simp_all add: get_bytes_def need_def)

lemma parsed_all: "outcome_all P r \<Longrightarrow> x \<in> set (parsed r) \<Longrightarrow> P x"
  by (cases r) (auto simp: parsed_def)

lemma parse_access_event:
  "outcome_all (\<lambda>lr. lr_event_name lr = lit ''http.access'') (parse_access_record buf now)"
  unfolding parse_access_record_def
  by (auto simp: get_u8_def get_u16_def get_u64_def access_log_record_def Let_def
      intro!: outcome_all_get split: prod.splits)

lemma parse_error_event:
  "outcome_all (\<lambda>lr. lr_event_name lr = lit ''nginx.error'') (parse_error_record buf now counts_map)"
  unfolding parse_error_record_def
  by (auto simp: get_u8_def get_u16_def get_u64_def error_log_record_def intro!: outcome_all_get)

lemma collect_errors_event:
  "\<forall>lr\<in>set (fst (collect_errors_all now wls)). lr_event_name lr = lit ''nginx.error''"
proof (induction wls)
  case (Cons wl wls)
  have "lr_event_name lr = lit ''nginx.error''"
    if "parse_error_record_consuming buf now cm = (Some lr, th)" for buf cm lr th
    using that parse_error_event [of buf now cm]
    by (auto simp: parse_error_record_consuming_def Let_def split: outcome.splits)
  then have "\<forall>lr\<in>set (pushed_log (parse_error_record_consuming buf now cm)). lr_event_name lr = lit ''nginx.error''"
    for buf cm
    by (cases "(parse_error_record_consuming buf now cm)" rule: pushed_log.cases) auto
  then have "\<forall>lr\<in>set (fst (collect_errors now wl)). lr_event_name lr = lit ''nginx.error''"
    by (auto simp: collect_errors_def Let_def case_prod_beta orphaned_record_def)
  with Cons show ?case
    by (simp add: case_prod_beta ball_Un)
qed simp

lemma collect_access_event:
  "collect_rings parse_access_record n now rs = (logs, d, rs') \<Longrightarrow>
     \<forall>lr\<in>set logs. lr_event_name lr = lit ''http.access''"
proof (induction rs arbitrary: logs d rs')
  case (Cons r rs)
  then show ?case
    using parsed_all [OF parse_access_event]
    by (fastforce simp: collect_ring_def split: prod.splits)
qed simp

lemma filter_events:
  assumes "\<forall>lr\<in>set xs. lr_event_name lr = lit ''http.access''" "\<forall>lr\<in>set ys. lr_event_name lr = lit ''nginx.error''"
  shows "filter (\<lambda>lr. lr_event_name lr = lit ''http.access'') (xs @ ys) = xs"
proof -
  have "lit ''http.access'' \<noteq> lit ''nginx.error''"
    by code_simp
  then show ?thesis
    using assms by (simp add: filter_empty_conv filter_id_conv)
qed

lemma tick_access_rings:
  assumes "tick_access rc enabled now wls = (out, d, wls')"
  shows "collect_rings parse_access_record MAX_ACCESS_RECORDS_PER_WORKER_PER_DRAIN now (map wl_access wls) =
    (out, d, map wl_access wls')"
proof -
  obtain logs d1 wls1 where acc: "collect_access_all now wls = (logs, d1, wls1)"
    by (metis prod_cases3)
  note rings = collect_access_all_rings [OF acc]
  note ev = collect_access_event [OF rings]
  show ?thesis
  proof (cases enabled)
    case True
    with filter_events [OF ev collect_errors_event [of now wls1]] rings assms acc
      collect_errors_access [of now wls1]
    show ?thesis
      by (auto simp: tick_access_def collect_log_records_def split: prod.splits)
  next
    case False
    with filter_events [OF ev, of "[]"] rings assms acc show ?thesis
      by (auto simp: tick_access_def collect_log_records_def)
  qed
qed

lemma emit_access_rings:
  "w < length wls \<Longrightarrow> emit_at (emit_access_record push) (map wl_access wls) w req =
     map_outcome (\<lambda>(wls', ok). (map wl_access wls', ok)) (emit_access wls w req)"
  by (auto simp: emit_access_def emit_at_def map_update split: outcome.splits)

lemma collect_rings_length: "collect_rings parse n now rs = (out, d, rs') \<Longrightarrow> length rs' = length rs"
  by (induction rs arbitrary: out d rs') (auto split: prod.splits)

lemma access_stream_run:
  assumes "0 < unat c" "unat c \<le> 2 ^ 32" "unat c dvd 2 ^ 64 \<or> 340 * emissions ops < 2 ^ 64"
    and "\<forall>wl\<in>set wls. wl_access wl = fresh_ring c"
    and "\<forall>op\<in>set ops. valid_op (\<lambda>req. wf_trace (sr_trace req)) (length wls) op"
  shows "\<exists>wls'. run_stream emit_access (tick_access rc enabled) wls ops =
     Value (fst (queue_stream (\<lambda>req. 4 + length (concat (access_record_writes req))) access_log_of
       MAX_ACCESS_RECORDS_PER_WORKER_PER_DRAIN (unat c) (replicate (length wls) ([], 0)) ops), wls')"
proof -
  have rings: "map wl_access wls = replicate (length wls) (fresh_ring c)"
    using assms(4) by (simp add: map_replicate_const [symmetric])
  from access_stream.run_stream_queues [OF access_stream.fresh_rings_hold [OF assms(1-3)]]
  obtain rs where "run_stream (emit_at (emit_access_record push))
      (collect_rings parse_access_record MAX_ACCESS_RECORDS_PER_WORKER_PER_DRAIN) (map wl_access wls) ops =
     Value (fst (queue_stream (\<lambda>req. 4 + length (concat (access_record_writes req))) access_log_of
       MAX_ACCESS_RECORDS_PER_WORKER_PER_DRAIN (unat c) (replicate (length wls) ([], 0)) ops), rs)"
    using assms(5) unfolding rings by fastforce
  moreover have "length wls' = length wls" if "emit_access wls w req = Value (wls', ok)" for wls w req wls' ok
    using that by (auto simp: emit_access_def split: outcome.splits)
  moreover have "collect_rings parse_access_record MAX_ACCESS_RECORDS_PER_WORKER_PER_DRAIN now (map wl_access wls) =
      (out, d, map wl_access wls') \<and> length wls' = length wls"
    if "tick_access rc enabled now wls = (out, d, wls')" for now wls out d wls'
    using tick_access_rings [OF that] collect_rings_length by fastforce
  ultimately show ?thesis
    using run_stream_project [where pr = wl_access, OF emit_access_rings _ _ assms(5)] by blast
qed

section \<open>The span path\<close>

lemma span_frame_bound: "wf_span_ids rec \<Longrightarrow> 4 + length (concat (span_record_writes rec)) \<le> 1128"
  using span_record_length [of rec] by (simp add: SPAN_RECORD_WORST_CASE_def span_caps)

interpretation span_stream: ring_stream "emit_span_record push" parse_span_record
  "\<lambda>rec. concat (span_record_writes rec)" "\<lambda>rec now. span_from_fields (capped_fields rec)" wf_span_ids 1128
  by unfold_locales
    (simp_all add: emit_span_record_def span_record_written parse_span_record_written span_frame_bound)

definition tick_spans :: "resource_conf \<Rightarrow> u64 \<Rightarrow> ring list \<Rightarrow> Span list \<times> u64 \<times> ring list" where
  "tick_spans rc now rings =
     (let ((batch, dropped), rings') = collect_span_records rc now rings in (spans_spans batch, dropped, rings'))"

lemma tick_spans_rings:
  "tick_spans rc = collect_rings parse_span_record MAX_SPAN_RECORDS_PER_WORKER_PER_DRAIN"
  by (intro ext) (simp add: tick_spans_def collect_span_records_def case_prod_beta)

section \<open>The error path\<close>

type_synonym error_line = "u64 \<times> u8 \<times> u64 \<times> bytes"

definition error_frame :: "error_line \<Rightarrow> bytes" where
  "error_frame = (\<lambda>(ts, lvl, h, body). concat (error_record_writes ts lvl h body))"

definition error_log_of :: "u64 \<Rightarrow> (u64 \<Rightarrow> u32 option) \<Rightarrow> error_line \<Rightarrow> LogRecord" where
  "error_log_of now counts_map = (\<lambda>(ts, lvl, h, body).
     error_log_record ts now lvl h (take MAX_ERROR_BODY_LEN body) counts_map)"

definition line_hash :: "error_line \<Rightarrow> u64" where
  "line_hash = (\<lambda>(ts, lvl, h, body). h)"

lemma consuming_frame:
  "parse_error_record_consuming (error_frame l) now cm =
     (Some (error_log_of now cm l), if line_hash l \<noteq> 0 then Some (line_hash l) else None)"
  by (simp add: error_frame_def error_log_of_def line_hash_def parse_consuming_written split: prod.split)

lemma drained_entry:
  "(k, sev, cnt) \<in> set (fst (drain_coalesce_table tbl)) \<Longrightarrow> k \<noteq> 0 \<and> 0 < cnt"
  by (auto simp: drain_coalesce_table_def drain_slot_def split: if_splits)

lemma counts_lookup_entry:
  assumes "distinct (map fst counts_vec)" "(k, sev, cnt) \<in> set counts_vec"
  shows "counts_lookup counts_vec k = Some cnt"
proof -
  let ?ps = "map (\<lambda>(hash, _, cnt). (hash, cnt)) counts_vec"
  have "map fst ?ps = map fst counts_vec"
    by (simp add: case_prod_beta comp_def)
  then have "distinct (map fst (rev ?ps))"
    unfolding rev_map [symmetric] distinct_rev using assms(1) by argo
  then show ?thesis
    unfolding counts_lookup_def using assms(2) by (intro map_of_is_SomeI) force+
qed

lemma collect_errors_reference:
  assumes "ring_queued b (wl_error wl) (map error_frame ls)"
    and "drain_coalesce_table (wl_coalesce wl) = (counts_vec, tbl)"
    and "seen = take MAX_ERROR_RECORDS_PER_WORKER_PER_DRAIN ls"
    and "orphans = filter (\<lambda>(hash, sev, cnt). hash \<notin> line_hash ` set seen) counts_vec"
  shows "\<exists>ring. collect_errors now wl =
     (map (error_log_of now (counts_lookup counts_vec)) seen
        @ map (\<lambda>(hash, sev, cnt). orphaned_record now hash sev cnt) orphans,
      drop_count (wl_error wl), sum_list (map (\<lambda>(_, _, cnt). ucast cnt) orphans),
      wl\<lparr>wl_coalesce := tbl, wl_error := ring\<rparr>) \<and>
    ring_queued b ring (map error_frame (drop MAX_ERROR_RECORDS_PER_WORKER_PER_DRAIN ls))"
proof -
  let ?cm = "counts_lookup counts_vec"
  obtain ring where ring: "drain_upto pop_into MAX_ERROR_RECORDS_PER_WORKER_PER_DRAIN (wl_error wl) =
      (map error_frame seen, ring)"
    "ring_queued b ring (map error_frame (drop MAX_ERROR_RECORDS_PER_WORKER_PER_DRAIN ls))"
    using shm_ring.drain_upto_queued [OF assms(1), of MAX_ERROR_RECORDS_PER_WORKER_PER_DRAIN] assms(3)
    by (auto simp: take_map drop_map)
  let ?results = "map (\<lambda>buf. parse_error_record_consuming buf now ?cm) (map error_frame seen)"
  have logs: "concat (map pushed_log ?results) = map (error_log_of now ?cm) seen"
    by (induction seen) (simp_all add: consuming_frame)
  let ?consumed = "concat (map consumed_hash ?results)"
  have consumed: "set ?consumed = line_hash ` set seen - {0}"
    by (induction seen) (auto simp: consuming_frame)
  have orphans: "filter (\<lambda>(hash, sev, cnt). cnt > 0 \<and> hash \<notin> set ?consumed) counts_vec = orphans"
    unfolding assms(4) consumed
    using drained_entry [of _ _ _ "wl_coalesce wl"] assms(2) by (intro filter_cong) auto
  show ?thesis
    using ring(2) unfolding collect_errors_def assms(2) ring(1) Let_def prod.case logs orphans by blast
qed

lemma run_span_stream:
  assumes "0 < unat c" "unat c \<le> 2 ^ 32" "unat c dvd 2 ^ 64 \<or> 1128 * emissions ops < 2 ^ 64"
    and "\<forall>op\<in>set ops. valid_op wf_span_ids k op"
  shows "\<exists>rings. run_stream (emit_at (emit_span_record push)) (tick_spans rc) (replicate k (fresh_ring c)) ops =
     Value (fst (queue_stream (\<lambda>rec. 4 + length (concat (span_record_writes rec)))
       (\<lambda>rec now. span_from_fields (capped_fields rec)) MAX_SPAN_RECORDS_PER_WORKER_PER_DRAIN (unat c)
       (replicate k ([], 0)) ops), rings)"
  using span_stream.run_stream_queues [OF span_stream.fresh_rings_hold [OF assms(1-3)], of k
      MAX_SPAN_RECORDS_PER_WORKER_PER_DRAIN] assms(4)
  unfolding tick_spans_rings by fastforce

definition reports :: "LogRecord \<Rightarrow> u64 \<Rightarrow> u32 \<Rightarrow> bool" where
  "reports lr k cnt \<longleftrightarrow>
     KV ''nginx.error.template_hash'' (IntV k) \<in> set (lr_attributes lr) \<and>
     (cnt > 1 \<longrightarrow> KV ''nginx.error.coalesced_count'' (IntV (ucast cnt)) \<in> set (lr_attributes lr))"

definition sample_conf :: resource_conf where
  "sample_conf = \<lparr>rc_service_name = [], rc_resource_attrs = [], rc_master_pid = 7, rc_version = lit ''1.0''\<rparr>"

section \<open>Properties\<close>


text \<open>
  C17. No occurrence count is lost in a collection: every entry of the worker's coalescing table is
  reported in the batch. If the sample of its template is among the drained ring records, that record
  carries the count (when it exceeds one); otherwise a synthetic record of the entry's severity does,
  and the orphan total is the sum of the counts so reported.
\<close>

theorem coalesced_counts_reported:
  assumes "ring_queued b (wl_error wl) (map error_frame ls)"
    and "drain_coalesce_table (wl_coalesce wl) = (counts_vec, tbl)" "distinct (map fst counts_vec)"
    and "seen = take 50000 ls" "collect_errors now wl = (logs, drops, orphaned, wl')"
  shows "(\<forall>(k, sev, cnt)\<in>set counts_vec.
        if k \<in> line_hash ` set seen
        then \<exists>l\<in>set seen. line_hash l = k \<and>
               error_log_of now (counts_lookup counts_vec) l \<in> set logs \<and>
               reports (error_log_of now (counts_lookup counts_vec) l) k cnt
        else orphaned_record now k sev cnt \<in> set logs \<and> reports (orphaned_record now k sev cnt) k cnt) \<and>
     orphaned = sum_list (map (\<lambda>(k, sev, cnt). ucast cnt)
        (filter (\<lambda>(k, sev, cnt). k \<notin> line_hash ` set seen) counts_vec)) \<and>
     drops = drop_count (wl_error wl) \<and> wl_coalesce wl' = tbl"
proof -
  define orphans where "orphans = filter (\<lambda>(k, sev, cnt). k \<notin> line_hash ` set seen) counts_vec"
  have seen: "seen = take MAX_ERROR_RECORDS_PER_WORKER_PER_DRAIN ls"
    by (simp add: assms(4) MAX_ERROR_RECORDS_PER_WORKER_PER_DRAIN_def)
  from collect_errors_reference [OF assms(1,2) seen orphans_def, of now] assms(5)
  have out: "logs = map (error_log_of now (counts_lookup counts_vec)) seen
        @ map (\<lambda>(k, sev, cnt). orphaned_record now k sev cnt) orphans"
    "orphaned = sum_list (map (\<lambda>(k, sev, cnt). ucast cnt) orphans)"
    "drops = drop_count (wl_error wl)" "wl_coalesce wl' = tbl"
    by auto
  have sampled: "reports (error_log_of now (counts_lookup counts_vec) l) (line_hash l) cnt"
    if "(line_hash l, sev, cnt) \<in> set counts_vec" for l sev cnt
    using counts_lookup_entry [OF assms(3) that] drained_entry [of "line_hash l" sev cnt "wl_coalesce wl"] that assms(2)
    by (auto simp: reports_def error_log_of_def error_log_record_def line_hash_def split: prod.splits)
  have orphan: "reports (orphaned_record now k sev cnt) k cnt" for k sev cnt
    by (simp add: reports_def orphaned_record_def)
  have entry: "if k \<in> line_hash ` set seen
        then \<exists>l\<in>set seen. line_hash l = k \<and>
               error_log_of now (counts_lookup counts_vec) l \<in> set logs \<and>
               reports (error_log_of now (counts_lookup counts_vec) l) k cnt
        else orphaned_record now k sev cnt \<in> set logs \<and> reports (orphaned_record now k sev cnt) k cnt"
    if e: "(k, sev, cnt) \<in> set counts_vec" for k sev cnt
  proof (cases "k \<in> line_hash ` set seen")
    case True
    then obtain l where l: "l \<in> set seen" "k = line_hash l"
      by blast
    moreover have "error_log_of now (counts_lookup counts_vec) l \<in> set logs"
      using l out(1) by simp
    ultimately show ?thesis
      using sampled [of l sev cnt] e True by auto
  next
    case False
    then have "(k, sev, cnt) \<in> set orphans"
      using e by (simp add: orphans_def)
    then have "orphaned_record now k sev cnt \<in> set logs"
      unfolding out(1) by force
    with False orphan show ?thesis
      by simp
  qed
  show ?thesis
    using entry out(2-4) unfolding orphans_def [symmetric] by blast
qed

definition sample_table :: "CoalesceSlot list" where
  "sample_table = [empty_slot, \<lparr>cs_key_hash = 5, cs_severity = 4, cs_count = 3, cs_sample_emitted = True\<rparr>]"

theorem coalesced_counts_reported_witness:
  "\<exists>logs wl'. collect_errors 9 \<lparr>wl_access = fresh_ring 1024, wl_error = fresh_ring 1024, wl_coalesce = sample_table\<rparr> =
       (logs, 0, 3, wl') \<and> orphaned_record 9 5 4 3 \<in> set logs \<and> reports (orphaned_record 9 5 4 3) 5 3"
proof -
  let ?wl = "\<lparr>wl_access = fresh_ring 1024, wl_error = fresh_ring 1024, wl_coalesce = sample_table\<rparr>"
  obtain logs drops orphaned wl' where out: "collect_errors 9 ?wl = (logs, drops, orphaned, wl')"
    by (metis prod_cases4)
  have "ring_queued 0 (fresh_ring 1024) []"
    by (rule fresh_ring_queued) simp_all
  then have "ring_queued 0 (wl_error ?wl) (map error_frame [])"
    by simp
  moreover have "drain_coalesce_table (wl_coalesce ?wl) = ([(5, 4, 3)], [empty_slot, empty_slot])"
    by (simp add: sample_table_def drain_coalesce_table_def drain_slot_def empty_slot_def)
  moreover have "distinct (map fst [(5 :: u64, 4 :: u8, 3 :: u32)])"
    by simp
  ultimately have "orphaned_record 9 5 4 3 \<in> set logs \<and> reports (orphaned_record 9 5 4 3) 5 3 \<and>
      orphaned = 3 \<and> drops = 0"
    using coalesced_counts_reported [OF _ _ _ refl out, of 0 "[]" "[(5, 4, 3)]"] drop_count_fresh by simp
  with out show ?thesis
    by blast
qed

end
