(* ===== verification/Zone_Layout.thy ===== *)
theory Zone_Layout
  imports Worker_Slots Log_Collect
begin

text \<open>
  Where the workers' slots lie in the shared-memory zones: the size and offset arithmetic of
  \<^verbatim>\<open>src/src/shm/mod.rs\<close>, the number of slots to reserve and the per-request guard of
  \<^verbatim>\<open>src/src/config/mod.rs\<close>, and \<open>check_zone_sizing\<close> of \<^verbatim>\<open>src/src/lib.rs\<close>. The size of nginx's slab-pool
  header at the start of each zone (\<open>data_offset\<close>) is the parameter \<open>slab\<close>. A zone that is not registered
  (a null pointer in the code) is \<open>None\<close>, a registered one is its size in bytes.

  Shown: when the check at start-up passes, every worker is inside the guard, and the byte ranges of all
  workers' slots, rings and tables are inside their zone, aligned and disjoint. The zone initialisers
  give every active worker usable rings, on a fresh start and after a reload with more workers.
\<close>

section \<open>Sizes\<close>

definition DEFAULT_SPAN_RING_CAP :: nat where "DEFAULT_SPAN_RING_CAP = 256 * 1024"

definition zone_size_for :: "nat \<Rightarrow> nat \<Rightarrow> nat" where
  "zone_size_for slab n_workers = slab + n_workers * size_of_WorkerSlots"

definition n_workers_from_zone_size :: "nat \<Rightarrow> nat \<Rightarrow> nat" where
  "n_workers_from_zone_size slab zone_size = (zone_size - slab) div size_of_WorkerSlots"

definition logs_slot_size :: "nat \<Rightarrow> nat" where
  "logs_slot_size c = 2 * ring_size_bytes c + coalesce_table_bytes"

definition logs_zone_size_for :: "nat \<Rightarrow> nat \<Rightarrow> nat \<Rightarrow> nat" where
  "logs_zone_size_for slab n_workers c = slab + n_workers * logs_slot_size c"

definition logs_n_workers_from_zone :: "nat \<Rightarrow> nat \<Rightarrow> nat" where
  "logs_n_workers_from_zone zone_data_bytes c = max (zone_data_bytes div logs_slot_size c) 1"

definition spans_slot_size :: "nat \<Rightarrow> nat" where
  "spans_slot_size c = ring_size_bytes c"

definition spans_zone_size_for :: "nat \<Rightarrow> nat \<Rightarrow> nat \<Rightarrow> nat" where
  "spans_zone_size_for slab n_workers c = slab + n_workers * spans_slot_size c"

definition spans_n_workers_from_zone :: "nat \<Rightarrow> nat \<Rightarrow> nat" where
  "spans_n_workers_from_zone zone_data_bytes c = max (zone_data_bytes div spans_slot_size c) 1"

section \<open>Offsets from the base of a zone\<close>

definition worker_slots_offset :: "nat \<Rightarrow> nat" where
  "worker_slots_offset worker_id = worker_id * size_of_WorkerSlots"

text \<open>The stride follows the capacity stamped in worker 0's header, or the configured one before that.\<close>

definition stride_cap :: "nat \<Rightarrow> nat \<Rightarrow> nat" where
  "stride_cap hdr_cap c = (if hdr_cap > 0 then hdr_cap else c)"

definition logs_access_ring_offset :: "nat \<Rightarrow> nat \<Rightarrow> nat \<Rightarrow> nat" where
  "logs_access_ring_offset hdr_cap worker_id c = worker_id * logs_slot_size (stride_cap hdr_cap c)"

definition logs_error_ring_offset :: "nat \<Rightarrow> nat \<Rightarrow> nat \<Rightarrow> nat" where
  "logs_error_ring_offset hdr_cap worker_id c =
     worker_id * logs_slot_size (stride_cap hdr_cap c) + ring_size_bytes (stride_cap hdr_cap c)"

definition logs_coalesce_table_offset :: "nat \<Rightarrow> nat \<Rightarrow> nat \<Rightarrow> nat" where
  "logs_coalesce_table_offset hdr_cap worker_id c =
     worker_id * logs_slot_size (stride_cap hdr_cap c) + 2 * ring_size_bytes (stride_cap hdr_cap c)"

definition spans_ring_offset :: "nat \<Rightarrow> nat \<Rightarrow> nat" where
  "spans_ring_offset worker_id c = worker_id * spans_slot_size c"

section \<open>Reserving and checking\<close>

text \<open>\<open>worker_processes\<close> is -1 until its directive is read.\<close>

definition n_workers_from_cf :: "int option \<Rightarrow> nat option" where
  "n_workers_from_cf worker_processes =
     (case worker_processes of None \<Rightarrow> None | Some wp \<Rightarrow> if wp < 1 then None else Some (nat wp))"

definition n_workers_to_reserve :: "int option \<Rightarrow> int \<Rightarrow> nat" where
  "n_workers_to_reserve worker_processes ncpu =
     (case n_workers_from_cf worker_processes of
        Some wp \<Rightarrow> wp
      | None \<Rightarrow> if ncpu > 0 then nat ncpu else 1)"

record zones =
  zn_metrics :: "nat option"
  zn_logs :: "nat option"
  zn_spans :: "nat option"

text \<open>The zones \<open>postconfiguration\<close> registers.\<close>

definition register_zones :: "nat \<Rightarrow> nat \<Rightarrow> bool \<Rightarrow> bool \<Rightarrow> int option \<Rightarrow> int \<Rightarrow> zones" where
  "register_zones slab log_cap metrics_enabled logs_wanted worker_processes ncpu =
     (let n = n_workers_to_reserve worker_processes ncpu
      in \<lparr>zn_metrics = (if metrics_enabled then Some (zone_size_for slab n) else None),
          zn_logs = (if logs_wanted then Some (logs_zone_size_for slab n log_cap) else None),
          zn_spans = Some (spans_zone_size_for slab n DEFAULT_SPAN_RING_CAP)\<rparr>)"

definition shm_n_workers :: "nat \<Rightarrow> zones \<Rightarrow> nat" where
  "shm_n_workers slab z = (case zn_metrics z of None \<Rightarrow> 0 | Some sz \<Rightarrow> n_workers_from_zone_size slab sz)"

definition logs_n_workers :: "nat \<Rightarrow> nat \<Rightarrow> zones \<Rightarrow> nat" where
  "logs_n_workers slab log_cap z =
     (case zn_logs z of None \<Rightarrow> 0 | Some sz \<Rightarrow> (sz - slab) div logs_slot_size log_cap)"

definition spans_n_workers :: "nat \<Rightarrow> zones \<Rightarrow> nat" where
  "spans_n_workers slab z =
     (case zn_spans z of None \<Rightarrow> 0 | Some sz \<Rightarrow> (sz - slab) div spans_slot_size DEFAULT_SPAN_RING_CAP)"

text \<open>\<open>cap\<close> starts at \<open>usize::MAX\<close>; \<open>None\<close> is that value.\<close>

definition min_capacity :: "nat option \<Rightarrow> nat \<Rightarrow> nat option" where
  "min_capacity c n = (if n > 0 then Some (case c of None \<Rightarrow> n | Some m \<Rightarrow> min m n) else c)"

definition min_indexed_worker_capacity :: "nat \<Rightarrow> nat \<Rightarrow> nat \<Rightarrow> nat" where
  "min_indexed_worker_capacity metrics logs spans =
     (case min_capacity (min_capacity (min_capacity None metrics) logs) spans of None \<Rightarrow> 0 | Some c \<Rightarrow> c)"

definition worker_capacity :: "nat \<Rightarrow> nat \<Rightarrow> zones \<Rightarrow> nat" where
  "worker_capacity slab log_cap z =
     min_indexed_worker_capacity (shm_n_workers slab z) (logs_n_workers slab log_cap z) (spans_n_workers slab z)"

text \<open>
  \<open>check_zone_sizing\<close>: the active worker count to record, or \<open>None\<close> to refuse the start. A zone that is not
  registered does not constrain it.
\<close>

definition reserved_fits :: "nat \<Rightarrow> nat option \<Rightarrow> nat \<Rightarrow> nat \<Rightarrow> bool" where
  "reserved_fits slab zone slot actual_workers =
     (case zone of None \<Rightarrow> True | Some sz \<Rightarrow> actual_workers \<le> (sz - slab) div slot)"

definition check_zone_sizing :: "nat \<Rightarrow> nat \<Rightarrow> zones \<Rightarrow> int option \<Rightarrow> nat option" where
  "check_zone_sizing slab log_cap z worker_processes =
     (let actual_workers = (case n_workers_from_cf worker_processes of Some wp \<Rightarrow> wp | None \<Rightarrow> 1)
      in if reserved_fits slab (zn_metrics z) size_of_WorkerSlots actual_workers \<and>
            reserved_fits slab (zn_logs z) (logs_slot_size log_cap) actual_workers \<and>
            reserved_fits slab (zn_spans z) (spans_slot_size DEFAULT_SPAN_RING_CAP) actual_workers
         then Some actual_workers else None)"

section \<open>Initialising the ring zones\<close>

text \<open>
  A slot of the zone that was never touched is zero pages: its rings have zero offsets, capacity 0 and a
  zero payload.
\<close>

definition untouched_ring :: "u64 \<Rightarrow> ring" where
  "untouched_ring c = (fresh_ring c)\<lparr>cap := 0\<rparr>"

definition stamp_cap :: "u64 \<Rightarrow> ring \<Rightarrow> ring" where
  "stamp_cap c r = r\<lparr>cap := c\<rparr>"

definition n_active_slots :: "int option \<Rightarrow> nat \<Rightarrow> nat" where
  "n_active_slots worker_processes n_reserved =
     max (min (case wp_from_cycle worker_processes of Some n \<Rightarrow> n | None \<Rightarrow> n_reserved) n_reserved) 1"

definition logs_shm_zone_init :: "bool \<Rightarrow> u64 \<Rightarrow> int option \<Rightarrow> worker_logs list \<Rightarrow> worker_logs list" where
  "logs_shm_zone_init reload c worker_processes slots =
     (let n_active = n_active_slots worker_processes (length slots)
      in (if reload
          then map (\<lambda>wl. wl\<lparr>wl_access := stamp_cap c (wl_access wl), wl_error := stamp_cap c (wl_error wl)\<rparr>) (take n_active slots)
          else replicate n_active \<lparr>wl_access = stamp_cap c (untouched_ring c), wl_error = stamp_cap c (untouched_ring c),
                                   wl_coalesce = replicate COALESCE_CAPACITY empty_slot\<rparr>)
         @ drop n_active slots)"

definition spans_shm_zone_init :: "bool \<Rightarrow> u64 \<Rightarrow> int option \<Rightarrow> ring list \<Rightarrow> ring list" where
  "spans_shm_zone_init reload c worker_processes rings =
     (let n_active = n_active_slots worker_processes (length rings)
      in (if reload then map (stamp_cap c) (take n_active rings)
          else replicate n_active (stamp_cap c (untouched_ring c)))
         @ drop n_active rings)"

section \<open>Slots with a stride\<close>

text \<open>A region is an offset from the start of the zone and a length.\<close>

definition in_zone :: "nat \<Rightarrow> nat \<times> nat \<Rightarrow> bool" where
  "in_zone sz reg \<longleftrightarrow> fst reg + snd reg \<le> sz"

definition apart :: "nat \<times> nat \<Rightarrow> nat \<times> nat \<Rightarrow> bool" where
  "apart reg1 reg2 \<longleftrightarrow> fst reg1 + snd reg1 \<le> fst reg2 \<or> fst reg2 + snd reg2 \<le> fst reg1"

definition regions_ok :: "nat \<Rightarrow> nat \<Rightarrow> (nat \<Rightarrow> (nat \<times> nat) list) \<Rightarrow> bool" where
  "regions_ok sz n regs \<longleftrightarrow>
     (\<forall>w<n. \<forall>reg\<in>set (regs w). in_zone sz reg \<and> 8 dvd fst reg) \<and>
     (\<forall>w<n. \<forall>w'<n. \<forall>i<length (regs w). \<forall>j<length (regs w'). (w, i) \<noteq> (w', j) \<longrightarrow> apart (regs w ! i) (regs w' ! j))"

definition metrics_regions :: "nat \<Rightarrow> nat \<Rightarrow> (nat \<times> nat) list" where
  "metrics_regions slab w = [(slab + worker_slots_offset w, size_of_WorkerSlots)]"

definition logs_regions :: "nat \<Rightarrow> nat \<Rightarrow> nat \<Rightarrow> nat \<Rightarrow> (nat \<times> nat) list" where
  "logs_regions slab hdr_cap c w =
     [(slab + logs_access_ring_offset hdr_cap w c, ring_size_bytes c),
      (slab + logs_error_ring_offset hdr_cap w c, ring_size_bytes c),
      (slab + logs_coalesce_table_offset hdr_cap w c, coalesce_table_bytes)]"

definition spans_regions :: "nat \<Rightarrow> nat \<Rightarrow> (nat \<times> nat) list" where
  "spans_regions slab w = [(slab + spans_ring_offset w DEFAULT_SPAN_RING_CAP, ring_size_bytes DEFAULT_SPAN_RING_CAP)]"

lemma slots_ok:
  assumes "n \<le> (sz - slab) div stride" "0 < stride" "8 dvd slab" "8 dvd stride"
    and regs: "\<And>w. regs w = map (\<lambda>(off, l). (slab + w * stride + off, l)) parts"
    and parts: "\<forall>(off, l)\<in>set parts. off + l \<le> stride \<and> 8 dvd off"
      "\<forall>i<length parts. \<forall>j<length parts. i \<noteq> j \<longrightarrow> apart (parts ! i) (parts ! j)"
  shows "regions_ok sz n regs"
proof -
  have room: "slab + (w + 1) * stride \<le> sz" if "w < n" for w
  proof -
    have "(w + 1) * stride \<le> ((sz - slab) div stride) * stride"
      using that assms(1) by (intro mult_right_mono) auto
    also have "\<dots> \<le> sz - slab" by simp
    finally have "(w + 1) * stride \<le> sz - slab" .
    moreover have "0 < (w + 1) * stride" using assms(2) by simp
    ultimately show ?thesis by linarith
  qed
  have "in_zone sz reg \<and> 8 dvd fst reg" if w: "w < n" and r: "reg \<in> set (regs w)" for w reg
  proof -
    obtain off l where p: "(off, l) \<in> set parts" and reg: "reg = (slab + w * stride + off, l)"
      using r by (auto simp: regs)
    have "off + l \<le> stride" "8 dvd off" using p parts(1) by auto
    with room [OF w] reg assms(3,4) show ?thesis by (simp add: in_zone_def)
  qed
  moreover have "apart (regs w ! i) (regs w' ! j)"
    if "i < length (regs w)" "j < length (regs w')" "(w, i) \<noteq> (w', j)" for w w' i j
  proof -
    have ij: "i < length parts" "j < length parts" using that by (simp_all add: regs)
    have fit: "fst (parts ! k) + snd (parts ! k) \<le> stride" if "k < length parts" for k
      using parts(1) nth_mem [OF that] by (auto simp: case_prod_beta)
    have at: "regs v ! k = (slab + v * stride + fst (parts ! k), snd (parts ! k))" if "k < length parts" for v k
      using that by (simp add: regs case_prod_beta)
    consider "w = w'" | "w < w'" | "w' < w" by linarith
    then show ?thesis
    proof cases
      case 1
      with that(3) ij parts(2) have "apart (parts ! i) (parts ! j)" by auto
      with 1 ij show ?thesis by (auto simp: at apart_def)
    next
      case 2
      then have "(w + 1) * stride \<le> w' * stride" by (intro mult_right_mono) auto
      with fit [OF ij(1)] ij show ?thesis by (simp add: at apart_def)
    next
      case 3
      then have "(w' + 1) * stride \<le> w * stride" by (intro mult_right_mono) auto
      with fit [OF ij(2)] ij show ?thesis by (simp add: at apart_def)
    qed
  qed
  ultimately show ?thesis
    by (auto simp: regions_ok_def)
qed

lemma size_of_WorkerSlots_eq: "size_of_WorkerSlots = 419856"
  by (simp add: size_of_WorkerSlots_def size_of_ExpHistogramSlot_def size_of_Histogram_def size_of_ExemplarReservoir_def
      N_COMBOS_def N_HTTP_METHODS_def N_STATUS_CLASSES_def N_PROTO_VERSIONS_def N_ROUTE_SLOTS_def ROUTE_CAP_def
      N_UPSTREAM_SLOTS_def UPSTREAM_CAP_def N_EXP_BUCKETS_def N_BYTES_BUCKETS_def N_DURATION_BUCKETS_def
      EXEMPLAR_RESERVOIR_SIZE_def N_SEVERITY_CLASSES_def)

lemma metrics_slots_ok:
  "8 dvd slab \<Longrightarrow> n \<le> (sz - slab) div size_of_WorkerSlots \<Longrightarrow> regions_ok sz n (metrics_regions slab)"
  by (rule slots_ok [where parts = "[(0, size_of_WorkerSlots)]"])
    (auto simp: metrics_regions_def worker_slots_offset_def size_of_WorkerSlots_eq)

lemma logs_slots_ok:
  assumes "8 dvd slab" "8 dvd c" "hdr_cap \<in> {0, c}" "n \<le> (sz - slab) div logs_slot_size c"
  shows "regions_ok sz n (logs_regions slab hdr_cap c)"
proof (rule slots_ok [where parts = "[(0, ring_size_bytes c), (ring_size_bytes c, ring_size_bytes c),
    (2 * ring_size_bytes c, coalesce_table_bytes)]"])
  have stride: "stride_cap hdr_cap c = c"
    using assms(3) by (auto simp: stride_cap_def)
  show "logs_regions slab hdr_cap c w = map (\<lambda>(off, l). (slab + w * logs_slot_size c + off, l))
      [(0, ring_size_bytes c), (ring_size_bytes c, ring_size_bytes c), (2 * ring_size_bytes c, coalesce_table_bytes)]" for w
    by (simp add: logs_regions_def logs_access_ring_offset_def logs_error_ring_offset_def
        logs_coalesce_table_offset_def stride)
  have ring: "8 dvd ring_size_bytes c"
    using assms(2) by (simp add: ring_size_bytes_def RING_HEADER_SIZE_def)
  have tbl: "8 dvd coalesce_table_bytes" "0 < coalesce_table_bytes"
    by (simp_all add: coalesce_table_bytes_def COALESCE_CAPACITY_def)
  show "0 < logs_slot_size c" "8 dvd logs_slot_size c"
    using ring tbl by (simp_all add: logs_slot_size_def dvd_add dvd_mult)
  show "\<forall>(off, l)\<in>set [(0, ring_size_bytes c), (ring_size_bytes c, ring_size_bytes c),
      (2 * ring_size_bytes c, coalesce_table_bytes)]. off + l \<le> logs_slot_size c \<and> 8 dvd off"
    using ring by (simp add: logs_slot_size_def)
qed (use assms in \<open>auto simp: apart_def less_Suc_eq numeral_3_eq_3\<close>)

lemma spans_slots_ok:
  "8 dvd slab \<Longrightarrow> n \<le> (sz - slab) div spans_slot_size DEFAULT_SPAN_RING_CAP \<Longrightarrow> regions_ok sz n (spans_regions slab)"
  by (rule slots_ok [where parts = "[(0, ring_size_bytes DEFAULT_SPAN_RING_CAP)]" and stride = "spans_slot_size DEFAULT_SPAN_RING_CAP"])
    (auto simp: spans_regions_def spans_ring_offset_def spans_slot_size_def ring_size_bytes_def RING_HEADER_SIZE_def
      DEFAULT_SPAN_RING_CAP_def)

section \<open>Lemmas on the check and the initialisers\<close>

lemma check_zone_sizing_SomeD:
  assumes "check_zone_sizing slab log_cap z worker_processes = Some n"
  shows "0 < n" "reserved_fits slab (zn_metrics z) size_of_WorkerSlots n"
    "reserved_fits slab (zn_logs z) (logs_slot_size log_cap) n"
    "reserved_fits slab (zn_spans z) (spans_slot_size DEFAULT_SPAN_RING_CAP) n"
  using assms by (auto simp: check_zone_sizing_def n_workers_from_cf_def Let_def split: option.splits if_splits)

lemma min_capacity_le: "0 < m \<Longrightarrow> m \<in> {a, b, c} \<Longrightarrow> min_indexed_worker_capacity a b c \<le> m"
  by (auto simp: min_indexed_worker_capacity_def min_capacity_def split: if_splits)

lemma min_capacity_ge:
  "\<forall>m\<in>{a, b, c}. m = 0 \<or> n \<le> m \<Longrightarrow> 0 < a \<or> 0 < b \<or> 0 < c \<Longrightarrow> n \<le> min_indexed_worker_capacity a b c"
  by (auto simp: min_indexed_worker_capacity_def min_capacity_def split: if_splits)

lemma registered_zones_fit:
  assumes "n_workers_from_cf final = Some n" "n \<le> n_workers_to_reserve early ncpu"
  shows "check_zone_sizing slab log_cap (register_zones slab log_cap me lw early ncpu) final = Some n"
proof -
  have "0 < logs_slot_size log_cap" "0 < spans_slot_size DEFAULT_SPAN_RING_CAP" "0 < size_of_WorkerSlots"
    by (simp_all add: logs_slot_size_def spans_slot_size_def ring_size_bytes_def RING_HEADER_SIZE_def size_of_WorkerSlots_eq)
  with assms show ?thesis
    by (simp add: check_zone_sizing_def register_zones_def reserved_fits_def zone_size_for_def logs_zone_size_for_def
        spans_zone_size_for_def Let_def)
qed

lemma stamp_untouched: "stamp_cap c (untouched_ring c) = fresh_ring c"
  by (simp add: stamp_cap_def untouched_ring_def fresh_ring_def)

lemma cap_fresh: "cap (fresh_ring c) = c"
  by (simp add: fresh_ring_def)

lemma stamp_same: "cap r = c \<Longrightarrow> stamp_cap c r = r"
  by (simp add: stamp_cap_def)

lemma checked_capacity:
  assumes "check_zone_sizing slab log_cap z worker_processes = Some n"
    and "zn_metrics z \<noteq> None \<or> zn_logs z \<noteq> None \<or> zn_spans z \<noteq> None"
  shows "n \<le> worker_capacity slab log_cap z"
  unfolding worker_capacity_def
  by (rule min_capacity_ge)
    (use check_zone_sizing_SomeD [OF assms(1)] assms(2) in \<open>auto simp: shm_n_workers_def logs_n_workers_def
      spans_n_workers_def n_workers_from_zone_size_def reserved_fits_def split: option.splits\<close>)

section \<open>Properties\<close>

text \<open>
  C9. When the start-up check accepts the zones for the final number of workers, the per-request guard
  lets every worker pass, and every worker id that passes the guard owns, in each registered zone, byte
  ranges that lie behind the slab header and inside the zone, start at a multiple of eight and overlap no
  other range of any worker: its metrics block, its access ring, error ring and coalescing table, and its
  span ring.
\<close>

theorem zone_check_makes_slots_safe:
  assumes "8 dvd slab" "8 dvd log_cap" "hdr_cap \<in> {0, log_cap}"
    and "check_zone_sizing slab log_cap z worker_processes = Some n"
    and "zn_metrics z \<noteq> None \<or> zn_logs z \<noteq> None \<or> zn_spans z \<noteq> None"
  shows "n \<le> worker_capacity slab log_cap z \<and>
     (\<forall>sz. zn_metrics z = Some sz \<longrightarrow> regions_ok sz (worker_capacity slab log_cap z) (metrics_regions slab)) \<and>
     (\<forall>sz. zn_logs z = Some sz \<longrightarrow> regions_ok sz (worker_capacity slab log_cap z) (logs_regions slab hdr_cap log_cap)) \<and>
     (\<forall>sz. zn_spans z = Some sz \<longrightarrow> regions_ok sz (worker_capacity slab log_cap z) (spans_regions slab))"
proof -
  note fits = check_zone_sizing_SomeD [OF assms(4)]
  have le: "worker_capacity slab log_cap z \<le> m"
    if "m \<in> {shm_n_workers slab z, logs_n_workers slab log_cap z, spans_n_workers slab z}" "n \<le> m" for m
    unfolding worker_capacity_def by (rule min_capacity_le) (use that fits(1) in auto)
  have "n \<le> worker_capacity slab log_cap z"
    by (rule checked_capacity [OF assms(4,5)])
  moreover have "regions_ok sm (worker_capacity slab log_cap z) (metrics_regions slab)" if "zn_metrics z = Some sm" for sm
    by (rule metrics_slots_ok [OF assms(1)], rule le)
      (use that fits in \<open>auto simp: shm_n_workers_def n_workers_from_zone_size_def reserved_fits_def\<close>)
  moreover have "regions_ok sl (worker_capacity slab log_cap z) (logs_regions slab hdr_cap log_cap)" if "zn_logs z = Some sl" for sl
    by (rule logs_slots_ok [OF assms(1-3)], rule le)
      (use that fits in \<open>auto simp: logs_n_workers_def reserved_fits_def\<close>)
  moreover have "regions_ok ss (worker_capacity slab log_cap z) (spans_regions slab)" if "zn_spans z = Some ss" for ss
    by (rule spans_slots_ok [OF assms(1)], rule le)
      (use that fits in \<open>auto simp: spans_n_workers_def reserved_fits_def\<close>)
  ultimately show ?thesis
    by simp
qed

theorem zone_check_makes_slots_safe_witness:
  "let z = register_zones 200 524288 True True (Some 4) 8
   in check_zone_sizing 200 524288 z (Some 4) = Some 4 \<and> 4 \<le> worker_capacity 200 524288 z \<and>
      (\<forall>sl. zn_logs z = Some sl \<longrightarrow> regions_ok sl (worker_capacity 200 524288 z) (logs_regions 200 524288 524288))"
proof -
  let ?z = "register_zones 200 524288 True True (Some 4) 8"
  have chk: "check_zone_sizing 200 524288 ?z (Some 4) = Some 4"
    by (rule registered_zones_fit) (simp_all add: n_workers_to_reserve_def n_workers_from_cf_def)
  have "zn_metrics ?z \<noteq> None \<or> zn_logs ?z \<noteq> None \<or> zn_spans ?z \<noteq> None"
    by (simp add: register_zones_def Let_def)
  note safe = zone_check_makes_slots_safe [OF _ _ _ chk this, of 524288]
  show ?thesis
    unfolding Let_def using chk safe by simp
qed



end
