(* ===== verification/Route_Tables.thy ===== *)
theory Route_Tables
  imports Request_Dims Utf8_Lossy
begin

text \<open>
  The route and upstream tables of \<open>MainConfig\<close> (\<^verbatim>\<open>src/src/config/mod.rs\<close>): built once from nginx's
  location trees and upstream list before the workers fork, and read on the request path to pick a
  histogram slot. A location is its address and name, a null pointer in a tree node is \<open>None\<close>, a null node
  is \<open>Leaf\<close>. The table is the list of its used entries.
\<close>

section \<open>Model\<close>

definition ROUTE_NAME_MAX :: nat where "ROUTE_NAME_MAX = 64"

definition UPSTREAM_NAME_MAX :: nat where "UPSTREAM_NAME_MAX = 32"

definition UPSTREAM_IDX_OTHER :: nat where "UPSTREAM_IDX_OTHER = UPSTREAM_CAP"

type_synonym named_ptr = "nat \<times> bytes"

text \<open>\<open>RouteEntry\<close> and \<open>UpstreamEntry\<close>: the pointer as a number and the name with its length.\<close>

record RouteEntry =
  re_ptr :: nat
  re_name :: bytes
  re_name_len :: u8

definition name_str :: "RouteEntry \<Rightarrow> rust_string" where
  "name_str e =
     (let b = take (unat (re_name_len e)) (re_name e) in if utf8_valid b then b else lit ''(invalid)'')"

definition table_idx :: "nat \<Rightarrow> RouteEntry list \<Rightarrow> nat \<Rightarrow> nat" where
  "table_idx other tbl p =
     (if p = 0 then other
      else case find (\<lambda>i. re_ptr (tbl ! i) = p) [0..<length tbl] of Some i \<Rightarrow> i | None \<Rightarrow> other)"

definition table_name :: "nat \<Rightarrow> RouteEntry list \<Rightarrow> nat \<Rightarrow> rust_string" where
  "table_name other tbl i =
     (if i = other then lit ''(other)'' else if i < length tbl then name_str (tbl ! i) else lit ''(other)'')"

definition route_idx_for_clcf :: "RouteEntry list \<Rightarrow> nat \<Rightarrow> nat" where
  "route_idx_for_clcf tbl clcf_ptr = table_idx ROUTE_CAP tbl clcf_ptr"

definition upstream_idx_for_zone :: "RouteEntry list \<Rightarrow> nat \<Rightarrow> nat" where
  "upstream_idx_for_zone tbl shm_zone_ptr = table_idx UPSTREAM_IDX_OTHER tbl shm_zone_ptr"

definition route_name :: "RouteEntry list \<Rightarrow> nat \<Rightarrow> rust_string" where
  "route_name tbl route_idx = table_name ROUTE_CAP tbl route_idx"

definition upstream_zone_name :: "RouteEntry list \<Rightarrow> nat \<Rightarrow> rust_string" where
  "upstream_zone_name tbl upstream_idx = table_name UPSTREAM_IDX_OTHER tbl upstream_idx"

text \<open>The name buffer of an entry is \<open>name_max\<close> bytes, zero before it is filled.\<close>

definition new_entry :: "nat \<Rightarrow> named_ptr \<Rightarrow> RouteEntry" where
  "new_entry name_max l =
     (let len = min (length (snd l)) name_max
      in \<lparr>re_ptr = fst l, re_name = take len (snd l) @ replicate (name_max - len) 0, re_name_len = of_nat len\<rparr>)"

definition try_register_route :: "named_ptr \<Rightarrow> RouteEntry list \<Rightarrow> RouteEntry list" where
  "try_register_route l tbl =
     (if fst l \<in> set (map re_ptr tbl) then tbl
      else if length tbl \<ge> ROUTE_CAP then tbl
      else tbl @ [new_entry ROUTE_NAME_MAX l])"

datatype location_node =
    Leaf
  | Node (exact: "named_ptr option") (inclusive: "named_ptr option") (tree: location_node) (left: location_node)
      (right: location_node)

primrec walk_location_tree :: "location_node \<Rightarrow> RouteEntry list \<Rightarrow> RouteEntry list" where
  "walk_location_tree Leaf tbl = tbl"
| "walk_location_tree (Node ex inc t l r) tbl =
     (let tbl1 = (case ex of Some c \<Rightarrow> try_register_route c tbl | None \<Rightarrow> tbl);
          tbl2 = (case inc of Some c \<Rightarrow> if map_option fst inc \<noteq> map_option fst ex then try_register_route c tbl1 else tbl1
                  | None \<Rightarrow> tbl1)
      in walk_location_tree r (walk_location_tree l (walk_location_tree t tbl2)))"

text \<open>\<open>build_route_table\<close> over the static-location trees of the servers that have one.\<close>

definition build_route_table :: "location_node list \<Rightarrow> RouteEntry list" where
  "build_route_table servers = fold walk_location_tree servers []"

text \<open>\<open>build_upstream_table\<close>: upstreams without a zone are skipped, the loop stops when the table is full.\<close>

fun register_upstreams :: "named_ptr option list \<Rightarrow> RouteEntry list \<Rightarrow> RouteEntry list" where
  "register_upstreams [] tbl = tbl"
| "register_upstreams (None # us) tbl = register_upstreams us tbl"
| "register_upstreams (Some z # us) tbl =
     (if fst z \<in> set (map re_ptr tbl) then register_upstreams us tbl
      else if length tbl \<ge> UPSTREAM_CAP then tbl
      else register_upstreams us (tbl @ [new_entry UPSTREAM_NAME_MAX z]))"

definition build_upstream_table :: "named_ptr option list \<Rightarrow> RouteEntry list" where
  "build_upstream_table upstreams = register_upstreams upstreams []"

section \<open>The reference: the first distinct addresses\<close>

text \<open>The locations of a tree in the order the walk meets them.\<close>

primrec tree_locations :: "location_node \<Rightarrow> named_ptr list" where
  "tree_locations Leaf = []"
| "tree_locations (Node ex inc t l r) =
     (case ex of Some c \<Rightarrow> [c] | None \<Rightarrow> []) @ (case inc of Some c \<Rightarrow> [c] | None \<Rightarrow> [])
     @ tree_locations t @ tree_locations l @ tree_locations r"

text \<open>The first occurrence of each address, at most \<open>n\<close> of them.\<close>

fun first_seen :: "nat \<Rightarrow> nat set \<Rightarrow> named_ptr list \<Rightarrow> named_ptr list" where
  "first_seen n seen [] = []"
| "first_seen n seen (l # ls) =
     (if fst l \<in> seen then first_seen n seen ls
      else case n of 0 \<Rightarrow> [] | Suc m \<Rightarrow> l # first_seen m (insert (fst l) seen) ls)"

lemma new_entry_ptr [simp]: "re_ptr (new_entry m l) = fst l"
  by (simp add: new_entry_def Let_def)

lemma first_seen_0: "first_seen 0 seen ls = []"
  by (induction ls) auto

lemma register_routes_first_seen:
  "fold try_register_route ls tbl =
     tbl @ map (new_entry ROUTE_NAME_MAX) (first_seen (ROUTE_CAP - length tbl) (set (map re_ptr tbl)) ls)"
proof (induction ls arbitrary: tbl)
  case (Cons l ls)
  show ?case
  proof (cases "fst l \<in> set (map re_ptr tbl) \<or> length tbl \<ge> ROUTE_CAP")
    case True
    then show ?thesis
      using Cons [of tbl] by (auto simp: try_register_route_def first_seen_0)
  next
    case False
    then obtain m where m: "ROUTE_CAP - length tbl = Suc m"
      by (metis Suc_diff_Suc not_le)
    then have "ROUTE_CAP - length (tbl @ [new_entry ROUTE_NAME_MAX l]) = m" by simp
    with False m Cons [of "tbl @ [new_entry ROUTE_NAME_MAX l]"] show ?thesis
      by (simp add: try_register_route_def insert_commute)
  qed
qed simp

lemma walk_registers: "walk_location_tree t tbl = fold try_register_route (tree_locations t) tbl"
proof (induction t arbitrary: tbl)
  case (Node ex inc t l r)
  have again: "try_register_route c' (try_register_route c tbl) = try_register_route c tbl" if "fst c' = fst c" for c c' :: named_ptr
    using that by (auto simp: try_register_route_def)
  show ?case
    using Node again by (cases ex; cases inc) (auto simp: Let_def)
qed simp

lemma build_route_table_first_seen:
  "build_route_table servers = map (new_entry ROUTE_NAME_MAX) (first_seen ROUTE_CAP {} (concat (map tree_locations servers)))"
proof -
  have "fold walk_location_tree servers tbl = fold try_register_route (concat (map tree_locations servers)) tbl" for tbl
    by (induction servers arbitrary: tbl) (simp_all add: walk_registers)
  then show ?thesis
    by (simp add: build_route_table_def register_routes_first_seen)
qed

lemma register_upstreams_first_seen:
  "register_upstreams us tbl =
     tbl @ map (new_entry UPSTREAM_NAME_MAX) (first_seen (UPSTREAM_CAP - length tbl) (set (map re_ptr tbl)) (List.map_filter id us))"
proof (induction us tbl rule: register_upstreams.induct)
  case (3 z us tbl)
  show ?case
  proof (cases "fst z \<in> set (map re_ptr tbl) \<or> length tbl \<ge> UPSTREAM_CAP")
    case True
    then show ?thesis
      using 3 by (auto simp: first_seen_0 map_filter_simps)
  next
    case False
    then obtain m where m: "UPSTREAM_CAP - length tbl = Suc m"
      by (metis Suc_diff_Suc not_le)
    then have "UPSTREAM_CAP - length (tbl @ [new_entry UPSTREAM_NAME_MAX z]) = m" by simp
    with False m 3 show ?thesis
      by (simp add: insert_commute map_filter_simps)
  qed
qed (simp_all add: map_filter_simps)

lemma first_seen_props:
  "length (first_seen n seen ls) \<le> n \<and> distinct (map fst (first_seen n seen ls)) \<and>
   set (first_seen n seen ls) \<subseteq> set ls \<and> fst ` set (first_seen n seen ls) \<inter> seen = {}"
proof (induction ls arbitrary: n seen)
  case (Cons l ls)
  show ?case
  proof (cases "fst l \<in> seen")
    case True
    with Cons [of n seen] show ?thesis by auto
  next
    case False
    show ?thesis
    proof (cases n)
      case (Suc m)
      with False Cons [of m "insert (fst l) seen"] show ?thesis
        by (auto simp: disjoint_iff)
    qed (simp add: False)
  qed
qed simp

lemma first_seen_all:
  "card (fst ` set ls - seen) \<le> n \<Longrightarrow> fst ` set (first_seen n seen ls) = fst ` set ls - seen"
proof (induction ls arbitrary: n seen)
  case (Cons l ls)
  show ?case
  proof (cases "fst l \<in> seen")
    case True
    with Cons show ?thesis by (auto simp: insert_Diff_if)
  next
    case False
    have eq: "fst ` set (l # ls) - seen = insert (fst l) (fst ` set ls - insert (fst l) seen)"
      using False by auto
    then have c: "card (fst ` set (l # ls) - seen) = Suc (card (fst ` set ls - insert (fst l) seen))"
      by simp
    then obtain m where m: "n = Suc m" "card (fst ` set ls - insert (fst l) seen) \<le> m"
      using Cons.prems by (cases n) auto
    with False eq Cons.IH [of "insert (fst l) seen" m] show ?thesis
      by simp
  qed
qed simp

section \<open>Lookups in a table\<close>

definition shown_name :: "nat \<Rightarrow> bytes \<Rightarrow> rust_string" where
  "shown_name name_max b = (if utf8_valid (take name_max b) then take name_max b else lit ''(invalid)'')"

lemma name_str_new_entry: "name_max < 256 \<Longrightarrow> name_str (new_entry name_max l) = shown_name name_max (snd l)"
  by (simp add: name_str_def new_entry_def shown_name_def Let_def unat_of_nat take_bit_eq_mod min_def)

lemma find_upt_distinct:
  assumes "distinct (map f xs)" "i < length xs" "f (xs ! i) = p"
  shows "find (\<lambda>i. f (xs ! i) = p) [0..<length xs] = Some i"
proof -
  have "f (xs ! j) \<noteq> p" if "j < i" for j
    using assms that nth_eq_iff_index_eq [OF assms(1), of j i] by auto
  then show ?thesis
    unfolding find_Some_iff using assms by (intro exI [of _ i]) simp
qed

lemma table_idx_cases:
  assumes "distinct (map re_ptr tbl)" "length tbl \<le> other" "p \<noteq> 0"
  shows "(table_idx other tbl p < other \<and> table_idx other tbl p < length tbl \<and> re_ptr (tbl ! table_idx other tbl p) = p)
    \<or> (table_idx other tbl p = other \<and> p \<notin> set (map re_ptr tbl))"
proof (cases "p \<in> set (map re_ptr tbl)")
  case True
  then obtain i where "i < length tbl" "re_ptr (tbl ! i) = p"
    by (auto simp: in_set_conv_nth)
  with assms find_upt_distinct [of re_ptr tbl i p] show ?thesis
    by (simp add: table_idx_def)
next
  case False
  then have "find (\<lambda>i. re_ptr (tbl ! i) = p) [0..<length tbl] = None"
    by (auto simp: find_None_iff)
  with False assms(3) show ?thesis
    by (simp add: table_idx_def)
qed

text \<open>The lookup of a location in a table filled by first occurrence.\<close>

lemma table_slots:
  assumes tbl: "tbl = map (new_entry name_max) (first_seen n {} locs)" and "name_max < 256"
    and names: "\<forall>l\<in>set locs. \<forall>l'\<in>set locs. fst l = fst l' \<longrightarrow> l = l'" and "\<forall>l\<in>set locs. fst l \<noteq> 0"
    and l: "l \<in> set locs"
  shows "(table_idx n tbl (fst l) < n \<and> table_name n tbl (table_idx n tbl (fst l)) = shown_name name_max (snd l) \<and>
        re_ptr (tbl ! table_idx n tbl (fst l)) = fst l) \<or>
      (table_idx n tbl (fst l) = n \<and> table_name n tbl (table_idx n tbl (fst l)) = lit ''(other)'' \<and> n < card (fst ` set locs))"
proof -
  let ?ls = "first_seen n {} locs"
  have fs: "length ?ls \<le> n" "distinct (map fst ?ls)" "set ?ls \<subseteq> set locs"
    using first_seen_props [of n "{}" locs] by auto
  have dist: "distinct (map re_ptr tbl)" and len: "length tbl \<le> n"
    using fs by (simp_all add: tbl comp_def)
  let ?i = "table_idx n tbl (fst l)"
  consider (found) "?i < n" "?i < length tbl" "re_ptr (tbl ! ?i) = fst l" | (other) "?i = n" "fst l \<notin> set (map re_ptr tbl)"
    using table_idx_cases [OF dist len, of "fst l"] assms(4) l by auto
  then show ?thesis
  proof cases
    case found
    then have i: "?i < length ?ls" by (simp add: tbl)
    have "fst (?ls ! ?i) = fst l" "?ls ! ?i \<in> set locs"
      using found i fs(3) nth_mem [OF i] by (auto simp: tbl)
    then have "?ls ! ?i = l"
      using names l by blast
    with found i name_str_new_entry [OF assms(2)] show ?thesis
      by (simp add: table_name_def tbl)
  next
    case other
    have "\<not> card (fst ` set locs) \<le> n"
      using first_seen_all [of locs "{}" n] other(2) l by (auto simp: tbl image_image)
    with other(1) show ?thesis
      by (simp add: table_name_def)
  qed
qed

section \<open>Properties\<close>



end
