(* ===== verification/Retry_Lane.thy ===== *)
theory Retry_Lane
  imports Delivery Otel_Data_Model
begin

text \<open>
  The delivery policy and the bounded retry queue of one signal lane, \<^verbatim>\<open>src/src/drain/backoff.rs\<close>,
  \<^verbatim>\<open>src/src/drain/graceful.rs\<close> and \<^verbatim>\<open>src/src/drain/mod.rs\<close> (\<open>drain_retry_queue_once\<close>,
  \<open>send_fresh_batch\<close>). A lane is the triple the functions take: its queue of encoded batches with their
  record counts, its backoff state and its failure counter. The network is a parameter: a state, a send
  that may answer with a verdict, an error or nothing before the deadline, and nginx's cached monotonic
  clock. The process-wide counters are one record; its last three fields are history variables that no
  operation reads: the records released by a verdict, refused by one, and lost in flight.

  Shown: the no-hint backoff is the capped doubling sequence; a retry pass is equivalent to a simple
  reference that never evicts and keeps the order; every record is at any time in the queue, released,
  refused or counted as dropped; queues stay within their depth.
\<close>

section \<open>Counters and backoff\<close>

record self_metrics =
  sm_dropped_records :: u64
  sm_partial_rejected :: u64
  sm_permanent_rejected :: u64
  sm_unauthorized_rejected :: u64
  sm_unauthorized_log_last :: u64
  sm_released :: u64
  sm_refused :: u64
  sm_lost :: u64

definition BACKOFF_BASE_MS :: u64 where "BACKOFF_BASE_MS = 250"

definition BACKOFF_CAP_MS :: u64 where "BACKOFF_CAP_MS = 30000"

definition UNAUTHORIZED_LOG_INTERVAL_MS :: u64 where "UNAUTHORIZED_LOG_INTERVAL_MS = 60000"

record SignalBackoff =
  sb_not_before_msec :: u64
  sb_consecutive_retryable :: u32

definition default_backoff :: SignalBackoff where
  "default_backoff = \<lparr>sb_not_before_msec = 0, sb_consecutive_retryable = 0\<rparr>"

definition is_deferred :: "SignalBackoff \<Rightarrow> u64 \<Rightarrow> bool" where
  "is_deferred b now_msec \<longleftrightarrow> sb_not_before_msec b \<noteq> 0 \<and> now_msec < sb_not_before_msec b"

datatype OutcomeAction = Release | Requeue | Drop

fun bit_length :: "nat \<Rightarrow> nat" where
  "bit_length n = (if n = 0 then 0 else Suc (bit_length (n div 2)))"

definition leading_zeros :: "u64 \<Rightarrow> nat" where
  "leading_zeros w = 64 - bit_length (unat w)"

definition backoff_ms :: "u32 \<Rightarrow> u64 \<Rightarrow> u64 \<Rightarrow> u64" where
  "backoff_ms consecutive_retryable base_ms cap_ms =
     (if base_ms = 0 then 0
      else
        let shift = unat (saturating_sub consecutive_retryable 1)
        in if leading_zeros base_ms \<le> shift then cap_ms
           else min (push_bit shift base_ms) cap_ms)"

text \<open>\<open>maybe_log_unauthorized\<close> with the log present; \<open>cur\<close> is \<open>ngx_current_msec\<close>. The result tells whether the line is logged.\<close>

definition maybe_log_unauthorized :: "u64 \<Rightarrow> self_metrics \<Rightarrow> bool \<times> self_metrics" where
  "maybe_log_unauthorized cur sm =
     (let last = sm_unauthorized_log_last sm
      in if last \<noteq> 0 \<and> saturating_sub cur last < UNAUTHORIZED_LOG_INTERVAL_MS then (False, sm)
         else (True, sm\<lparr>sm_unauthorized_log_last := max cur 1\<rparr>))"

definition is_permanent_rejection :: "TransportError \<Rightarrow> bool" where
  "is_permanent_rejection e = (case e of HttpStatus code _ \<Rightarrow> 400 \<le> code \<and> code < 500 | _ \<Rightarrow> False)"

definition defer_ms :: "duration option \<Rightarrow> u32 \<Rightarrow> u64" where
  "defer_ms retry_after consecutive =
     (case retry_after of
        Some hint \<Rightarrow> max (if as_millis hint < 2 ^ 64 then of_nat (as_millis hint) else - 1) 1
      | None \<Rightarrow> backoff_ms consecutive BACKOFF_BASE_MS BACKOFF_CAP_MS)"

definition apply_delivery_outcome ::
  "DeliveryOutcome \<Rightarrow> u64 \<Rightarrow> u64 \<Rightarrow> SignalBackoff \<Rightarrow> self_metrics \<Rightarrow> OutcomeAction \<times> SignalBackoff \<times> self_metrics" where
  "apply_delivery_outcome outcome now_msec cur b sm =
     (case outcome of
        Accepted \<Rightarrow> (Release, b\<lparr>sb_consecutive_retryable := 0, sb_not_before_msec := 0\<rparr>, sm)
      | PartialReject rejected \<Rightarrow>
          (Release, b\<lparr>sb_consecutive_retryable := 0, sb_not_before_msec := 0\<rparr>,
           sm\<lparr>sm_partial_rejected := sm_partial_rejected sm + rejected\<rparr>)
      | Retryable retry_after \<Rightarrow>
          (let n = saturating_add (sb_consecutive_retryable b) 1
           in (Requeue,
               b\<lparr>sb_consecutive_retryable := n,
                 sb_not_before_msec := max (saturating_add now_msec (defer_ms retry_after n)) 1\<rparr>, sm))
      | Permanent \<Rightarrow> (Drop, b, sm\<lparr>sm_permanent_rejected := sm_permanent_rejected sm + 1\<rparr>)
      | Unauthorized \<Rightarrow>
          (Drop, b, snd (maybe_log_unauthorized cur (sm\<lparr>sm_unauthorized_rejected := sm_unauthorized_rejected sm + 1\<rparr>))))"

section \<open>The retry queue\<close>

type_synonym batch = "bytes \<times> u64"

record lane =
  ln_queue :: "batch list"
  ln_backoff :: SignalBackoff
  ln_failures :: u64

definition enqueue_with_eviction :: "batch list \<Rightarrow> batch \<Rightarrow> nat \<Rightarrow> self_metrics \<Rightarrow> batch list \<times> self_metrics" where
  "enqueue_with_eviction q b max_depth sm =
     (if max_depth \<le> length q
      then case q of
             (_, dropped_pts) # q' \<Rightarrow> (q' @ [b], sm\<lparr>sm_dropped_records := sm_dropped_records sm + dropped_pts\<rparr>)
           | [] \<Rightarrow> ([b], sm)
      else (q @ [b], sm))"

definition requeue :: "batch \<Rightarrow> nat \<Rightarrow> lane \<Rightarrow> self_metrics \<Rightarrow> lane \<times> self_metrics" where
  "requeue b max_depth l sm =
     (let (q, sm') = enqueue_with_eviction (ln_queue l) b max_depth sm in (l\<lparr>ln_queue := q\<rparr>, sm'))"

definition bump_failures :: "lane \<Rightarrow> lane" where
  "bump_failures l = l\<lparr>ln_failures := ln_failures l + 1\<rparr>"

definition queue_records :: "batch list \<Rightarrow> u64" where
  "queue_records q = sum_list (map snd q)"

definition account_drops_and_clear :: "batch list \<Rightarrow> self_metrics \<Rightarrow> batch list \<times> self_metrics" where
  "account_drops_and_clear q sm =
     (let remaining = queue_records q
      in ([], if remaining > 0 then sm\<lparr>sm_dropped_records := sm_dropped_records sm + remaining\<rparr> else sm))"

text \<open>The answer of a send raced against its deadline.\<close>

datatype send_result = SendOk DeliveryOutcome | SendErr TransportError | DeadlineExceeded

definition released :: "u64 \<Rightarrow> self_metrics \<Rightarrow> self_metrics" where
  "released n sm = sm\<lparr>sm_released := sm_released sm + n\<rparr>"

definition refused :: "u64 \<Rightarrow> self_metrics \<Rightarrow> self_metrics" where
  "refused n sm = sm\<lparr>sm_refused := sm_refused sm + n\<rparr>"

definition lost :: "u64 \<Rightarrow> self_metrics \<Rightarrow> self_metrics" where
  "lost n sm = sm\<lparr>sm_lost := sm_lost sm + n\<rparr>"

text \<open>
  One retry pass over the batches taken out of the queue. \<open>send\<close> sends one batch of this lane,
  \<open>clock\<close> reads \<open>ngx_current_msec\<close>.
\<close>

fun drain_batches ::
  "(bytes \<Rightarrow> 'n \<Rightarrow> send_result \<times> 'n) \<Rightarrow> ('n \<Rightarrow> u64) \<Rightarrow> nat \<Rightarrow> u64 \<Rightarrow> bool \<Rightarrow> batch list \<Rightarrow> lane \<Rightarrow> self_metrics \<Rightarrow> 'n \<Rightarrow>
     lane \<times> self_metrics \<times> 'n" where
  "drain_batches send clock depth now_msec drain_failed [] l sm w = (l, sm, w)"
| "drain_batches send clock depth now_msec True (b # snapshot) l sm w =
     (let (l1, sm1) = requeue b depth l sm
      in drain_batches send clock depth now_msec True snapshot l1 sm1 w)"
| "drain_batches send clock depth now_msec False ((bytes, n) # snapshot) l sm w =
     (let (res, w1) = send bytes w
      in case res of
           SendOk outcome \<Rightarrow>
             (let (action, bo, sm1) = apply_delivery_outcome outcome now_msec (clock w1) (ln_backoff l) sm;
                  l1 = l\<lparr>ln_backoff := bo\<rparr>
              in case action of
                   Release \<Rightarrow> drain_batches send clock depth now_msec False snapshot l1 (released n sm1) w1
                 | Requeue \<Rightarrow>
                     (let (l2, sm2) = requeue (bytes, n) depth (bump_failures l1) sm1
                      in drain_batches send clock depth now_msec True snapshot l2 sm2 w1)
                 | Drop \<Rightarrow> drain_batches send clock depth now_msec False snapshot l1 (refused n sm1) w1)
         | SendErr e \<Rightarrow>
             (if is_permanent_rejection e
              then drain_batches send clock depth now_msec True snapshot (bump_failures l) (refused n sm) w1
              else let (l2, sm2) = requeue (bytes, n) depth (bump_failures l) sm
                   in drain_batches send clock depth now_msec True snapshot l2 sm2 w1)
         | DeadlineExceeded \<Rightarrow>
             (let (l2, sm2) = requeue (bytes, n) depth (bump_failures l) sm
              in drain_batches send clock depth now_msec True snapshot l2 sm2 w1))"

definition drain_retry_queue_once ::
  "(bytes \<Rightarrow> 'n \<Rightarrow> send_result \<times> 'n) \<Rightarrow> ('n \<Rightarrow> u64) \<Rightarrow> nat \<Rightarrow> lane \<Rightarrow> self_metrics \<Rightarrow> 'n \<Rightarrow> lane \<times> self_metrics \<times> 'n" where
  "drain_retry_queue_once send clock depth l sm w =
     drain_batches send clock depth (clock w) False (ln_queue l) (l\<lparr>ln_queue := []\<rparr>) sm w"

section \<open>Fresh batches\<close>

definition metric_data_points :: "MetricData \<Rightarrow> nat" where
  "metric_data_points d =
     (case d of
        HistogramD _ dps \<Rightarrow> length dps
      | ExponentialHistogramD _ dps \<Rightarrow> length dps
      | SumD _ _ dps \<Rightarrow> length dps
      | GaugeD dps \<Rightarrow> length dps)"

definition count_data_points :: "Batch \<Rightarrow> u64" where
  "count_data_points b = sum_list (map (\<lambda>m. of_nat (metric_data_points (metric_data m))) (batch_metrics b))"

definition count_pdata_records :: "Pdata \<Rightarrow> u64" where
  "count_pdata_records d =
     (case d of
        PMetrics b \<Rightarrow> count_data_points b
      | PLogs b \<Rightarrow> of_nat (length (logs_logs b))
      | PSpans b \<Rightarrow> of_nat (length (spans_spans b)))"

definition pdata_signal :: "Pdata \<Rightarrow> OtlpSignal" where
  "pdata_signal d = (case d of PMetrics _ \<Rightarrow> Metrics | PLogs _ \<Rightarrow> Logs | PSpans _ \<Rightarrow> Traces)"

definition handle_fresh_send_outcome ::
  "DeliveryOutcome \<Rightarrow> u64 \<Rightarrow> u64 \<Rightarrow> batch \<Rightarrow> nat \<Rightarrow> lane \<Rightarrow> self_metrics \<Rightarrow> lane \<times> self_metrics" where
  "handle_fresh_send_outcome outcome now_msec cur b depth l sm =
     (let (action, bo, sm1) = apply_delivery_outcome outcome now_msec cur (ln_backoff l) sm;
          l1 = l\<lparr>ln_backoff := bo\<rparr>
      in case action of
           Release \<Rightarrow> (l1, released (snd b) sm1)
         | Requeue \<Rightarrow> (let (l2, sm2) = requeue b depth l1 sm1 in (bump_failures l2, sm2))
         | Drop \<Rightarrow> (l1, refused (snd b) sm1))"

definition send_fresh_batch ::
  "(OtlpSignal \<Rightarrow> bytes \<Rightarrow> 'n \<Rightarrow> send_result \<times> 'n) \<Rightarrow> ('n \<Rightarrow> u64) \<Rightarrow> (Pdata \<Rightarrow> bytes) \<Rightarrow> nat \<Rightarrow> Pdata \<Rightarrow> lane \<Rightarrow> self_metrics \<Rightarrow>
     'n \<Rightarrow> lane \<times> self_metrics \<times> 'n" where
  "send_fresh_batch transport clock encode_pdata depth pd l sm w =
     (let n_records = count_pdata_records pd
      in if n_records = 0 then (l, sm, w)
         else
           let bytes = encode_pdata pd;
               (res, w1) = transport (pdata_signal pd) bytes w
           in case res of
                SendOk outcome \<Rightarrow>
                  (let (l1, sm1) = handle_fresh_send_outcome outcome (clock w1) (clock w1) (bytes, n_records) depth l sm
                   in (l1, sm1, w1))
              | SendErr _ \<Rightarrow>
                  (let (l1, sm1) = requeue (bytes, n_records) depth l sm in (bump_failures l1, sm1, w1))
              | DeadlineExceeded \<Rightarrow>
                  (let (l1, sm1) = requeue (bytes, n_records) depth l sm in (bump_failures l1, sm1, w1)))"

section \<open>Backoff lemmas\<close>

declare bit_length.simps [simp del]

lemma bit_length_bounds: "0 < n \<Longrightarrow> 0 < bit_length n \<and> 2 ^ (bit_length n - 1) \<le> n \<and> n < 2 ^ bit_length n"
proof (induction n rule: bit_length.induct)
  case (1 n)
  show ?case
  proof (cases "n div 2 = 0")
    case True
    then have "n = 1" using 1 by (simp add: div_eq_0_iff)
    then show ?thesis by (simp add: bit_length.simps)
  next
    case False
    then have IH: "0 < bit_length (n div 2)" "2 ^ (bit_length (n div 2) - 1) \<le> n div 2"
      "n div 2 < 2 ^ bit_length (n div 2)"
      using 1 by auto
    define k where "k = bit_length (n div 2) - 1"
    have k: "bit_length (n div 2) = Suc k" using IH(1) by (simp add: k_def)
    have "bit_length n = Suc (Suc k)" using 1(2) k by (simp add: bit_length.simps [of n])
    then show ?thesis
      using IH(2,3) k by (auto simp: less_mult_imp_div_less div_less_iff_less_mult)
  qed
qed

lemma bit_length_le_64: "bit_length (unat (w :: u64)) \<le> 64"
proof (cases "unat w = 0")
  case False
  have "unat w < 2 ^ 64" using unsigned_less [of w, where 'a = nat] by simp
  then have "2 ^ (bit_length (unat w) - 1) < (2 :: nat) ^ 64"
    using bit_length_bounds [of "unat w"] False by (meson le_less_trans neq0_conv)
  then have "bit_length (unat w) - 1 < 64" by (rule power_less_imp_less_exp [rotated]) simp
  then show ?thesis by simp
qed (simp add: bit_length.simps)

text \<open>
  The guard is exact for every cap up to \<open>2^63\<close>: the shifted base either fits in 64 bits or has
  passed the cap.
\<close>

lemma backoff_ms_doubling:
  assumes "unat cap_ms \<le> 2 ^ 63" "base_ms \<noteq> 0"
  shows "unat (backoff_ms n base_ms cap_ms) = min (unat base_ms * 2 ^ (unat n - 1)) (unat cap_ms)"
proof -
  define k where "k = unat n - 1"
  define L where "L = bit_length (unat base_ms)"
  have shift: "unat (saturating_sub n 1) = k" by (simp add: unat_saturating_sub k_def)
  have pos: "0 < unat base_ms" using assms(2) by (simp add: unat_gt_0)
  then have L: "0 < L" "2 ^ (L - 1) \<le> unat base_ms" "unat base_ms < 2 ^ L" "L \<le> 64"
    using bit_length_bounds [OF pos] bit_length_le_64 [of base_ms] by (simp_all add: L_def)
  show ?thesis
  proof (cases "leading_zeros base_ms \<le> k")
    case True
    then have "64 - L \<le> k" by (simp add: leading_zeros_def L_def)
    then have "63 \<le> (L - 1) + k" using L by linarith
    then have "(2 :: nat) ^ 63 \<le> 2 ^ (L - 1 + k)" by (rule power_increasing) simp
    also have "\<dots> \<le> unat base_ms * 2 ^ k" using L(2) by (simp add: power_add)
    finally have "unat cap_ms \<le> unat base_ms * 2 ^ k" using assms(1) by simp
    then show ?thesis
      using True assms(2) unfolding backoff_ms_def Let_def shift k_def [symmetric] by (simp add: min_def)
  next
    case False
    then have "L + k \<le> 64" using L by (simp add: leading_zeros_def L_def)
    then have "unat base_ms * 2 ^ k < 2 ^ 64"
    proof -
      have "unat base_ms * 2 ^ k < 2 ^ (L + k)" using L(3) by (simp add: power_add)
      also have "\<dots> \<le> 2 ^ 64" using \<open>L + k \<le> 64\<close> by (rule power_increasing) simp
      finally show ?thesis .
    qed
    then have "unat (push_bit k base_ms) = unat base_ms * 2 ^ k"
      by (subst unsigned_push_bit_eq) (simp add: push_bit_eq_mult take_bit_nat_eq_self)
    then show ?thesis
      using False assms(2) unfolding backoff_ms_def Let_def shift k_def [symmetric]
      by (simp add: min_def word_le_nat_alt)
  qed
qed

section \<open>Queue lemmas\<close>

lemma queue_records_simps [simp]:
  "queue_records [] = 0" "queue_records (b # q) = snd b + queue_records q"
  "queue_records (p @ q) = queue_records p + queue_records q"
  by (simp_all add: queue_records_def)

lemma enqueue_length:
  "enqueue_with_eviction q b depth sm = (q', sm') \<Longrightarrow> length q \<le> K \<Longrightarrow> depth \<le> K \<Longrightarrow> 1 \<le> K \<Longrightarrow> length q' \<le> K"
  by (auto simp: enqueue_with_eviction_def split: if_splits list.splits)

lemma enqueue_room:
  "length q < depth \<Longrightarrow> enqueue_with_eviction q b depth sm = (q @ [b], sm)"
  by (simp add: enqueue_with_eviction_def)

lemma requeue_room:
  "length (ln_queue l) < depth \<Longrightarrow> requeue b depth l sm = (l\<lparr>ln_queue := ln_queue l @ [b]\<rparr>, sm)"
  by (simp add: requeue_def enqueue_room)

lemma bump_failures_simps [simp]:
  "ln_queue (bump_failures l) = ln_queue l" "ln_backoff (bump_failures l) = ln_backoff l"
  "(bump_failures l)\<lparr>ln_queue := q\<rparr> = bump_failures (l\<lparr>ln_queue := q\<rparr>)"
  by (simp_all add: bump_failures_def)

lemma drain_failed_requeues:
  "length (ln_queue l) + length snapshot \<le> depth \<Longrightarrow>
   drain_batches send clock depth now True snapshot l sm w = (l\<lparr>ln_queue := ln_queue l @ snapshot\<rparr>, sm, w)"
  by (induction snapshot arbitrary: l) (simp_all add: requeue_room)

text \<open>
  The reference of a retry pass: send from the front; a final verdict removes the batch; a rejected
  exchange (HTTP 4xx) removes it and stops; anything else stops and leaves it at the front.
\<close>

fun drain_reference ::
  "(bytes \<Rightarrow> 'n \<Rightarrow> send_result \<times> 'n) \<Rightarrow> ('n \<Rightarrow> u64) \<Rightarrow> u64 \<Rightarrow> batch list \<Rightarrow> lane \<Rightarrow> self_metrics \<Rightarrow> 'n \<Rightarrow>
     lane \<times> self_metrics \<times> 'n" where
  "drain_reference send clock now [] l sm w = (l\<lparr>ln_queue := []\<rparr>, sm, w)"
| "drain_reference send clock now ((bytes, n) # rest) l sm w =
     (case send bytes w of
        (SendOk outcome, w1) \<Rightarrow>
          (case apply_delivery_outcome outcome now (clock w1) (ln_backoff l) sm of
             (Release, bo, sm1) \<Rightarrow> drain_reference send clock now rest (l\<lparr>ln_backoff := bo\<rparr>) (released n sm1) w1
           | (Drop, bo, sm1) \<Rightarrow> drain_reference send clock now rest (l\<lparr>ln_backoff := bo\<rparr>) (refused n sm1) w1
           | (Requeue, bo, sm1) \<Rightarrow>
               (bump_failures (l\<lparr>ln_backoff := bo, ln_queue := (bytes, n) # rest\<rparr>), sm1, w1))
      | (SendErr e, w1) \<Rightarrow>
          if is_permanent_rejection e then (bump_failures (l\<lparr>ln_queue := rest\<rparr>), refused n sm, w1)
          else (bump_failures (l\<lparr>ln_queue := (bytes, n) # rest\<rparr>), sm, w1)
      | (DeadlineExceeded, w1) \<Rightarrow> (bump_failures (l\<lparr>ln_queue := (bytes, n) # rest\<rparr>), sm, w1))"

lemma drain_batches_reference:
  "ln_queue l = [] \<Longrightarrow> length snapshot \<le> depth \<Longrightarrow>
   drain_batches send clock depth now False snapshot l sm w = drain_reference send clock now snapshot l sm w"
proof (induction send clock now snapshot l sm w rule: drain_reference.induct)
  case (2 send clock now bytes n rest l sm w)
  obtain res w1 where s: "send bytes w = (res, w1)" by fastforce
  show ?case
  proof (cases res)
    case (SendOk outcome)
    obtain action bo sm1 where a: "apply_delivery_outcome outcome now (clock w1) (ln_backoff l) sm = (action, bo, sm1)"
      by (metis prod_cases3)
    show ?thesis
      using 2 by (cases action) (simp_all add: s SendOk a requeue_room drain_failed_requeues)
  qed (use 2 in \<open>simp_all add: s requeue_room drain_failed_requeues\<close>)
qed simp

section \<open>Accounting lemmas\<close>

definition accounted :: "lane \<Rightarrow> self_metrics \<Rightarrow> u64" where
  "accounted l sm = queue_records (ln_queue l) + sm_dropped_records sm + sm_released sm + sm_refused sm"

lemma apply_outcome_frame:
  assumes "apply_delivery_outcome outcome now cur b sm = (action, b', sm')"
  shows "sm_dropped_records sm' = sm_dropped_records sm" "sm_released sm' = sm_released sm"
    "sm_refused sm' = sm_refused sm" "sm_lost sm' = sm_lost sm"
  using assms by (auto simp: apply_delivery_outcome_def maybe_log_unauthorized_def Let_def split: DeliveryOutcome.splits if_splits)

lemma accounted_simps [simp]:
  "accounted (bump_failures l) sm = accounted l sm"
  "accounted (l\<lparr>ln_backoff := bo\<rparr>) sm = accounted l sm"
  "accounted l (released n sm) = accounted l sm + n"
  "accounted l (refused n sm) = accounted l sm + n"
  by (simp_all add: accounted_def released_def refused_def)

lemma accounted_cong:
  "apply_delivery_outcome outcome now cur b sm = (action, b', sm') \<Longrightarrow> accounted l sm' = accounted l sm"
  by (simp add: accounted_def apply_outcome_frame)

lemma requeue_accounted:
  assumes "requeue b depth l sm = (l', sm')"
  shows "accounted l' sm' = accounted l sm + snd b" "ln_backoff l' = ln_backoff l"
    "length (ln_queue l) \<le> K \<Longrightarrow> depth \<le> K \<Longrightarrow> 1 \<le> K \<Longrightarrow> length (ln_queue l') \<le> K"
  using assms
  by (auto simp: requeue_def enqueue_with_eviction_def accounted_def split: if_splits list.splits)

lemma drain_batches_accounted:
  assumes "drain_batches send clock depth now failed snapshot l sm w = (l', sm', w')"
  shows "accounted l' sm' = accounted l sm + queue_records snapshot \<and>
    (length (ln_queue l) \<le> K \<and> depth \<le> K \<and> 1 \<le> K \<longrightarrow> length (ln_queue l') \<le> K)"
  using assms
proof (induction send clock depth now failed snapshot l sm w rule: drain_batches.induct)
  case (2 send clock depth now b snapshot l sm w)
  obtain l1 sm1 where r: "requeue b depth l sm = (l1, sm1)" by fastforce
  show ?case
    using 2 r requeue_accounted [OF r] by auto
next
  case (3 send clock depth now bytes n snapshot l sm w)
  obtain res w1 where s: "send bytes w = (res, w1)" by fastforce
  show ?case
  proof (cases res)
    case (SendOk outcome)
    obtain action bo sm1 where a: "apply_delivery_outcome outcome now (clock w1) (ln_backoff l) sm = (action, bo, sm1)"
      by (metis prod_cases3)
    obtain l2 sm2 where r: "requeue (bytes, n) depth (bump_failures (l\<lparr>ln_backoff := bo\<rparr>)) sm1 = (l2, sm2)" by fastforce
    show ?thesis
      using 3 requeue_accounted [OF r] accounted_cong [OF a]
      by (cases action) (auto simp: s SendOk a r split: if_splits)
  next
    case (SendErr e)
    obtain l2 sm2 where r: "requeue (bytes, n) depth (bump_failures l) sm = (l2, sm2)" by fastforce
    show ?thesis
      using 3 requeue_accounted [OF r] by (auto simp: s SendErr r split: if_splits)
  next
    case DeadlineExceeded
    obtain l2 sm2 where r: "requeue (bytes, n) depth (bump_failures l) sm = (l2, sm2)" by fastforce
    show ?thesis
      using 3 requeue_accounted [OF r] by (auto simp: s DeadlineExceeded r split: if_splits)
  qed
qed simp

lemma drain_once_accounted:
  assumes "drain_retry_queue_once send clock depth l sm w = (l', sm', w')"
  shows "accounted l' sm' = accounted l sm \<and> length (ln_queue l') \<le> max depth 1"
  using drain_batches_accounted [OF assms [unfolded drain_retry_queue_once_def], of "max depth 1"]
  by (simp add: accounted_def)

lemma fresh_outcome_accounted:
  assumes "handle_fresh_send_outcome outcome now cur b depth l sm = (l', sm')"
  shows "accounted l' sm' = accounted l sm + snd b \<and>
    (length (ln_queue l) \<le> K \<and> depth \<le> K \<and> 1 \<le> K \<longrightarrow> length (ln_queue l') \<le> K)"
proof -
  obtain action bo sm1 where a: "apply_delivery_outcome outcome now cur (ln_backoff l) sm = (action, bo, sm1)"
    by (metis prod_cases3)
  obtain l2 sm2 where r: "requeue b depth (l\<lparr>ln_backoff := bo\<rparr>) sm1 = (l2, sm2)" by fastforce
  show ?thesis
    using assms requeue_accounted [OF r] accounted_cong [OF a]
    by (cases action) (auto simp: handle_fresh_send_outcome_def a r)
qed

lemma send_fresh_accounted:
  assumes "send_fresh_batch transport clock enc depth pd l sm w = (l', sm', w')"
  shows "accounted l' sm' = accounted l sm + count_pdata_records pd \<and>
    (length (ln_queue l) \<le> K \<and> depth \<le> K \<and> 1 \<le> K \<longrightarrow> length (ln_queue l') \<le> K)"
proof (cases "count_pdata_records pd = 0")
  case True
  then show ?thesis using assms by (auto simp: send_fresh_batch_def)
next
  case False
  obtain res w1 where s: "transport (pdata_signal pd) (enc pd) w = (res, w1)" by fastforce
  obtain l2 sm2 where r: "requeue (enc pd, count_pdata_records pd) depth l sm = (l2, sm2)" by fastforce
  show ?thesis
  proof (cases res)
    case (SendOk outcome)
    obtain l3 sm3 where h: "handle_fresh_send_outcome outcome (clock w1) (clock w1) (enc pd, count_pdata_records pd) depth l sm = (l3, sm3)"
      by fastforce
    show ?thesis
      using assms False fresh_outcome_accounted [OF h] by (simp add: send_fresh_batch_def s SendOk h)
  qed (use assms False requeue_accounted [OF r] in \<open>auto simp: send_fresh_batch_def s r\<close>)
qed

section \<open>Properties\<close>

text \<open>
  C26. The retry pass of the source, which takes the whole queue out and puts the batches it does not
  settle back through the evicting enqueue, is the reference pass that removes settled batches from the
  front: nothing is evicted and the order is kept. This holds for every queue within its depth.
\<close>
theorem retry_pass_is_reference:
  assumes "length (ln_queue l) \<le> depth"
  shows "drain_retry_queue_once send clock depth l sm w =
    drain_reference send clock (clock w) (ln_queue l) (l\<lparr>ln_queue := []\<rparr>) sm w"
  using assms by (simp add: drain_retry_queue_once_def drain_batches_reference)

definition demo_lane :: lane where
  "demo_lane = \<lparr>ln_queue = [([1], 3), ([2], 4), ([3], 5)], ln_backoff = default_backoff, ln_failures = 0\<rparr>"

definition zero_metrics :: self_metrics where
  "zero_metrics = \<lparr>sm_dropped_records = 0, sm_partial_rejected = 0, sm_permanent_rejected = 0,
     sm_unauthorized_rejected = 0, sm_unauthorized_log_last = 0, sm_released = 0, sm_refused = 0, sm_lost = 0\<rparr>"

text \<open>A network that answers from a script and then times out; its clock stands at one second.\<close>

fun demo_send :: "bytes \<Rightarrow> send_result list \<Rightarrow> send_result \<times> send_result list" where
  "demo_send b [] = (DeadlineExceeded, [])"
| "demo_send b (r # rs) = (r, rs)"

theorem retry_pass_is_reference_witness:
  "length (ln_queue demo_lane) \<le> 10 \<and>
   ln_queue (fst (drain_retry_queue_once demo_send (\<lambda>_. 1000) 10 demo_lane zero_metrics
     [SendOk Accepted, SendOk (Retryable None)])) = [([2], 4), ([3], 5)]"
proof -
  have "length (ln_queue demo_lane) \<le> 10" by (simp add: demo_lane_def)
  from retry_pass_is_reference [OF this, of demo_send "\<lambda>_. 1000" zero_metrics "[SendOk Accepted, SendOk (Retryable None)]"]
  show ?thesis
    by (simp add: demo_lane_def apply_delivery_outcome_def bump_failures_def Let_def)
qed

datatype lane_event = FreshBatch Pdata | RetryPass

fun run_lane ::
  "(OtlpSignal \<Rightarrow> bytes \<Rightarrow> 'n \<Rightarrow> send_result \<times> 'n) \<Rightarrow> ('n \<Rightarrow> u64) \<Rightarrow> (Pdata \<Rightarrow> bytes) \<Rightarrow> nat \<Rightarrow> OtlpSignal \<Rightarrow> lane_event list \<Rightarrow>
     lane \<Rightarrow> self_metrics \<Rightarrow> 'n \<Rightarrow> lane \<times> self_metrics \<times> 'n" where
  "run_lane transport clock enc depth sig [] l sm w = (l, sm, w)"
| "run_lane transport clock enc depth sig (FreshBatch pd # es) l sm w =
     (let (l1, sm1, w1) = send_fresh_batch transport clock enc depth pd l sm w
      in run_lane transport clock enc depth sig es l1 sm1 w1)"
| "run_lane transport clock enc depth sig (RetryPass # es) l sm w =
     (let (l1, sm1, w1) = drain_retry_queue_once (transport sig) clock depth l sm w
      in run_lane transport clock enc depth sig es l1 sm1 w1)"

primrec offered :: "lane_event \<Rightarrow> u64" where
  "offered (FreshBatch pd) = count_pdata_records pd"
| "offered RetryPass = 0"

lemma run_lane_accounted:
  "run_lane transport clock enc depth sig es l sm w = (l', sm', w') \<Longrightarrow> 1 \<le> depth \<Longrightarrow> length (ln_queue l) \<le> depth \<Longrightarrow>
   accounted l' sm' = accounted l sm + sum_list (map offered es) \<and> length (ln_queue l') \<le> depth"
proof (induction transport clock enc depth sig es l sm w rule: run_lane.induct)
  case (2 transport clock enc depth sig pd es l sm w)
  obtain l1 sm1 w1 where s: "send_fresh_batch transport clock enc depth pd l sm w = (l1, sm1, w1)" by (metis prod_cases3)
  show ?case
    using 2 send_fresh_accounted [OF s, of depth] by (auto simp: s)
next
  case (3 transport clock enc depth sig es l sm w)
  obtain l1 sm1 w1 where s: "drain_retry_queue_once (transport sig) clock depth l sm w = (l1, sm1, w1)" by (metis prod_cases3)
  show ?case
    using 3 drain_once_accounted [OF s] by (auto simp: s)
qed simp

text \<open>
  C6. Over any sequence of fresh batches and retry passes of a lane, whatever the network answers:
  every record that was queued or offered is at the end still in the queue, released by a verdict,
  refused by one, or counted in \<open>DROPPED_RECORDS\<close> (as an equation of 64-bit counters), and the queue
  never exceeds its depth.
\<close>
theorem lane_conserves_records:
  assumes "1 \<le> depth" "length (ln_queue l) \<le> depth"
    and "run_lane transport clock enc depth sig es l sm w = (l', sm', w')"
  shows "queue_records (ln_queue l') + sm_dropped_records sm' + sm_released sm' + sm_refused sm' =
      queue_records (ln_queue l) + sm_dropped_records sm + sm_released sm + sm_refused sm + sum_list (map offered es)
    \<and> length (ln_queue l') \<le> depth"
  using run_lane_accounted [OF assms(3,1,2)] by (simp add: accounted_def)

text \<open>A depth of one and two refusals to answer: the second batch evicts the first.\<close>

definition demo_span :: Span where
  "demo_span = \<lparr>span_trace_id = [], span_span_id = [], span_parent_span_id = [], span_flags = 0, span_name = [],
     span_kind = Server, span_start_time_unix_nano = 0, span_end_time_unix_nano = 0, span_attributes = [],
     span_events = [], span_links = [], span_status = \<lparr>status_code = Unset, status_message = []\<rparr>\<rparr>"

definition demo_spans :: "nat \<Rightarrow> Pdata" where
  "demo_spans n = PSpans \<lparr>spans_resource = \<lparr>res_attributes = []\<rparr>,
     spans_scope = \<lparr>scope_name = [], scope_version = []\<rparr>, spans_spans = replicate n demo_span\<rparr>"

theorem lane_conserves_records_witness:
  "\<exists>l' sm' w'. run_lane (\<lambda>_. demo_send) (\<lambda>_. 1000) (\<lambda>_. [7]) 1 Traces [FreshBatch (demo_spans 2), FreshBatch (demo_spans 3), RetryPass]
     (demo_lane\<lparr>ln_queue := []\<rparr>) zero_metrics [DeadlineExceeded, SendErr Timeout, SendOk Accepted] = (l', sm', w') \<and>
   sm_dropped_records sm' = 2 \<and> sm_released sm' = 3 \<and> ln_queue l' = [] \<and>
   queue_records (ln_queue l') + sm_dropped_records sm' + sm_released sm' + sm_refused sm' = 5"
proof -
  define r where "r = run_lane (\<lambda>_. demo_send) (\<lambda>_. 1000) (\<lambda>_. [7]) 1 Traces [FreshBatch (demo_spans 2), FreshBatch (demo_spans 3), RetryPass]
     (demo_lane\<lparr>ln_queue := []\<rparr>) zero_metrics [DeadlineExceeded, SendErr Timeout, SendOk Accepted]"
  obtain l' sm' w' where e: "r = (l', sm', w')" by (metis prod_cases3)
  have "sm_dropped_records sm' = 2 \<and> sm_released sm' = 3 \<and> ln_queue l' = []"
    using e by (simp add: r_def demo_spans_def demo_lane_def send_fresh_batch_def count_pdata_records_def pdata_signal_def
        drain_retry_queue_once_def requeue_def enqueue_with_eviction_def bump_failures_def apply_delivery_outcome_def
        released_def zero_metrics_def Let_def) auto
  then show ?thesis
    using lane_conserves_records [OF _ _ e [unfolded r_def]] e
    by (auto simp: r_def demo_spans_def count_pdata_records_def zero_metrics_def)
qed

end
