(* ===== verification/Retry_Wait.thy ===== *)
theory Retry_Wait
  imports Retry_Lane
begin

text \<open>
  How long a lane waits before it is drained again: the schedule of the exponential backoff of
  \<^verbatim>\<open>src/src/drain/backoff.rs\<close>, and how a collector's \<^verbatim>\<open>Retry-After\<close> header reaches it through the HTTP
  adapter of \<^verbatim>\<open>src/src/transport/hyper_http.rs\<close>.
\<close>

section \<open>How long a lane waits\<close>

definition after_failures :: "u64 list \<Rightarrow> SignalBackoff" where
  "after_failures nows =
     fold (\<lambda>now b. fst (snd (apply_delivery_outcome (Retryable None) now now b zero_metrics))) nows default_backoff"

lemma after_failures_snoc:
  "after_failures (nows @ [now]) =
     (let n = saturating_add (sb_consecutive_retryable (after_failures nows)) 1
      in \<lparr>sb_not_before_msec = max (saturating_add now (defer_ms None n)) 1, sb_consecutive_retryable = n\<rparr>)"
  by (simp add: after_failures_def apply_delivery_outcome_def Let_def)

lemma after_failures_count: "unat (sb_consecutive_retryable (after_failures nows)) = min (length nows) (2 ^ 32 - 1)"
proof (induction nows rule: rev_induct)
  case Nil
  show ?case by (simp add: after_failures_def default_backoff_def)
next
  case (snoc now nows)
  then show ?case by (simp add: after_failures_snoc Let_def unat_saturating_add)
qed

lemma capped_doubling: "8 \<le> k \<Longrightarrow> min (250 * 2 ^ (k - 1)) 30000 = (30000 :: nat)"
proof -
  assume "8 \<le> k"
  then have "(2 :: nat) ^ 7 \<le> 2 ^ (k - 1)" by (intro power_increasing) auto
  then show ?thesis by (simp add: min_def)
qed

lemma unat_defer_no_hint: "unat (defer_ms None n) = min (250 * 2 ^ (unat n - 1)) 30000"
  using backoff_ms_doubling [of BACKOFF_CAP_MS BACKOFF_BASE_MS n]
  by (simp add: defer_ms_def BACKOFF_BASE_MS_def BACKOFF_CAP_MS_def)

text \<open>
  C30. After a run of consecutive retryable verdicts without a hint, the last at \<open>now\<close>, the lane is
  deferred until exactly \<open>now\<close> plus 250 ms doubled once for every further failure, and never for more
  than 30 s.
\<close>
theorem backoff_schedule:
  assumes "unat now + 30000 < 2 ^ 64"
  shows "is_deferred (after_failures (earlier @ [now])) t \<longleftrightarrow>
    unat t < unat now + min (250 * 2 ^ length earlier) 30000"
proof -
  define n where "n = saturating_add (sb_consecutive_retryable (after_failures earlier)) 1"
  obtain m :: nat where m: "8 \<le> m" "m = 2 ^ 32 - 1" by simp
  have "unat n = min (Suc (length earlier)) m"
    by (simp add: n_def unat_saturating_add after_failures_count m(2))
  then have d: "unat (defer_ms None n) = min (250 * 2 ^ length earlier) 30000"
    using capped_doubling [of "Suc (length earlier)"] capped_doubling [OF m(1)] m(1)
    unfolding unat_defer_no_hint by (cases "Suc (length earlier) \<le> m") auto
  define D :: nat where "D = min (250 * 2 ^ length earlier) 30000"
  have "(1 :: nat) \<le> 2 ^ length earlier" by simp
  then have D: "250 \<le> D" "D \<le> 30000" by (simp_all add: D_def)
  have nb: "unat (max (saturating_add now (defer_ms None n)) 1) = unat now + D"
    using assms D d [folded D_def] by (auto simp: max_def word_le_nat_alt unat_saturating_add)
  moreover have "max (saturating_add now (defer_ms None n)) 1 \<noteq> 0"
    using nb D(1) by (metis add_is_0 not_numeral_le_zero unat_0)
  ultimately show ?thesis
    unfolding D_def [symmetric]
    by (simp add: after_failures_snoc is_deferred_def Let_def n_def [symmetric] word_less_nat_alt)
qed

theorem backoff_schedule_witness:
  "is_deferred (after_failures ([100, 400] @ [1000])) 1999 \<and> \<not> is_deferred (after_failures ([100, 400] @ [1000])) 2000"
  using backoff_schedule [of 1000 "[100, 400]" 1999] backoff_schedule [of 1000 "[100, 400]" 2000]
  by simp

lemma digits_value_append: "digits_value v (xs @ ys) = Option.bind (digits_value v xs) (\<lambda>u. digits_value u ys)"
  by (induction xs arbitrary: v) simp_all

lemma digits_value_digit:
  "k < 10 \<Longrightarrow> digits_value v [of_nat (48 + k)] = Some (v * 10 + k)"
  using digit_u8 [of k] by (simp add: unat_of_nat)

lemma digits_value_dec: "digits_value 0 (dec_digits n) = Some n"
proof (induction n rule: dec_digits.induct)
  case (1 n)
  show ?case
  proof (cases "n < 10")
    case True
    then show ?thesis using digits_value_digit [of n 0] by (simp add: dec_digits.simps)
  next
    case False
    then show ?thesis
      using 1 digits_value_digit [of "n mod 10" "n div 10"]
      by (simp add: dec_digits.simps [of n] digits_value_append del: digits_value.simps of_nat_add)
  qed
qed

lemma dec_digits_digit: "c \<in> set (dec_digits n) \<Longrightarrow> 0x30 \<le> c \<and> c \<le> 0x39"
proof (induction n rule: dec_digits.induct)
  case (1 n)
  then show ?case
    using digit_u8 [of n] digit_u8 [of "n mod 10"] by (cases "n < 10") (auto simp: dec_digits.simps [of n])
qed

lemma dec_digits_ne: "dec_digits n \<noteq> []"
  by (simp add: dec_digits.simps)

lemma digit_not_space: "0x30 \<le> c \<Longrightarrow> \<not> is_whitespace c"
  by (auto simp: is_whitespace_def word_le_nat_alt unat_eq_zero)

lemma dropWhile_none: "(\<And>c. c \<in> set xs \<Longrightarrow> \<not> P c) \<Longrightarrow> dropWhile P xs = xs"
  by (cases xs) auto

lemma trim_dec: "trim (dec_digits n) = dec_digits n"
proof -
  have "\<not> is_whitespace c" if "c \<in> set (dec_digits n)" for c
    using dec_digits_digit [OF that] digit_not_space by blast
  then have "dropWhile is_whitespace (dec_digits n) = dec_digits n"
    "dropWhile is_whitespace (rev (dec_digits n)) = rev (dec_digits n)"
    by (auto intro!: dropWhile_none)
  then show ?thesis by (simp add: trim_def)
qed

lemma parse_u64_dec: "n < 2 ^ 64 \<Longrightarrow> parse_u64 (dec_digits n) = Some n"
proof -
  assume "n < 2 ^ 64"
  moreover have "hd (dec_digits n) \<noteq> 0x2B"
    using dec_digits_digit [of "hd (dec_digits n)" n] dec_digits_ne [of n] by auto
  ultimately show ?thesis
    by (simp add: parse_u64_def strip_plus_def parse_magnitude_def dec_digits_ne digits_value_dec)
qed

lemma parse_retry_after_secs: "n < 2 ^ 64 \<Longrightarrow> parse_retry_after now (dec_digits n) = Some (n * 10 ^ 9)"
  by (simp add: parse_retry_after_def trim_dec parse_u64_dec duration_from_secs_def)

lemma defer_hint:
  assumes "1 \<le> secs" "unat now_msec + secs * 1000 < 2 ^ 64"
  shows "unat (max (saturating_add now_msec (defer_ms (Some (secs * 10 ^ 9)) n)) 1) = unat now_msec + secs * 1000"
proof -
  define z where "z = secs * 1000"
  have ms: "as_millis (secs * 10 ^ 9) = z" by (simp add: as_millis_def z_def)
  have z: "1 \<le> z" "unat now_msec + z < 2 ^ 64" using assms by (simp_all add: z_def)
  then have uz: "unat (of_nat z :: u64) = z" by (simp add: unat_of_nat)
  moreover from uz have "1 \<le> (of_nat z :: u64)" using z(1) by (simp add: word_le_nat_alt)
  ultimately have "unat (defer_ms (Some (secs * 10 ^ 9)) n) = z"
    using z(2) unfolding defer_ms_def option.case ms by (auto simp: max_def)
  then show ?thesis
    using z unfolding z_def [symmetric] by (simp add: max_def word_le_nat_alt unat_saturating_add)
qed

lemma apply_retryable:
  "apply_delivery_outcome (Retryable h) now cur b sm = (action, b', sm') \<Longrightarrow>
   action = Requeue \<and> sb_not_before_msec b' = max (saturating_add now (defer_ms h (saturating_add (sb_consecutive_retryable b) 1))) 1"
  by (auto simp: apply_delivery_outcome_def Let_def)

text \<open>
  C28. What a refused HTTP response does to a lane: the batch is re-queued exactly for the statuses
  429, 502, 503 and 504, for every other one it is dropped and the lane's backoff is left alone; when a
  re-queued response carries \<^verbatim>\<open>Retry-After\<close> with a number of seconds, the lane is deferred for
  exactly that time.
\<close>
theorem http_refusal_policy:
  assumes "\<not> (200 \<le> status \<and> status < 300)"
    and "apply_delivery_outcome (http_response_to_outcome decode now status header body signal) now_msec cur b sm = (action, b', sm')"
  shows "action = (if status \<in> {429, 502, 503, 504} then Requeue else Drop) \<and>
    (action = Drop \<longrightarrow> b' = b) \<and>
    (action = Requeue \<and> header = Some (dec_digits secs) \<and> 1 \<le> secs \<and> unat now_msec + secs * 1000 < 2 ^ 64 \<longrightarrow>
       (\<forall>t. is_deferred b' t \<longleftrightarrow> unat t < unat now_msec + secs * 1000))"
proof (cases "status \<in> {429, 502, 503, 504}")
  case True
  define h where "h = (case header of Some v \<Rightarrow> parse_retry_after now v | None \<Rightarrow> None)"
  have o: "http_response_to_outcome decode now status header body signal = Retryable h"
    unfolding http_response_to_outcome_def if_not_P [OF assms(1)]
    using True by (simp add: map_http_status_to_outcome_def h_def)
  define nb where "nb = max (saturating_add now_msec (defer_ms h (saturating_add (sb_consecutive_retryable b) 1))) 1"
  have a: "action = Requeue" "sb_not_before_msec b' = nb"
    using apply_retryable [OF assms(2) [unfolded o]] by (simp_all add: nb_def)
  have "is_deferred b' t \<longleftrightarrow> unat t < unat now_msec + secs * 1000"
    if s: "header = Some (dec_digits secs)" "1 \<le> secs" "unat now_msec + secs * 1000 < 2 ^ 64" for t
  proof -
    have "h = Some (secs * 10 ^ 9)"
      using s by (simp add: h_def parse_retry_after_secs)
    then have u: "unat nb = unat now_msec + secs * 1000"
      using defer_hint [OF s(2,3)] by (simp add: nb_def)
    then have "nb \<noteq> 0" using s(2) by (metis add_is_0 mult_is_0 not_one_le_zero unat_0 zero_neq_numeral)
    then show ?thesis by (simp add: is_deferred_def a(2) u word_less_nat_alt)
  qed
  with True a(1) show ?thesis by auto
next
  case False
  then have "http_response_to_outcome decode now status header body signal \<in> {Permanent, Unauthorized}"
    unfolding http_response_to_outcome_def if_not_P [OF assms(1)]
    by (simp add: map_http_status_to_outcome_def Let_def)
  then show ?thesis
    using assms(2) False by (auto simp: apply_delivery_outcome_def maybe_log_unauthorized_def Let_def split: if_splits)
qed

theorem http_refusal_policy_witness:
  "is_deferred (fst (snd (apply_delivery_outcome
     (http_response_to_outcome (\<lambda>_ _. None) 0 503 (Some (dec_digits 120)) [] Logs) 5000 5000 default_backoff zero_metrics))) 124999"
proof -
  obtain action b' sm' where a: "apply_delivery_outcome
     (http_response_to_outcome (\<lambda>_ _. None) 0 503 (Some (dec_digits 120)) [] Logs) 5000 5000 default_backoff zero_metrics = (action, b', sm')"
    by (metis prod_cases3)
  show ?thesis
    using http_refusal_policy [OF _ a, of 120] a by simp
qed

end
