(* ===== verification/Endpoint.thy ===== *)
theory Endpoint
  imports Retry_Wait Utf8_Lossy
begin

text \<open>
  Collector endpoints: the validation at configuration time (\<open>validate_endpoint_tls\<close> and
  \<open>endpoint_needs_resolver\<close> of \<^verbatim>\<open>src/src/config/mod.rs\<close>), the parser of the transport
  (\<open>ParsedEndpoint\<close> of \<^verbatim>\<open>src/src/transport/hyper_http.rs\<close>) and the request paths the export loop derives
  from them. Strings are bytes; the separators are ASCII, so splitting bytes is splitting characters. Shown:
  whatever the validation accepts the transport parses, with a host and a port it can connect to, and
  parsing an endpoint printed by \<open>authority\<close> gives the endpoint back.
\<close>

section \<open>Strings\<close>

definition strip_prefix :: "bytes \<Rightarrow> bytes \<Rightarrow> bytes option" where
  "strip_prefix p s = (if take (length p) s = p then Some (drop (length p) s) else None)"

definition starts_with :: "bytes \<Rightarrow> bytes \<Rightarrow> bool" where
  "starts_with p s \<longleftrightarrow> take (length p) s = p"

definition ends_with_byte :: "u8 \<Rightarrow> bytes \<Rightarrow> bool" where
  "ends_with_byte c s \<longleftrightarrow> s \<noteq> [] \<and> last s = c"

text \<open>
  \<open>find\<close> of a character, as the text before it and the text from it on, and \<open>rfind\<close>, as the text before it
  and the text behind it.
\<close>

definition split_first :: "u8 \<Rightarrow> bytes \<Rightarrow> (bytes \<times> bytes) option" where
  "split_first c s = (if c \<in> set s then Some (takeWhile (\<lambda>b. b \<noteq> c) s, dropWhile (\<lambda>b. b \<noteq> c) s) else None)"

definition split_last :: "u8 \<Rightarrow> bytes \<Rightarrow> (bytes \<times> bytes) option" where
  "split_last c s =
     map_option (\<lambda>(rest, front). (rev (tl front), rev rest)) (split_first c (rev s))"

definition SLASH :: u8 where "SLASH = 0x2F"
definition COLON :: u8 where "COLON = 0x3A"
definition LBRACKET :: u8 where "LBRACKET = 0x5B"
definition RBRACKET :: u8 where "RBRACKET = 0x5D"

definition parse_u16 :: "bytes \<Rightarrow> u16 option" where
  "parse_u16 b =
     (case parse_magnitude (strip_plus b) of
        Some n \<Rightarrow> if n < 2 ^ 16 then Some (of_nat n) else None
      | None \<Rightarrow> None)"

section \<open>The transport's parser\<close>

datatype ParsedEndpoint =
    Http (ep_host: rust_string) (ep_port: u16) (ep_path: rust_string)
  | Https (ep_host: rust_string) (ep_port: u16) (ep_path: rust_string)
  | Unix (ep_socket_path: rust_string) (ep_http_path: rust_string)

text \<open>The part of the authority in which the port separator is looked for starts behind the bracket.\<close>

definition search_start :: "bytes \<Rightarrow> nat" where
  "search_start authority =
     (if starts_with [LBRACKET] authority
      then (case split_first RBRACKET authority of Some (a, _) \<Rightarrow> length a + 1 | None \<Rightarrow> 0)
      else 0)"

definition split_port :: "bytes \<Rightarrow> bytes \<times> bytes option" where
  "split_port authority =
     (case split_last COLON (drop (search_start authority) authority) of
        Some (h, p) \<Rightarrow> (take (search_start authority) authority @ h, Some p)
      | None \<Rightarrow> (authority, None))"

definition parse_authority :: "bytes \<Rightarrow> u16 \<Rightarrow> bytes \<times> u16" where
  "parse_authority authority default_port =
     (case split_port authority of
        (h, Some p) \<Rightarrow> (h, case parse_u16 p of Some port \<Rightarrow> port | None \<Rightarrow> default_port)
      | (h, None) \<Rightarrow> (h, default_port))"

definition split_path :: "bytes \<Rightarrow> bytes \<times> rust_string" where
  "split_path rest = (case split_first SLASH rest of Some (a, p) \<Rightarrow> (a, p) | None \<Rightarrow> (rest, [SLASH]))"

definition parse_endpoint :: "rust_string \<Rightarrow> TransportError + ParsedEndpoint" where
  "parse_endpoint input =
     (case strip_prefix (lit ''http://'') input of
        Some rest \<Rightarrow>
          (let (authority, path) = split_path rest; (h, port) = parse_authority authority 80 in Inr (Http h port path))
      | None \<Rightarrow>
     (case strip_prefix (lit ''https://'') input of
        Some rest \<Rightarrow>
          (let (authority, path) = split_path rest; (h, port) = parse_authority authority 443 in Inr (Https h port path))
      | None \<Rightarrow>
     (case strip_prefix (lit ''unix:///'') input of
        Some rest \<Rightarrow> Inr (Unix (SLASH # rest) [SLASH])
      | None \<Rightarrow>
     (case strip_prefix (lit ''unix://'') input of
        Some rest \<Rightarrow> Inr (Unix rest [SLASH])
      | None \<Rightarrow>
     (case strip_prefix (lit ''unix:'') input of
        Some rest \<Rightarrow> Inr (Unix rest [SLASH])
      | None \<Rightarrow> Inl (InvalidEndpoint input (lit ''endpoint must start with http://, https://, or unix:'')))))))"

primrec authority :: "ParsedEndpoint \<Rightarrow> rust_string" where
  "authority (Http h port path) = (if port = 80 then h else h @ COLON # dec_digits (unat port))"
| "authority (Https h port path) = (if port = 443 then h else h @ COLON # dec_digits (unat port))"
| "authority (Unix s p) = lit ''localhost''"

primrec base_path :: "ParsedEndpoint \<Rightarrow> rust_string" where
  "base_path (Http h port path) = path"
| "base_path (Https h port path) = path"
| "base_path (Unix s p) = p"

primrec is_tls :: "ParsedEndpoint \<Rightarrow> bool" where
  "is_tls (Http h port path) = False" | "is_tls (Https h port path) = True" | "is_tls (Unix s p) = False"

primrec host_str :: "ParsedEndpoint \<Rightarrow> rust_string" where
  "host_str (Http h port path) = h" | "host_str (Https h port path) = h" | "host_str (Unix s p) = lit ''localhost''"

primrec endpoint_port :: "ParsedEndpoint \<Rightarrow> u16 option" where
  "endpoint_port (Http h port path) = Some port" | "endpoint_port (Https h port path) = Some port"
| "endpoint_port (Unix s p) = None"

definition strip_v6_brackets :: "rust_string \<Rightarrow> rust_string" where
  "strip_v6_brackets h =
     (if starts_with [LBRACKET] h \<and> ends_with_byte RBRACKET h then take (length h - 2) (drop 1 h) else h)"

section \<open>Request paths\<close>

definition derive_signal_paths :: "rust_string \<Rightarrow> rust_string \<times> rust_string \<times> rust_string" where
  "derive_signal_paths base =
     (let b = (if ends_with_byte SLASH base then base else base @ [SLASH])
      in (b @ lit ''v1/metrics'', b @ lit ''v1/logs'', b @ lit ''v1/traces''))"

definition extract_http_path :: "rust_string \<Rightarrow> rust_string" where
  "extract_http_path s =
     (case strip_prefix (lit ''http://'') s of
        Some rest \<Rightarrow> snd (split_path rest)
      | None \<Rightarrow> (case strip_prefix (lit ''https://'') s of Some rest \<Rightarrow> snd (split_path rest) | None \<Rightarrow> s))"

text \<open>The paths of the three signals with the per-signal overrides the export loop applies.\<close>

definition override_path :: "bytes \<Rightarrow> rust_string \<Rightarrow> rust_string" where
  "override_path ov path = (if ov \<noteq> [] \<and> utf8_valid ov then extract_http_path ov else path)"

definition signal_paths :: "ParsedEndpoint \<Rightarrow> bytes \<Rightarrow> bytes \<Rightarrow> bytes \<Rightarrow> rust_string \<times> rust_string \<times> rust_string" where
  "signal_paths ep metrics_endpoint logs_endpoint traces_endpoint =
     (let (m, l, t) = derive_signal_paths (base_path ep)
      in (override_path metrics_endpoint m, override_path logs_endpoint l, override_path traces_endpoint t))"

section \<open>Validation\<close>

datatype endpoint_error =
  BadScheme | BadHost | BadPort | CertWithoutKey | KeyWithoutCert | FileMissing string

record TlsValidationInput =
  tv_endpoint :: rust_string
  tv_trusted_cert :: rust_string
  tv_ssl_cert :: rust_string
  tv_ssl_cert_key :: rust_string
  tv_ssl_verify_off :: bool

definition check_authority :: "rust_string \<Rightarrow> endpoint_error option" where
  "check_authority auth =
     (let (host_raw, port_str) = split_port auth
      in if strip_v6_brackets host_raw = [] then Some BadHost
         else case port_str of
                None \<Rightarrow> None
              | Some p \<Rightarrow> (case parse_u16 p of Some n \<Rightarrow> if n > 0 then None else Some BadPort | None \<Rightarrow> Some BadPort))"

definition missing_file :: "(rust_string \<Rightarrow> bool) \<Rightarrow> TlsValidationInput \<Rightarrow> endpoint_error option" where
  "missing_file file_exists inp =
     (case List.find (\<lambda>(lbl, path). path \<noteq> [] \<and> \<not> file_exists path)
        [(''trusted_certificate'', tv_trusted_cert inp), (''ssl_certificate'', tv_ssl_cert inp),
         (''ssl_certificate_key'', tv_ssl_cert_key inp)] of
        Some (lbl, _) \<Rightarrow> Some (FileMissing lbl)
      | None \<Rightarrow> None)"

text \<open>\<open>Inr\<close> tells whether to warn about \<open>ssl_verify off\<close>.\<close>

definition validate_endpoint_tls :: "TlsValidationInput \<Rightarrow> (rust_string \<Rightarrow> bool) \<Rightarrow> endpoint_error + bool" where
  "validate_endpoint_tls inp file_exists =
     (let is_https = starts_with (lit ''https://'') (tv_endpoint inp);
          is_http = starts_with (lit ''http://'') (tv_endpoint inp);
          valid_scheme = (starts_with (lit ''unix:'') (tv_endpoint inp) \<or> is_http \<or> is_https)
      in if \<not> valid_scheme then Inl BadScheme
         else
           case (if is_http \<or> is_https
                 then check_authority (fst (split_path (drop (if is_https then 8 else 7) (tv_endpoint inp))))
                 else None) of
             Some e \<Rightarrow> Inl e
           | None \<Rightarrow>
               if tv_ssl_cert inp \<noteq> [] \<and> tv_ssl_cert_key inp = [] then Inl CertWithoutKey
               else if tv_ssl_cert inp = [] \<and> tv_ssl_cert_key inp \<noteq> [] then Inl KeyWithoutCert
               else case (if is_https then missing_file file_exists inp else None) of
                      Some e \<Rightarrow> Inl e
                    | None \<Rightarrow> Inr (tv_ssl_verify_off inp))"

text \<open>\<open>endpoint_needs_resolver\<close>; \<open>is_ip\<close> is the standard library's \<open>IpAddr\<close> parser.\<close>

definition endpoint_needs_resolver :: "(rust_string \<Rightarrow> bool) \<Rightarrow> rust_string \<Rightarrow> bool" where
  "endpoint_needs_resolver is_ip endpoint =
     (if starts_with (lit ''unix:'') endpoint then False
      else
        case (case strip_prefix (lit ''http://'') endpoint of
                Some r \<Rightarrow> Some r | None \<Rightarrow> strip_prefix (lit ''https://'') endpoint) of
          None \<Rightarrow> False
        | Some rest \<Rightarrow>
            (let auth = fst (split_path rest);
                 h = (if starts_with [LBRACKET] auth
                      then takeWhile (\<lambda>b. b \<noteq> RBRACKET) (drop 1 auth)
                      else case split_last COLON auth of
                             Some (a, p) \<Rightarrow> if list_all (\<lambda>c. 0x30 \<le> c \<and> c \<le> 0x39) p then a else auth
                           | None \<Rightarrow> auth)
             in \<not> is_ip h))"

section \<open>Lemmas\<close>

lemma strip_prefix_starts: "strip_prefix p s = (if starts_with p s then Some (drop (length p) s) else None)"
  by (simp add: strip_prefix_def starts_with_def)

lemma starts_with_append [simp]: "starts_with p (p @ s)"
  by (simp add: starts_with_def)

lemma strip_prefix_append [simp]: "strip_prefix p (p @ s) = Some s"
  by (simp add: strip_prefix_def)

lemma schemes_exclusive:
  "starts_with (lit ''https://'') s \<Longrightarrow> \<not> starts_with (lit ''http://'') s"
  "starts_with (lit ''unix:'') s \<Longrightarrow> \<not> starts_with (lit ''http://'') s \<and> \<not> starts_with (lit ''https://'') s"
proof -
  have cut: "starts_with p s \<Longrightarrow> n \<le> length p \<Longrightarrow> take n s = take n p" for p n
    by (metis min.absorb1 starts_with_def take_take)
  show "starts_with (lit ''https://'') s \<Longrightarrow> \<not> starts_with (lit ''http://'') s"
    using cut [of "lit ''https://''" 5] cut [of "lit ''http://''" 5] by (auto simp: lit_def)
  show "starts_with (lit ''unix:'') s \<Longrightarrow> \<not> starts_with (lit ''http://'') s \<and> \<not> starts_with (lit ''https://'') s"
    using cut [of "lit ''unix:''" 1] cut [of "lit ''http://''" 1] cut [of "lit ''https://''" 1] by (auto simp: lit_def)
qed

lemma lit_lengths: "length (lit ''http://'') = 7" "length (lit ''https://'') = 8"
  by (simp_all add: lit_def)

lemma split_path_slash: "snd (split_path rest) \<noteq> [] \<and> hd (snd (split_path rest)) = SLASH"
  using hd_dropWhile [of "\<lambda>b. b \<noteq> SLASH" rest]
  by (auto simp: split_path_def split_first_def dropWhile_eq_Nil_conv split: option.splits if_splits)

lemma split_first_append: "c \<notin> set a \<Longrightarrow> split_first c (a @ c # b) = Some (a, c # b)"
  by (induction a) (auto simp: split_first_def)

lemma split_last_append: "c \<notin> set b \<Longrightarrow> split_last c (a @ c # b) = Some (a, b)"
  using split_first_append [of c "rev b" "rev a"] by (simp add: split_last_def)

lemma split_last_none: "c \<notin> set s \<Longrightarrow> split_last c s = None"
  by (simp add: split_last_def split_first_def)

lemma split_path_append: "SLASH \<notin> set a \<Longrightarrow> split_path (a @ SLASH # p) = (a, SLASH # p)"
  by (simp add: split_path_def split_first_append)

lemma check_authority_ok:
  assumes "check_authority auth = None" "parse_authority auth dflt = (h, port)" "dflt \<noteq> 0"
  shows "strip_v6_brackets h \<noteq> []" "port \<noteq> 0"
  using assms by (auto simp: check_authority_def parse_authority_def word_gt_0 split: prod.splits option.splits if_splits)

text \<open>A host as it is written in a URL: a name or IPv4 address, or an IPv6 address in brackets.\<close>

definition url_host :: "rust_string \<Rightarrow> bool" where
  "url_host h \<longleftrightarrow> SLASH \<notin> set h \<and>
     (h \<noteq> [] \<and> COLON \<notin> set h \<and> hd h \<noteq> LBRACKET \<or>
      (\<exists>inner. h = LBRACKET # inner @ [RBRACKET] \<and> RBRACKET \<notin> set inner))"

lemma split_port_host:
  assumes "url_host h"
  shows "split_port h = (h, None)" "COLON \<notin> set ds \<Longrightarrow> split_port (h @ COLON # ds) = (h, Some ds)"
proof -
  have codes: "COLON \<noteq> LBRACKET" "COLON \<noteq> RBRACKET" "LBRACKET \<noteq> RBRACKET"
    by (simp_all add: COLON_def LBRACKET_def RBRACKET_def)
  have "search_start h = length h \<and> search_start (h @ COLON # ds) = length h
      \<or> search_start h = 0 \<and> search_start (h @ COLON # ds) = 0 \<and> COLON \<notin> set h" for ds
  proof (cases "\<exists>inner. h = LBRACKET # inner @ [RBRACKET] \<and> RBRACKET \<notin> set inner")
    case True
    then obtain inner where h: "h = LBRACKET # inner @ [RBRACKET]" "RBRACKET \<notin> set inner" by blast
    have "split_first RBRACKET ((LBRACKET # inner) @ RBRACKET # xs) = Some (LBRACKET # inner, RBRACKET # xs)" for xs
      by (rule split_first_append) (use h(2) codes in auto)
    from this [of "[]"] this [of "COLON # ds"] show ?thesis
      by (simp add: search_start_def starts_with_def h(1))
  next
    case False
    with assms have "h \<noteq> []" "COLON \<notin> set h" "hd h \<noteq> LBRACKET" by (auto simp: url_host_def)
    then show ?thesis
      by (cases h) (auto simp: search_start_def starts_with_def)
  qed
  note start = this
  show "split_port h = (h, None)"
    using start [of "[]"] by (auto simp: split_port_def split_last_none)
  show "split_port (h @ COLON # ds) = (h, Some ds)" if "COLON \<notin> set ds"
    using start [of ds] split_last_append [OF that, of "[]"] split_last_append [OF that, of h]
    by (auto simp: split_port_def)
qed

lemma dec_digits_not: "SLASH \<notin> set (dec_digits n)" "COLON \<notin> set (dec_digits n)"
  using dec_digits_digit [of SLASH n] dec_digits_digit [of COLON n] by (auto simp: SLASH_def COLON_def)

lemma parse_u16_dec: "parse_u16 (dec_digits (unat (port :: u16))) = Some port"
proof -
  have "hd (dec_digits (unat port)) \<noteq> 0x2B"
    using dec_digits_digit [of "hd (dec_digits (unat port))" "unat port"] dec_digits_ne [of "unat port"] by auto
  moreover have "unat port < 2 ^ 16"
    using unsigned_less [of port] by simp
  ultimately show ?thesis
    by (simp add: parse_u16_def strip_plus_def parse_magnitude_def dec_digits_ne digits_value_dec)
qed

lemma parse_authority_printed:
  assumes "url_host h"
  shows "parse_authority (if port = dflt then h else h @ COLON # dec_digits (unat port)) dflt = (h, port)"
  using split_port_host [OF assms] dec_digits_not(2) parse_u16_dec by (simp add: parse_authority_def)

lemma authority_no_slash:
  "url_host h \<Longrightarrow> SLASH \<notin> set (if port = dflt then h else h @ COLON # dec_digits (unat port))"
  using dec_digits_not(1) by (auto simp: url_host_def SLASH_def COLON_def)

lemma validated_parses:
  assumes "validate_endpoint_tls inp file_exists = Inr warn"
  shows "\<exists>ep. parse_endpoint (tv_endpoint inp) = Inr ep \<and> (is_tls ep \<longleftrightarrow> starts_with (lit ''https://'') (tv_endpoint inp)) \<and>
     (\<forall>port. endpoint_port ep = Some port \<longrightarrow>
        port \<noteq> 0 \<and> strip_v6_brackets (host_str ep) \<noteq> [] \<and> base_path ep \<noteq> [] \<and> hd (base_path ep) = SLASH)"
proof -
  let ?s = "tv_endpoint inp"
  have scheme: "starts_with (lit ''unix:'') ?s \<or> starts_with (lit ''http://'') ?s \<or> starts_with (lit ''https://'') ?s"
    using assms by (auto simp: validate_endpoint_tls_def Let_def split: if_splits)
  have auth: "check_authority (fst (split_path (drop (if starts_with (lit ''https://'') ?s then 8 else 7) ?s))) = None"
    if "starts_with (lit ''http://'') ?s \<or> starts_with (lit ''https://'') ?s"
    using assms that by (auto simp: validate_endpoint_tls_def Let_def split: if_splits option.splits)
  consider (http) "starts_with (lit ''http://'') ?s" "\<not> starts_with (lit ''https://'') ?s"
    | (https) "starts_with (lit ''https://'') ?s" "\<not> starts_with (lit ''http://'') ?s"
    | (unix) "starts_with (lit ''unix:'') ?s" "\<not> starts_with (lit ''http://'') ?s" "\<not> starts_with (lit ''https://'') ?s"
    using scheme schemes_exclusive [of ?s] by blast
  then show ?thesis
  proof cases
    case http
    obtain h port where p: "parse_authority (fst (split_path (drop 7 ?s))) 80 = (h, port)" by fastforce
    have "parse_endpoint ?s = Inr (Http h port (snd (split_path (drop 7 ?s))))"
      using http p by (simp add: parse_endpoint_def strip_prefix_starts lit_lengths case_prod_beta)
    with check_authority_ok [OF _ p] auth http split_path_slash [of "drop 7 ?s"] show ?thesis
      by simp
  next
    case https
    obtain h port where p: "parse_authority (fst (split_path (drop 8 ?s))) 443 = (h, port)" by fastforce
    have "parse_endpoint ?s = Inr (Https h port (snd (split_path (drop 8 ?s))))"
      using https p by (simp add: parse_endpoint_def strip_prefix_starts lit_lengths case_prod_beta)
    with check_authority_ok [OF _ p] auth https split_path_slash [of "drop 8 ?s"] show ?thesis
      by simp
  next
    case unix
    then show ?thesis
      by (auto simp: parse_endpoint_def strip_prefix_starts)
  qed
qed

text \<open>
  Parsing an endpoint that was printed from its scheme, \<open>authority\<close> and path gives the endpoint back,
  for every port, with the default port left out, and for names, IPv4 addresses and bracketed IPv6
  addresses as hosts.
\<close>

lemma endpoint_roundtrip:
  assumes "endpoint_port ep = Some port" "url_host (host_str ep)" "base_path ep = SLASH # p"
  shows "parse_endpoint ((if is_tls ep then lit ''https://'' else lit ''http://'') @ authority ep @ base_path ep) = Inr ep"
proof (cases ep)
  case (Http h pt path)
  with assms split_path_append [OF authority_no_slash [of h pt 80], of p] parse_authority_printed [of h pt 80] show ?thesis
    by (cases "pt = 80") (simp_all add: parse_endpoint_def)
next
  case (Https h pt path)
  have "strip_prefix (lit ''http://'') (lit ''https://'' @ s) = None" for s
    using schemes_exclusive(1) [of "lit ''https://'' @ s"] by (simp add: strip_prefix_starts)
  with Https assms split_path_append [OF authority_no_slash [of h pt 443], of p] parse_authority_printed [of h pt 443] show ?thesis
    by (cases "pt = 443") (simp_all add: parse_endpoint_def)
qed (use assms in simp)

end
