(* ===== verification/Metric_Sources.thy ===== *)
theory Metric_Sources
  imports Log_Collect Worker_Slots
begin

text \<open>
  The scalar metrics of a batch: the exporter's own counters (\<^verbatim>\<open>src/src/drain/self_metrics.rs\<close>), nginx's
  connection counters (\<^verbatim>\<open>src/src/metric_source/stub_status.rs\<close>), the gauges of serving certificates
  (\<^verbatim>\<open>src/src/metric_source/tls_cert.rs\<close>) and, from \<^verbatim>\<open>src/src/drain/mod.rs\<close>, the collector's certificate and
  the error-log event counts. The atomics are read once each; \<open>now\<close> is the wall clock of a source.
\<close>

section \<open>Scalar points\<close>

definition I64_MAX :: i64 where "I64_MAX = 0x7FFFFFFFFFFFFFFF"

definition counter_to_i64 :: "u64 \<Rightarrow> i64" where
  "counter_to_i64 v = (if v \<le> I64_MAX then v else I64_MAX)"

text \<open>\<open>i64::saturating_add\<close>.\<close>

definition i64_saturating_add :: "i64 \<Rightarrow> i64 \<Rightarrow> i64" where
  "i64_saturating_add a b =
     (let s = sint a + sint b
      in if s > sint I64_MAX then I64_MAX else if s < - sint I64_MAX - 1 then - I64_MAX - 1 else a + b)"

definition number_point :: "KeyValue list \<Rightarrow> u64 \<Rightarrow> u64 \<Rightarrow> i64 \<Rightarrow> NumberDataPoint" where
  "number_point attrs start now v =
     \<lparr>ndp_attributes = attrs, ndp_start_time_unix_nano = start, ndp_time_unix_nano = now, ndp_value = AsInt v\<rparr>"

definition monotonic_sum_metric ::
  "rust_string \<Rightarrow> rust_string \<Rightarrow> rust_string \<Rightarrow> i64 \<Rightarrow> u64 \<Rightarrow> u64 \<Rightarrow> Metric" where
  "monotonic_sum_metric name desc unit v start now =
     \<lparr>metric_name = name, metric_description = desc, metric_unit = unit,
      metric_data = SumD Cumulative True [number_point [] start now v]\<rparr>"

definition gauge_metric :: "rust_string \<Rightarrow> rust_string \<Rightarrow> rust_string \<Rightarrow> i64 \<Rightarrow> u64 \<Rightarrow> Metric" where
  "gauge_metric name desc unit v now =
     \<lparr>metric_name = name, metric_description = desc, metric_unit = unit,
      metric_data = GaugeD [number_point [] 0 now v]\<rparr>"

section \<open>The exporter's own counters\<close>

record self_counters =
  DROPPED_RECORDS :: u64
  SEND_FAILURES :: u64
  BIDI_BACKPRESSURE_DROPS :: u64
  ACCESS_LOGS_DROPPED :: u64
  ERROR_LOGS_DROPPED :: u64
  ERROR_LOGS_COALESCED_ORPHANED :: u64
  LOGS_SEND_FAILURES :: u64
  TRACES_DROPPED_RECORDS :: u64
  TRACES_SEND_FAILURES :: u64
  PERMANENT_REJECTED :: u64
  PARTIAL_REJECTED :: u64
  UNAUTHORIZED_REJECTED :: u64
  EXPORTER_RESTARTS :: u64

definition self_metrics_collect :: "u64 \<Rightarrow> u64 \<Rightarrow> u64 \<Rightarrow> self_counters \<Rightarrow> Metric list" where
  "self_metrics_collect interval_ms start now c =
     [monotonic_sum_metric (lit ''ngx_otel.dropped_records'')
        (lit ''Records from any signal (metrics, logs, spans) dropped because the per-signal retry buffer was full or a drain-abort discarded queued batches'')
        (lit ''{record}'') (counter_to_i64 (DROPPED_RECORDS c)) start now,
      monotonic_sum_metric (lit ''ngx_otel.send_failures'')
        (lit ''Cumulative export send failures since worker startup'')
        (lit ''{failure}'') (counter_to_i64 (SEND_FAILURES c)) start now,
      monotonic_sum_metric (lit ''ngx_otel.bidi_backpressure_drops'')
        (lit ''Bidi outbound messages dropped due to channel backpressure'')
        (lit ''{message}'') (counter_to_i64 (BIDI_BACKPRESSURE_DROPS c)) start now,
      monotonic_sum_metric (lit ''ngx_otel.logs.access.dropped_records'')
        (lit ''Access log records dropped because the per-worker ring was full'')
        (lit ''{record}'') (counter_to_i64 (ACCESS_LOGS_DROPPED c)) start now,
      monotonic_sum_metric (lit ''ngx_otel.logs.error.dropped_records'')
        (lit ''Error log records dropped because the per-worker ring was full'')
        (lit ''{record}'') (counter_to_i64 (ERROR_LOGS_DROPPED c)) start now,
      monotonic_sum_metric (lit ''ngx_otel.logs.error.coalesced_orphaned_records'')
        (lit ''Error log coalesced-count occurrences orphaned because the verbatim ring sample was dropped (ring full); a synthetic record is emitted per orphaned slot so backends still receive the occurrence count'')
        (lit ''{record}'') (counter_to_i64 (ERROR_LOGS_COALESCED_ORPHANED c)) start now,
      monotonic_sum_metric (lit ''ngx_otel.logs.send_failures'')
        (lit ''Cumulative logs transport send failures since exporter startup'')
        (lit ''{failure}'') (counter_to_i64 (LOGS_SEND_FAILURES c)) start now,
      monotonic_sum_metric (lit ''ngx_otel.traces.dropped_records'')
        (lit ''Span records dropped because the per-worker spans ring was full'')
        (lit ''{record}'') (counter_to_i64 (TRACES_DROPPED_RECORDS c)) start now,
      gauge_metric (lit ''ngx_otel.export_interval'') (lit ''Configured metric export interval'')
        (lit ''s'') (counter_to_i64 (interval_ms div 1000)) now,
      gauge_metric (lit ''ngx_otel.exporter.restarts'')
        (lit ''Prior exporter crashes in the current crash-loop window at this process start (0 = clean start; nginx request handling is never affected by the exporter crash-loop state)'')
        (lit ''{crash}'') (counter_to_i64 (EXPORTER_RESTARTS c)) now,
      monotonic_sum_metric (lit ''ngx_otel.delivery.permanent_rejected'')
        (lit ''Batches the peer rejected as permanently unacceptable (e.g. HTTP 400/413, gRPC INVALID_ARGUMENT/INTERNAL/UNIMPLEMENTED); dropped and never retried'')
        (lit ''{batch}'') (counter_to_i64 (PERMANENT_REJECTED c)) start now,
      monotonic_sum_metric (lit ''ngx_otel.delivery.partial_rejected'')
        (lit ''Individual records the peer reported it dropped on an otherwise-accepted batch (OTLP partial_success / gRPC partial-success body); the batch is released, only the reported rejected count is accumulated here'')
        (lit ''{record}'') (counter_to_i64 (PARTIAL_REJECTED c)) start now,
      monotonic_sum_metric (lit ''ngx_otel.delivery.unauthorized'')
        (lit ''Batches dropped because the peer reported an authentication or authorization failure (HTTP 401/403, gRPC UNAUTHENTICATED/PERMISSION_DENIED); same drop policy as permanent_rejected (no retry, no backoff, no auto-pause) but kept in a distinct counter for observability '' @
         [0xE2, 0x80, 0x94] @
         lit '' a non-zero value indicates a credential or permission problem on the exporter endpoint'')
        (lit ''{batch}'') (counter_to_i64 (UNAUTHORIZED_REJECTED c)) start now]"

section \<open>nginx's connection counters\<close>

text \<open>The seven \<open>ngx_stat_*\<close> counters; the build flag \<open>stat_stub\<close> tells whether they exist.\<close>

record ngx_stats =
  stat_accepted :: u64
  stat_handled :: u64
  stat_requests :: u64
  stat_active :: u64
  stat_reading :: u64
  stat_writing :: u64
  stat_waiting :: u64

definition stub_status_collect :: "u64 \<Rightarrow> u64 \<Rightarrow> ngx_stats \<Rightarrow> Metric list" where
  "stub_status_collect start now st =
     [monotonic_sum_metric (lit ''nginx.connections.accepted'') (lit ''Total accepted connections'')
        (lit ''{connection}'') (stat_accepted st) start now,
      monotonic_sum_metric (lit ''nginx.connections.handled'') (lit ''Total handled connections'')
        (lit ''{connection}'') (stat_handled st) start now,
      monotonic_sum_metric (lit ''nginx.requests.total'') (lit ''Total HTTP requests processed'')
        (lit ''{request}'') (stat_requests st) start now,
      gauge_metric (lit ''nginx.connections.active'') (lit ''Active connections (reading + writing + waiting)'')
        (lit ''{connection}'') (stat_active st) now,
      gauge_metric (lit ''nginx.connections.reading'') (lit ''Connections reading request headers'')
        (lit ''{connection}'') (stat_reading st) now,
      gauge_metric (lit ''nginx.connections.writing'') (lit ''Connections writing responses'')
        (lit ''{connection}'') (stat_writing st) now,
      gauge_metric (lit ''nginx.connections.waiting'') (lit ''Idle keep-alive connections'')
        (lit ''{connection}'') (stat_waiting st) now]"

section \<open>Certificates\<close>

record CertInfo =
  ci_file_path :: rust_string
  ci_server_name :: rust_string
  ci_not_before_unix :: i64
  ci_not_after_unix :: i64
  ci_subject_cn :: rust_string
  ci_issuer_cn :: rust_string
  ci_serial :: rust_string
  ci_pubkey_alg :: rust_string
  ci_sig_alg :: rust_string

definition cert_attrs :: "CertInfo \<Rightarrow> KeyValue list" where
  "cert_attrs c =
     [KV ''tls.server.certificate.file_path'' (StringV (ci_file_path c)),
      KV ''tls.server.subject'' (StringV (ci_subject_cn c)),
      KV ''tls.server.issuer'' (StringV (ci_issuer_cn c)),
      KV ''tls.server.certificate.serial_number'' (StringV (ci_serial c)),
      KV ''tls.server.certificate.public_key_algorithm'' (StringV (ci_pubkey_alg c)),
      KV ''tls.server.certificate.signature_algorithm'' (StringV (ci_sig_alg c)),
      KV ''server.address'' (StringV (ci_server_name c))]"

definition cert_gauge :: "rust_string \<Rightarrow> rust_string \<Rightarrow> NumberDataPoint list \<Rightarrow> Metric" where
  "cert_gauge name desc points =
     \<lparr>metric_name = name, metric_description = desc, metric_unit = lit ''s'', metric_data = GaugeD points\<rparr>"

definition serving_cert_collect_at :: "CertInfo list \<Rightarrow> i64 \<Rightarrow> u64 \<Rightarrow> Metric list" where
  "serving_cert_collect_at certs now_wall_secs now =
     (if certs = [] then []
      else
        let points = (\<lambda>value_of. map (\<lambda>c. number_point (cert_attrs c) 0 now (value_of c)) certs)
        in [cert_gauge (lit ''ngx_otel.tls.certificate.not_after'')
              (lit ''Serving certificate notAfter (Unix epoch seconds); collected at startup/reload from the live SSL_CTX'')
              (points ci_not_after_unix),
            cert_gauge (lit ''ngx_otel.tls.certificate.not_before'')
              (lit ''Serving certificate notBefore (Unix epoch seconds); collected at startup/reload from the live SSL_CTX'')
              (points ci_not_before_unix),
            cert_gauge (lit ''ngx_otel.tls.certificate.time_to_expiration'')
              (lit ''Seconds until the serving certificate expires (negative after expiry); recomputed against the wall clock each export interval'')
              (points (\<lambda>c. ci_not_after_unix c - now_wall_secs))])"

definition collector_cert_gauge :: "i64 \<Rightarrow> u64 \<Rightarrow> rust_string \<Rightarrow> Metric" where
  "collector_cert_gauge not_after now server_address =
     \<lparr>metric_name = lit ''ngx_otel.tls.collector_cert.not_after'',
      metric_description = lit ''Collector TLS certificate notAfter (Unix epoch seconds), captured post-handshake; absent before the first TLS handshake and on plaintext (http://) endpoints'',
      metric_unit = lit ''s'',
      metric_data = GaugeD [number_point [KV ''server.address'' (StringV server_address)] 0 now not_after]\<rparr>"

section \<open>Error-log events\<close>

definition add_error_counters :: "WorkerSlots \<Rightarrow> i64 list \<Rightarrow> i64 list" where
  "add_error_counters ws totals =
     map2 (\<lambda>t cnt. i64_saturating_add t (counter_to_i64 cnt)) totals (ws_error_rate_counters ws)"

definition collect_error_rate_metric :: "WorkerSlots list \<Rightarrow> u64 \<Rightarrow> u64 \<Rightarrow> Metric" where
  "collect_error_rate_metric slots start now =
     (let totals = fold add_error_counters slots (replicate N_SEVERITY_CLASSES 0)
      in \<lparr>metric_name = lit ''ngx_otel.error_log.events'',
          metric_description = lit ''Error log events counted by severity class'',
          metric_unit = lit ''{error}'',
          metric_data = SumD Cumulative True
            (map (\<lambda>i. number_point [KV ''severity_class'' (StringV (SEVERITY_CLASS_NAMES ! i))] start now (totals ! i))
              [0..<N_SEVERITY_CLASSES])\<rparr>)"

section \<open>Values\<close>

lemma sint_I64_MAX: "sint I64_MAX = 2 ^ 63 - 1"
  by (simp add: I64_MAX_def)

lemma sint_small: "v \<le> I64_MAX \<Longrightarrow> sint v = uint v"
proof -
  assume "v \<le> I64_MAX"
  then have "uint v < 2 ^ 63"
    by (simp add: word_le_def I64_MAX_def)
  moreover have "0 \<le> uint v"
    by simp
  ultimately have "signed_take_bit 63 (uint v) = uint v"
    by (intro signed_take_bit_int_eq_self) linarith+
  then show ?thesis
    by (simp add: sint_uint)
qed

lemma sint_counter: "sint (counter_to_i64 v) = min (uint v) (2 ^ 63 - 1)"
proof (cases "v \<le> I64_MAX")
  case True
  then show ?thesis
    using sint_small [OF True] by (simp add: counter_to_i64_def word_le_def I64_MAX_def)
next
  case False
  then have "2 ^ 63 - 1 \<le> uint v"
    by (simp add: word_le_def I64_MAX_def)
  with False show ?thesis
    using sint_I64_MAX by (simp add: counter_to_i64_def)
qed

lemma sint_saturating_add:
  assumes "0 \<le> sint a" "0 \<le> sint b"
  shows "sint (i64_saturating_add a b) = min (sint a + sint b) (2 ^ 63 - 1)"
proof (cases "sint a + sint b > 2 ^ 63 - 1")
  case True
  then show ?thesis
    using sint_I64_MAX by (simp add: i64_saturating_add_def Let_def)
next
  case False
  have "a + b = word_of_int (sint a + sint b)"
    by simp
  then have "sint (a + b) = signed_take_bit 63 (sint a + sint b)"
    by (simp only: sint_sbintrunc') simp
  moreover have "signed_take_bit 63 (sint a + sint b) = sint a + sint b"
    using False assms by (intro signed_take_bit_int_eq_self) linarith+
  ultimately have "sint (a + b) = sint a + sint b"
    by simp
  with False assms show ?thesis
    using sint_I64_MAX by (simp add: i64_saturating_add_def Let_def)
qed

text \<open>The error counts of a severity class over all workers, saturated at the largest \<open>i64\<close>.\<close>

lemma error_totals:
  assumes "\<forall>ws\<in>set slots. length (ws_error_rate_counters ws) = N_SEVERITY_CLASSES"
    and "length ts = N_SEVERITY_CLASSES" "i < N_SEVERITY_CLASSES" "\<forall>t\<in>set ts. 0 \<le> sint t"
  shows "length (fold add_error_counters slots ts) = N_SEVERITY_CLASSES \<and>
    sint (fold add_error_counters slots ts ! i) =
      min (sint (ts ! i) + (\<Sum>ws\<leftarrow>slots. uint (ws_error_rate_counters ws ! i))) (2 ^ 63 - 1)"
  using assms
proof (induction slots arbitrary: ts)
  case Nil
  have "sint (ts ! i) < 2 ^ 63"
    using sint_lt [of "ts ! i"] by simp
  with Nil show ?case
    by simp
next
  case (Cons ws slots)
  let ?ts = "add_error_counters ws ts"
  have len: "length ?ts = N_SEVERITY_CLASSES"
    using Cons.prems by (simp add: add_error_counters_def)
  have step: "sint (?ts ! j) = min (sint (ts ! j) + min (uint (ws_error_rate_counters ws ! j)) (2 ^ 63 - 1)) (2 ^ 63 - 1)"
    if "j < N_SEVERITY_CLASSES" for j
    using that Cons.prems sint_saturating_add [of "ts ! j" "counter_to_i64 (ws_error_rate_counters ws ! j)"]
    by (simp add: add_error_counters_def sint_counter)
  have "0 \<le> sint (?ts ! j)" if "j < N_SEVERITY_CLASSES" for j
  proof -
    have "0 \<le> sint (ts ! j)" "0 \<le> min (uint (ws_error_rate_counters ws ! j)) (2 ^ 63 - 1)"
      using that Cons.prems(2,4) by simp_all
    then show ?thesis
      unfolding step [OF that] by linarith
  qed
  then have nonneg: "\<forall>t\<in>set ?ts. 0 \<le> sint t"
    using len by (metis in_set_conv_nth)
  have "0 \<le> (\<Sum>ws\<leftarrow>slots. uint (ws_error_rate_counters ws ! i))" "0 \<le> sint (ts ! i)"
    using Cons.prems(2-4) by (auto intro: sum_list_nonneg)
  then show ?case
    using Cons.IH [OF _ len Cons.prems(3) nonneg] Cons.prems(1) step [OF Cons.prems(3)] by simp
qed

end
