(* ===== verification/Post_Config.thy ===== *)
theory Post_Config
  imports Config_Directives Zone_Layout Route_Tables Endpoint Metric_Sources
begin

text \<open>
  \<open>MainConfig::postconfiguration\<close> of \<^verbatim>\<open>src/src/config/mod.rs\<close>: validation of the finished configuration, the
  resolver, the registration of the shared zones and the dimension tables. What nginx and the system answer is
  a record of parameters; the certificate table, read through OpenSSL, is one of them.
\<close>

section \<open>Model\<close>

text \<open>
  The core location configuration: the resolver with its number of connections, and the timeout, -1 when unset.
\<close>

record core_loc_conf =
  cl_resolver :: "(nat \<times> nat) option"
  cl_resolver_timeout :: u64

record post_env =
  pv_file_exists :: "rust_string \<Rightarrow> bool"
  pv_is_ip :: "rust_string \<Rightarrow> bool"
  pv_clcf :: "core_loc_conf option"
  pv_zone_added :: "rust_string \<Rightarrow> bool"
  pv_slab :: nat
  pv_log_ring_cap :: nat
  pv_worker_processes :: "int option"
  pv_ncpu :: int
  pv_servers :: "location_node list"
  pv_upstreams :: "named_ptr option list"
  pv_certs :: "CertInfo list"

text \<open>The fields \<open>postconfiguration\<close> fills in, and the errors it ends with.\<close>

record post_config =
  pc_resolver :: "(nat \<times> u64) option"
  pc_control_zone :: bool
  pc_zones :: zones
  pc_routes :: "RouteEntry list"
  pc_upstreams :: "RouteEntry list"
  pc_certs :: "CertInfo list"

definition default_post_config :: post_config where
  "default_post_config =
     \<lparr>pc_resolver = None, pc_control_zone = False, pc_zones = \<lparr>zn_metrics = None, zn_logs = None, zn_spans = None\<rparr>,
      pc_routes = [], pc_upstreams = [], pc_certs = []\<rparr>"

datatype post_error = EndpointInvalid endpoint_error | ResolverMissing | ZoneFailed rust_string

definition str_or_empty :: "bytes \<Rightarrow> rust_string" where
  "str_or_empty b = (if utf8_valid b then b else [])"

definition tls_input :: "ExporterConfig \<Rightarrow> TlsValidationInput" where
  "tls_input ecf =
     \<lparr>tv_endpoint = str_or_empty (xc_endpoint ecf), tv_trusted_cert = str_or_empty (xc_trusted_cert ecf),
      tv_ssl_cert = str_or_empty (xc_ssl_cert ecf), tv_ssl_cert_key = str_or_empty (xc_ssl_cert_key ecf),
      tv_ssl_verify_off = ssl_verify_off ecf\<rparr>"

definition DEFAULT_RESOLVER_TIMEOUT_MS :: u64 where "DEFAULT_RESOLVER_TIMEOUT_MS = 5000"

definition resolver_info :: "core_loc_conf option \<Rightarrow> (nat \<times> u64) option" where
  "resolver_info clcf =
     (case clcf of
        None \<Rightarrow> None
      | Some c \<Rightarrow>
          (case cl_resolver c of
             None \<Rightarrow> None
           | Some (nn, connections) \<Rightarrow>
               if connections = 0 then None
               else Some (nn, if cl_resolver_timeout c \<noteq> - 1 then cl_resolver_timeout c else DEFAULT_RESOLVER_TIMEOUT_MS)))"

definition wire_resolver :: "post_env \<Rightarrow> bytes \<Rightarrow> post_config \<Rightarrow> post_error + post_config" where
  "wire_resolver env ep pc =
     (if utf8_valid ep \<and> endpoint_needs_resolver (pv_is_ip env) ep
      then (case resolver_info (pv_clcf env) of
              Some r \<Rightarrow> Inr (pc\<lparr>pc_resolver := Some r\<rparr>)
            | None \<Rightarrow> Inl ResolverMissing)
      else Inr pc)"

text \<open>The four registrations; \<open>ngx_shared_memory_add\<close> returns null for a zone that cannot be added.\<close>

definition register_zone :: "post_env \<Rightarrow> string \<Rightarrow> (post_config \<Rightarrow> post_config) \<Rightarrow> post_config \<Rightarrow> post_error + post_config" where
  "register_zone env name store pc =
     (if pv_zone_added env (lit name) then Inr (store pc) else Inl (ZoneFailed (lit name)))"

definition reserved_workers :: "post_env \<Rightarrow> nat" where
  "reserved_workers env = n_workers_to_reserve (pv_worker_processes env) (pv_ncpu env)"

definition register_shm_zone :: "post_env \<Rightarrow> post_config \<Rightarrow> post_error + post_config" where
  "register_shm_zone env =
     register_zone env ''ngx_http_otel_zone''
       (\<lambda>pc. pc\<lparr>pc_zones := (pc_zones pc)\<lparr>zn_metrics := Some (zone_size_for (pv_slab env) (reserved_workers env))\<rparr>\<rparr>)"

definition register_control_shm_zone :: "post_env \<Rightarrow> post_config \<Rightarrow> post_error + post_config" where
  "register_control_shm_zone env = register_zone env ''ngx_http_otel_control_zone'' (\<lambda>pc. pc\<lparr>pc_control_zone := True\<rparr>)"

definition register_logs_zone :: "post_env \<Rightarrow> post_config \<Rightarrow> post_error + post_config" where
  "register_logs_zone env =
     register_zone env ''ngx_http_otel_logs_zone''
       (\<lambda>pc. pc\<lparr>pc_zones := (pc_zones pc)\<lparr>zn_logs :=
          Some (logs_zone_size_for (pv_slab env) (reserved_workers env) (pv_log_ring_cap env))\<rparr>\<rparr>)"

definition register_spans_zone :: "post_env \<Rightarrow> post_config \<Rightarrow> post_error + post_config" where
  "register_spans_zone env =
     register_zone env ''ngx_http_otel_spans_zone''
       (\<lambda>pc. pc\<lparr>pc_zones := (pc_zones pc)\<lparr>zn_spans :=
          Some (spans_zone_size_for (pv_slab env) (reserved_workers env) DEFAULT_SPAN_RING_CAP)\<rparr>\<rparr>)"

text \<open>The \<open>?\<close> of Rust on a result, and the conditional registrations.\<close>

definition andthen :: "'e + 'a \<Rightarrow> ('a \<Rightarrow> 'e + 'b) \<Rightarrow> 'e + 'b" where
  "andthen x f = (case x of Inl e \<Rightarrow> Inl e | Inr a \<Rightarrow> f a)"

definition register_all :: "post_env \<Rightarrow> MainConfig \<Rightarrow> post_config \<Rightarrow> post_error + post_config" where
  "register_all env amcf pc =
     andthen (if metrics_enabled amcf then register_shm_zone env pc else Inr pc)
       (\<lambda>pc. andthen (register_control_shm_zone env pc)
         (\<lambda>pc. andthen (if mc_any_log_export amcf \<or> mc_error_log_enabled amcf then register_logs_zone env pc else Inr pc)
           (register_spans_zone env)))"

definition postconfiguration :: "post_env \<Rightarrow> MainConfig \<Rightarrow> post_error + post_config" where
  "postconfiguration env amcf =
     (if \<not> is_configured amcf then Inr default_post_config
      else
        case validate_endpoint_tls (tls_input (mc_exporter amcf)) (pv_file_exists env) of
          Inl e \<Rightarrow> Inl (EndpointInvalid e)
        | Inr warn_insecure \<Rightarrow>
            andthen (wire_resolver env (xc_endpoint (mc_exporter amcf)) default_post_config)
              (\<lambda>pc. andthen (register_all env amcf pc)
                (\<lambda>pc. Inr (pc\<lparr>pc_routes := build_route_table (pv_servers env), pc_upstreams := build_upstream_table (pv_upstreams env),
                    pc_certs := pv_certs env\<rparr>))))"

section \<open>Log-export directives of a configuration\<close>

text \<open>
  The \<open>otel_log_export\<close> directives of the locations, in the order nginx reads them: \<open>locs\<close> are the location
  configurations by number.
\<close>

fun run_log_export ::
  "(bytes \<Rightarrow> 'cv option) \<Rightarrow> (nat \<times> bytes list) list \<Rightarrow> (nat \<Rightarrow> 'cv LocationConf) \<times> MainConfig \<Rightarrow>
     ((nat \<Rightarrow> 'cv LocationConf) \<times> MainConfig) conf_result" where
  "run_log_export compile [] s = Inr s"
| "run_log_export compile ((i, args) # ds) (locs, amcf) =
     (case cmd_set_otel_log_export compile args (locs i, amcf) of
        Inl e \<Rightarrow> Inl e
      | Inr (lcf, amcf') \<Rightarrow> run_log_export compile ds (locs(i := lcf), amcf'))"

definition selects :: "'cv LocationConf \<Rightarrow> bool" where
  "selects lcf \<longleftrightarrow> log_export_mode lcf = LogExport_All \<or> log_export_mode lcf = LogExport_If"

lemma log_export_mode_set: "log_export_mode (set_log_export_mode mode lcf) = mode"
  by (cases mode) (simp_all add: log_export_mode_def set_log_export_mode_def)

lemma set_log_export_selects:
  assumes "cmd_set_otel_log_export compile args (lcf, amcf) = Inr (lcf', amcf')"
  shows "\<not> log_export_is_set lcf" "mc_any_log_export amcf' \<longleftrightarrow> mc_any_log_export amcf \<or> selects lcf'"
    "amcf' = amcf\<lparr>mc_any_log_export := mc_any_log_export amcf'\<rparr>"
  using assms by (auto simp: cmd_set_otel_log_export_def selects_def log_export_mode_set split: if_splits sum.splits option.splits)

lemma unset_not_selects: "\<not> log_export_is_set lcf \<Longrightarrow> \<not> selects lcf"
  by (simp add: selects_def log_export_is_set_def log_export_mode_def LOG_EXPORT_UNSET_def)

lemma run_log_export_flag:
  assumes "run_log_export compile ds (locs, amcf) = Inr (locs', amcf')"
    and "mc_any_log_export amcf \<longleftrightarrow> (\<exists>i. selects (locs i))"
  shows "mc_any_log_export amcf' \<longleftrightarrow> (\<exists>i. selects (locs' i))"
  using assms
proof (induction ds arbitrary: locs amcf)
  case (Cons d ds)
  obtain i args where d: "d = (i, args)"
    by (cases d)
  obtain lcf a where step: "cmd_set_otel_log_export compile args (locs i, amcf) = Inr (lcf, a)"
      "run_log_export compile ds (locs(i := lcf), a) = Inr (locs', amcf')"
    using Cons.prems(1) by (auto simp: d split: sum.splits)
  have "mc_any_log_export a \<longleftrightarrow> (\<exists>j. selects ((locs(i := lcf)) j))"
    using set_log_export_selects [OF step(1)] unset_not_selects [of "locs i"] Cons.prems(2)
    by (metis fun_upd_apply)
  with step(2) show ?case
    by (rule Cons.IH)
qed simp

lemma merge_selects: "selects (merge_location_conf self prev) \<Longrightarrow> selects self \<or> selects prev"
  by (auto simp: selects_def merge_location_conf_def log_export_mode_def log_export_is_set_def Let_def split: if_splits)

section \<open>The zones of an accepted configuration\<close>

lemma andthen_Inr: "andthen x f = Inr b \<longleftrightarrow> (\<exists>a. x = Inr a \<and> f a = Inr b)"
  by (cases x) (simp_all add: andthen_def)

lemma register_all_zones:
  assumes "register_all env amcf pc = Inr pc'" "pc_zones pc = \<lparr>zn_metrics = None, zn_logs = None, zn_spans = None\<rparr>"
  shows "pc_zones pc' = register_zones (pv_slab env) (pv_log_ring_cap env) (metrics_enabled amcf)
      (mc_any_log_export amcf \<or> mc_error_log_enabled amcf) (pv_worker_processes env) (pv_ncpu env)"
    and "pc_control_zone pc'" "pc_resolver pc' = pc_resolver pc"
  using assms
  by (auto simp: register_all_def register_shm_zone_def register_control_shm_zone_def register_logs_zone_def
      register_spans_zone_def register_zone_def andthen_Inr register_zones_def reserved_workers_def Let_def split: if_splits)

lemma register_all_total: "(\<And>n. pv_zone_added env n) \<Longrightarrow> \<exists>pc'. register_all env amcf pc = Inr pc'"
  by (simp add: register_all_def register_shm_zone_def register_control_shm_zone_def register_logs_zone_def
      register_spans_zone_def register_zone_def andthen_Inr)

lemma registered_capacity:
  assumes "n = n_workers_to_reserve wp ncpu"
  shows "n \<le> worker_capacity slab c (register_zones slab c m l wp ncpu)"
proof -
  have "0 < n"
    using assms by (auto simp: n_workers_to_reserve_def n_workers_from_cf_def split: option.splits if_splits)
  moreover have "0 < size_of_WorkerSlots" "0 < logs_slot_size c" "0 < spans_slot_size DEFAULT_SPAN_RING_CAP"
    by (simp_all add: size_of_WorkerSlots_def logs_slot_size_def coalesce_table_bytes_def spans_slot_size_def ring_size_bytes_def
        DEFAULT_SPAN_RING_CAP_def RING_HEADER_SIZE_def N_SEVERITY_CLASSES_def)
  ultimately show ?thesis
    by (simp add: worker_capacity_def min_indexed_worker_capacity_def min_capacity_def shm_n_workers_def logs_n_workers_def
        spans_n_workers_def register_zones_def n_workers_from_zone_size_def zone_size_for_def logs_zone_size_for_def
        spans_zone_size_for_def assms [symmetric] Let_def)
qed

lemma validated_utf8:
  assumes "validate_endpoint_tls (tls_input ecf) fe = Inr w" shows "str_or_empty (xc_endpoint ecf) = xc_endpoint ecf"
proof (rule ccontr)
  assume "\<not> ?thesis"
  then have "tv_endpoint (tls_input ecf) = []"
    by (simp add: tls_input_def str_or_empty_def split: if_splits)
  with assms show False
    by (simp add: validate_endpoint_tls_def starts_with_def lit_def)
qed

lemma postconfiguration_steps:
  assumes "postconfiguration env amcf = Inr pc" "is_configured amcf"
  obtains w pc1 pc2 where "validate_endpoint_tls (tls_input (mc_exporter amcf)) (pv_file_exists env) = Inr w"
    "wire_resolver env (xc_endpoint (mc_exporter amcf)) default_post_config = Inr pc1"
    "register_all env amcf pc1 = Inr pc2" "pc_zones pc = pc_zones pc2" "pc_control_zone pc = pc_control_zone pc2"
    "pc_resolver pc = pc_resolver pc2"
  using assms by (auto simp: postconfiguration_def andthen_Inr split: sum.splits)

lemma wired_zones:
  assumes "wire_resolver env ep default_post_config = Inr pc"
  shows "pc_zones pc = \<lparr>zn_metrics = None, zn_logs = None, zn_spans = None\<rparr>"
    "utf8_valid ep \<Longrightarrow> endpoint_needs_resolver (pv_is_ip env) ep \<Longrightarrow> pc_resolver pc \<noteq> None"
  using assms by (auto simp: wire_resolver_def default_post_config_def split: if_splits option.splits)

section \<open>Property\<close>

text \<open>
  C12. A configuration the module accepts has what the exporter reads from it. The endpoint parses, with a host and a
  non-zero port unless it is a socket; a host that needs resolving has a resolver; the control and span zones are registered, the
  metrics zone exactly when metrics are on, and the logs zone exactly when the error log is exported or some location
  selects log export, whether directly or by inheritance; and the zones have a slot for every worker reserved for.
\<close>

theorem accepted_configuration_exports:
  assumes "run_log_export compile ds (\<lambda>_. default_location_conf, amcf0) = Inr (locs, amcf)"
    and "\<not> mc_any_log_export amcf0" "is_configured amcf" "postconfiguration env amcf = Inr pc"
  shows "(\<exists>ep. parse_endpoint (xc_endpoint (mc_exporter amcf)) = Inr ep \<and>
      (\<forall>port. endpoint_port ep = Some port \<longrightarrow> port \<noteq> 0 \<and> strip_v6_brackets (host_str ep) \<noteq> [])) \<and>
    (endpoint_needs_resolver (pv_is_ip env) (xc_endpoint (mc_exporter amcf)) \<longrightarrow> pc_resolver pc \<noteq> None) \<and>
    pc_control_zone pc \<and> zn_spans (pc_zones pc) \<noteq> None \<and>
    (zn_metrics (pc_zones pc) \<noteq> None \<longleftrightarrow> metrics_enabled amcf) \<and>
    (zn_logs (pc_zones pc) \<noteq> None \<longleftrightarrow> mc_error_log_enabled amcf \<or> (\<exists>i. selects (locs i))) \<and>
    (\<forall>i j. selects (merge_location_conf (locs i) (locs j)) \<longrightarrow> zn_logs (pc_zones pc) \<noteq> None) \<and>
    reserved_workers env \<le> worker_capacity (pv_slab env) (pv_log_ring_cap env) (pc_zones pc)"
proof -
  let ?ecf = "mc_exporter amcf"
  obtain w pc1 pc2 where v: "validate_endpoint_tls (tls_input ?ecf) (pv_file_exists env) = Inr w"
    and r: "wire_resolver env (xc_endpoint ?ecf) default_post_config = Inr pc1"
    and z: "register_all env amcf pc1 = Inr pc2" "pc_zones pc = pc_zones pc2" "pc_control_zone pc = pc_control_zone pc2"
      "pc_resolver pc = pc_resolver pc2"
    using postconfiguration_steps [OF assms(4,3)] by blast
  have ep: "tv_endpoint (tls_input ?ecf) = xc_endpoint ?ecf"
    using validated_utf8 [OF v] by (simp add: tls_input_def)
  have utf8: "utf8_valid (xc_endpoint ?ecf)"
    using validated_utf8 [OF v] assms(3)
    by (simp add: str_or_empty_def is_configured_def exporter_is_set_def split: if_splits)
  have flag: "mc_any_log_export amcf \<longleftrightarrow> (\<exists>i. selects (locs i))"
    using assms(2) by (intro run_log_export_flag [OF assms(1)])
      (simp add: selects_def log_export_mode_def default_location_conf_def LOG_EXPORT_UNSET_def)
  note regs = register_all_zones [OF z(1) wired_zones(1) [OF r]]
  have logs: "zn_logs (pc_zones pc) \<noteq> None \<longleftrightarrow> mc_error_log_enabled amcf \<or> (\<exists>i. selects (locs i))"
    unfolding z(2) regs(1) using flag by (auto simp: register_zones_def Let_def)
  have "\<exists>ep. parse_endpoint (xc_endpoint ?ecf) = Inr ep \<and>
      (\<forall>port. endpoint_port ep = Some port \<longrightarrow> port \<noteq> 0 \<and> strip_v6_brackets (host_str ep) \<noteq> [])"
    using validated_parses [OF v] unfolding ep by metis
  moreover have "endpoint_needs_resolver (pv_is_ip env) (xc_endpoint ?ecf) \<longrightarrow> pc_resolver pc \<noteq> None"
    using wired_zones(2) [OF r utf8] z(4) regs(3) by simp
  moreover have "pc_control_zone pc"
    using z(3) regs(2) by simp
  moreover have "zn_spans (pc_zones pc) \<noteq> None" "zn_metrics (pc_zones pc) \<noteq> None \<longleftrightarrow> metrics_enabled amcf"
    unfolding z(2) regs(1) by (simp_all add: register_zones_def Let_def)
  moreover have "\<forall>i j. selects (merge_location_conf (locs i) (locs j)) \<longrightarrow> zn_logs (pc_zones pc) \<noteq> None"
    using merge_selects logs by blast
  moreover have "reserved_workers env \<le> worker_capacity (pv_slab env) (pv_log_ring_cap env) (pc_zones pc)"
    unfolding z(2) regs(1) reserved_workers_def by (rule registered_capacity) (rule refl)
  ultimately show ?thesis
    using logs by (intro conjI)
qed

definition demo_post_env :: post_env where
  "demo_post_env =
     \<lparr>pv_file_exists = (\<lambda>_. True), pv_is_ip = (\<lambda>_. False), pv_clcf = None, pv_zone_added = (\<lambda>_. True), pv_slab = 4096,
      pv_log_ring_cap = 1024, pv_worker_processes = Some 2, pv_ncpu = 4, pv_servers = [], pv_upstreams = [], pv_certs = []\<rparr>"

definition demo_main_config :: MainConfig where
  "demo_main_config = default_main_config\<lparr>mc_exporter := default_exporter_config\<lparr>xc_endpoint := lit ''unix:/run/otel.sock''\<rparr>\<rparr>"

theorem accepted_configuration_exports_witness:
  "case run_log_export (\<lambda>_. None :: nat option) [(0, [lit ''otel_log_export'', lit ''on''])] (\<lambda>_. default_location_conf, demo_main_config) of
     Inl _ \<Rightarrow> False
   | Inr (locs, amcf) \<Rightarrow> (case postconfiguration demo_post_env amcf of
       Inl _ \<Rightarrow> False
     | Inr pc \<Rightarrow> zn_logs (pc_zones pc) \<noteq> None \<and> zn_metrics (pc_zones pc) \<noteq> None \<and>
         2 \<le> worker_capacity 4096 1024 (pc_zones pc))"
proof -
  let ?locs = "(\<lambda>_. default_location_conf)(0 := set_log_export_mode LogExport_All default_location_conf) :: nat \<Rightarrow> nat LocationConf"
  let ?amcf = "demo_main_config\<lparr>mc_any_log_export := True\<rparr>"
  have run: "run_log_export (\<lambda>_. None :: nat option) [(0, [lit ''otel_log_export'', lit ''on''])]
      (\<lambda>_. default_location_conf, demo_main_config) = Inr (?locs, ?amcf)"
    by (simp add: cmd_set_otel_log_export_def log_export_is_set_def default_location_conf_def)
  have "validate_endpoint_tls (tls_input (mc_exporter ?amcf)) (pv_file_exists demo_post_env) = Inr False"
    by (simp add: demo_main_config_def tls_input_def default_exporter_config_def str_or_empty_def utf8_valid.simps
        utf8_step_def utf8_char_width_def validate_endpoint_tls_def starts_with_def ssl_verify_off_def UNSET_FLAG_def lit_def)
  moreover have "\<not> endpoint_needs_resolver (pv_is_ip demo_post_env) (xc_endpoint (mc_exporter ?amcf))"
    by (simp add: demo_main_config_def endpoint_needs_resolver_def starts_with_def lit_def)
  moreover have conf: "is_configured ?amcf"
    by (simp add: demo_main_config_def is_configured_def exporter_is_set_def lit_def)
  ultimately obtain pc where pc: "postconfiguration demo_post_env ?amcf = Inr pc"
    using register_all_total [of demo_post_env ?amcf default_post_config]
    by (auto simp: postconfiguration_def wire_resolver_def andthen_def demo_post_env_def)
  have "\<not> mc_any_log_export demo_main_config" "metrics_enabled ?amcf" "selects (?locs 0)" "reserved_workers demo_post_env = 2"
    by (simp_all add: demo_main_config_def default_main_config_def metrics_enabled_def UNSET_FLAG_def selects_def log_export_mode_set
        reserved_workers_def n_workers_to_reserve_def n_workers_from_cf_def demo_post_env_def)
  moreover have "pv_slab demo_post_env = 4096" "pv_log_ring_cap demo_post_env = 1024"
    by (simp_all add: demo_post_env_def)
  ultimately have "zn_logs (pc_zones pc) \<noteq> None \<and> zn_metrics (pc_zones pc) \<noteq> None \<and> 2 \<le> worker_capacity 4096 1024 (pc_zones pc)"
    using accepted_configuration_exports [OF run _ conf pc] by metis
  then show ?thesis
    by (simp only: run pc sum.case prod.case simp_thms)
qed

end
