(* ===== verification/Exporter_Control.thy ===== *)
theory Exporter_Control
  imports Otel_Prelude
begin

text \<open>
  The control zone shared by master, workers and exporter, and what runs on it:
  \<^verbatim>\<open>src/src/exporter/control_shm.rs\<close> (the zone, its initialisation, successor announcements),
  \<^verbatim>\<open>src/src/exporter/mod.rs\<close> (crash-loop throttling at exporter start, heartbeat, drain backstop),
  \<^verbatim>\<open>src/src/exporter/channel.rs\<close> (commands from the master) and \<^verbatim>\<open>src/src/liveness.rs\<close> (the latched
  alert of a worker whose ring is full). Wall clock and \<open>ngx_current_msec\<close> are arguments.

  Shown: an exporter is disabled only after five starts within the last 60 seconds, and eleven starts
  within 60 seconds always disable it; a worker alerts at most once per exporter generation and only
  when no beat was seen for more than five seconds.
\<close>

section \<open>The control zone\<close>

record ControlShm =
  ctl_version :: u64
  ctl_flags :: u64
  ctl_crash_count :: u64
  ctl_window_start_unix :: u64
  ctl_successor_gen :: u64
  ctl_last_beat_msec :: u64

definition RELOAD_WRITE_EXTENT :: nat where "RELOAD_WRITE_EXTENT = 32"

definition zeroed_control :: ControlShm where
  "zeroed_control = \<lparr>ctl_version = 0, ctl_flags = 0, ctl_crash_count = 0, ctl_window_start_unix = 0,
     ctl_successor_gen = 0, ctl_last_beat_msec = 0\<rparr>"

definition announce_successor :: "ControlShm \<Rightarrow> ControlShm" where
  "announce_successor c = c\<lparr>ctl_successor_gen := ctl_successor_gen c + 1\<rparr>"

definition rollback_successor :: "ControlShm \<Rightarrow> ControlShm" where
  "rollback_successor c = c\<lparr>ctl_successor_gen := ctl_successor_gen c - 1\<rparr>"

text \<open>\<open>reload\<close> is \<open>old_data\<close> non-null; sizes are the zone's bytes and the slab-pool header's.\<close>

definition control_shm_zone_init :: "bool \<Rightarrow> nat \<Rightarrow> nat \<Rightarrow> ControlShm \<Rightarrow> ControlShm" where
  "control_shm_zone_init reload zone_size data_offset c =
     (if reload
      then if data_offset + RELOAD_WRITE_EXTENT \<le> zone_size
           then c\<lparr>ctl_crash_count := 0, ctl_window_start_unix := 0\<rparr> else c
      else if data_offset < zone_size then zeroed_control else c)"

section \<open>Crash-loop throttling\<close>

definition CRASH_WINDOW_SECS :: u64 where "CRASH_WINDOW_SECS = 60"

definition MAX_CRASH_RESTARTS :: u64 where "MAX_CRASH_RESTARTS = 5"

definition CRASH_BACKOFF_BASE_MS :: u64 where "CRASH_BACKOFF_BASE_MS = 100"

definition CRASH_BACKOFF_CAP_MS :: u64 where "CRASH_BACKOFF_CAP_MS = 5000"

definition crash_backoff_ms :: "u64 \<Rightarrow> u64" where
  "crash_backoff_ms count =
     (if count \<le> 1 then 0
      else let shift = min (saturating_sub count 1) 31
           in min (saturating_mul CRASH_BACKOFF_BASE_MS (push_bit (unat shift) 1)) CRASH_BACKOFF_CAP_MS)"

text \<open>\<open>Disabled\<close>: \<open>exit(2)\<close>. Otherwise the sleep in milliseconds and the published restart count, if any.\<close>

datatype start_decision = Disabled | Continue u64 "u64 option"

definition exporter_start :: "u64 \<Rightarrow> ControlShm \<Rightarrow> start_decision \<times> ControlShm" where
  "exporter_start now ctrl =
     (let window = ctl_window_start_unix ctrl;
          ctrl1 = (if window = 0 \<or> saturating_sub now window > CRASH_WINDOW_SECS
                   then ctrl\<lparr>ctl_crash_count := 0, ctl_window_start_unix := now\<rparr> else ctrl);
          count = ctl_crash_count ctrl1 + 1;
          ctrl2 = ctrl1\<lparr>ctl_crash_count := count\<rparr>
      in if count > MAX_CRASH_RESTARTS then (Disabled, ctrl2)
         else if count > 1 then (Continue (crash_backoff_ms count) (Some (count - 1)), ctrl2)
         else (Continue 0 None, ctrl2))"

definition effective_drain_backstop :: "nat \<Rightarrow> nat \<Rightarrow> nat" where
  "effective_drain_backstop default_backstop shutdown_timeout_ms =
     (if shutdown_timeout_ms = 0 then default_backstop else min default_backstop (shutdown_timeout_ms * 1000000))"

section \<open>Commands from the master\<close>

datatype ngx_command = CmdQuit | CmdTerminate | CmdReopen | CmdOther

datatype channel_read = Again | ReadError | Command ngx_command int

record exporter_flags =
  ef_quit :: bool
  ef_terminate :: bool
  ef_reopen :: bool
  ef_channel_open :: bool
  ef_closed_fds :: "int list"

text \<open>The answers of successive \<open>ngx_read_channel\<close> calls; an exhausted channel answers \<open>Again\<close>.\<close>

fun otel_exporter_channel_handler :: "channel_read list \<Rightarrow> exporter_flags \<Rightarrow> exporter_flags" where
  "otel_exporter_channel_handler [] f = f"
| "otel_exporter_channel_handler (Again # reads) f = f"
| "otel_exporter_channel_handler (ReadError # reads) f = f\<lparr>ef_channel_open := False, ef_terminate := True\<rparr>"
| "otel_exporter_channel_handler (Command cmd fd # reads) f =
     otel_exporter_channel_handler reads
       (case cmd of
          CmdQuit \<Rightarrow> f\<lparr>ef_quit := True\<rparr>
        | CmdTerminate \<Rightarrow> f\<lparr>ef_terminate := True\<rparr>
        | CmdReopen \<Rightarrow> f\<lparr>ef_reopen := True\<rparr>
        | CmdOther \<Rightarrow> if fd \<ge> 0 then f\<lparr>ef_closed_fds := ef_closed_fds f @ [fd]\<rparr> else f)"

section \<open>Liveness\<close>

definition HEARTBEAT_PERIOD_MS :: u64 where "HEARTBEAT_PERIOD_MS = 1000"

definition HEARTBEAT_STALE_THRESHOLD_MS :: u64 where "HEARTBEAT_STALE_THRESHOLD_MS = 5 * HEARTBEAT_PERIOD_MS"

definition LATCH_UNSET :: u64 where "LATCH_UNSET = - 1"

definition heartbeat_timer_handler :: "u64 \<Rightarrow> ControlShm \<Rightarrow> ControlShm" where
  "heartbeat_timer_handler now_msec c = c\<lparr>ctl_last_beat_msec := now_msec\<rparr>"

definition heartbeat_is_stale :: "u64 \<Rightarrow> u64 \<Rightarrow> bool" where
  "heartbeat_is_stale now_msec last_beat_msec \<longleftrightarrow>
     last_beat_msec \<noteq> 0 \<and> saturating_sub now_msec last_beat_msec > HEARTBEAT_STALE_THRESHOLD_MS"

definition latch_should_alert :: "u64 \<Rightarrow> u64 \<Rightarrow> bool \<Rightarrow> bool" where
  "latch_should_alert latched_gen current_gen stale \<longleftrightarrow> stale \<and> latched_gen \<noteq> current_gen"

text \<open>
  The drop hook of a worker: its latch \<open>ALERT_LATCHED_GEN\<close> is the state, \<open>None\<close> an absent control zone;
  the result tells whether the alert is logged.
\<close>

definition check_exporter_liveness_on_drop :: "ControlShm option \<Rightarrow> u64 \<Rightarrow> u64 \<Rightarrow> bool \<times> u64" where
  "check_exporter_liveness_on_drop ctrl now latched =
     (case ctrl of
        None \<Rightarrow> (False, latched)
      | Some c \<Rightarrow>
          (let stale = heartbeat_is_stale now (ctl_last_beat_msec c)
           in if \<not> stale then (False, latched)
              else
                let current_gen = ctl_successor_gen c
                in if \<not> latch_should_alert latched current_gen stale then (False, latched)
                   else (True, current_gen)))"

section \<open>Crash-loop lemmas\<close>

fun run_starts :: "u64 list \<Rightarrow> ControlShm \<Rightarrow> start_decision list \<times> ControlShm" where
  "run_starts [] c = ([], c)"
| "run_starts (t # ts) c =
     (let (d, c') = exporter_start t c
      in if d = Disabled then ([d], c')
         else let (ds, c'') = run_starts ts c' in (d # ds, c''))"

lemma exporter_start_cases:
  assumes "exporter_start t c = (d, c')" "unat (ctl_crash_count c) \<le> 5"
  shows "if ctl_window_start_unix c = 0 \<or> unat t > unat (ctl_window_start_unix c) + 60
    then d \<noteq> Disabled \<and> ctl_window_start_unix c' = t \<and> ctl_crash_count c' = 1
    else ctl_window_start_unix c' = ctl_window_start_unix c \<and>
      unat (ctl_crash_count c') = unat (ctl_crash_count c) + 1 \<and> (d = Disabled \<longleftrightarrow> ctl_crash_count c = 5)"
proof -
  have sub: "saturating_sub t w > 60 \<longleftrightarrow> unat t > unat w + 60" for w :: u64
    by (simp add: word_less_nat_alt unat_saturating_sub) linarith
  have add: "unat (ctl_crash_count c + 1) = unat (ctl_crash_count c) + 1"
    using assms(2) by (simp add: unat_word_ariths)
  have gt: "ctl_crash_count c + 1 > 5 \<longleftrightarrow> ctl_crash_count c = 5"
    using assms(2) add by (auto simp: word_less_nat_alt word_unat_eq_iff)
  let ?reset = "ctl_window_start_unix c = 0 \<or> unat t > unat (ctl_window_start_unix c) + 60"
  have reset: "ctl_window_start_unix c = 0 \<or> saturating_sub t (ctl_window_start_unix c) > CRASH_WINDOW_SECS \<longleftrightarrow> ?reset"
    by (simp only: sub CRASH_WINDOW_SECS_def)
  show ?thesis
  proof (cases ?reset)
    case True
    with assms(1) show ?thesis
      unfolding exporter_start_def Let_def reset if_P [OF True]
      by (auto simp: MAX_CRASH_RESTARTS_def)
  next
    case False
    show ?thesis
      using assms(1) add gt
      unfolding exporter_start_def Let_def reset if_not_P [OF False] MAX_CRASH_RESTARTS_def
      by (auto simp del: unat_1 split: if_splits)
  qed
qed

text \<open>The current window's starts are the last \<open>crash_count\<close> ones, and none precedes the window.\<close>

definition starts_inv :: "u64 list \<Rightarrow> ControlShm \<Rightarrow> bool" where
  "starts_inv hist c \<longleftrightarrow>
     (let k = unat (ctl_crash_count c); w = ctl_window_start_unix c
      in k \<le> 5 \<and> k \<le> length hist \<and> (w \<noteq> 0 \<longrightarrow> 0 < k) \<and> (\<forall>x\<in>set (drop (length hist - k) hist). w \<le> x))"

lemma starts_inv_step:
  assumes "starts_inv hist c" "sorted (hist @ [t])" "exporter_start t c = (d, c')"
  shows "if d = Disabled
    then 5 \<le> length hist \<and> unat t \<le> unat (hist ! (length hist - 5)) + 60
    else starts_inv (hist @ [t]) c'"
proof -
  define k where "k = unat (ctl_crash_count c)"
  define w where "w = ctl_window_start_unix c"
  have inv: "k \<le> 5" "k \<le> length hist" "w \<noteq> 0 \<Longrightarrow> 0 < k" "\<And>x. x \<in> set (drop (length hist - k) hist) \<Longrightarrow> w \<le> x"
    using assms(1) by (auto simp: starts_inv_def k_def w_def Let_def)
  note cases = exporter_start_cases [OF assms(3) inv(1) [unfolded k_def], folded w_def k_def]
  show ?thesis
  proof (cases "w = 0 \<or> unat t > unat w + 60")
    case True
    with cases show ?thesis
      by (simp add: starts_inv_def)
  next
    case False
    with inv(3) have k: "0 < k" by simp
    then have "hist ! (length hist - 1) \<in> set (drop (length hist - k) hist)"
      using inv(2) by (auto simp: in_set_conv_nth intro!: exI [of _ "k - 1"])
    moreover have "hist ! (length hist - 1) \<le> t"
      using assms(2) k inv(2) by (simp add: sorted_append)
    ultimately have wt: "w \<le> t"
      using inv(4) by fastforce
    show ?thesis
    proof (cases "d = Disabled")
      case True
      then have k5: "k = 5"
        using cases False by (simp add: k_def)
      then have "hist ! (length hist - 5) \<in> set (drop (length hist - k) hist)"
        using inv(2) by (auto simp: in_set_conv_nth intro!: exI [of _ 0])
      then have "unat w \<le> unat (hist ! (length hist - 5))"
        using inv(4) by (simp add: word_le_nat_alt)
      with True False k5 inv(2) show ?thesis
        by auto
    next
      case cont: False
      have cnt: "unat (ctl_crash_count c') = k + 1" "ctl_window_start_unix c' = w" "k \<noteq> 5"
        using cases False cont by (auto simp: k_def word_unat_eq_iff)
      moreover have "drop (length (hist @ [t]) - (k + 1)) (hist @ [t]) = drop (length hist - k) hist @ [t]"
        by simp
      ultimately show ?thesis
        using inv wt cont by (auto simp: starts_inv_def)
    qed
  qed
qed

lemma run_starts_disabled:
  "starts_inv hist c \<Longrightarrow> sorted (hist @ ts) \<Longrightarrow> run_starts ts c = (ds, c') \<Longrightarrow> Disabled \<in> set ds \<Longrightarrow>
     let n = length hist + length ds - 1
     in 5 \<le> n \<and> unat ((hist @ ts) ! n) \<le> unat ((hist @ ts) ! (n - 5)) + 60"
proof (induction ts arbitrary: hist c ds)
  case (Cons t ts)
  obtain d c1 where d: "exporter_start t c = (d, c1)" by fastforce
  have "sorted (hist @ [t])"
    using Cons.prems(2) by (simp add: sorted_append)
  note step = starts_inv_step [OF Cons.prems(1) this d]
  show ?case
  proof (cases "d = Disabled")
    case True
    with step Cons.prems(3) d show ?thesis
      by (auto simp: nth_append)
  next
    case False
    obtain ds1 where ds1: "run_starts ts c1 = (ds1, c')" "ds = d # ds1"
      using Cons.prems(3) d False by (auto split: prod.splits)
    have "starts_inv (hist @ [t]) c1" "sorted ((hist @ [t]) @ ts)"
      using step False Cons.prems(2) by simp_all
    from Cons.IH [OF this ds1(1)] show ?thesis
      using Cons.prems(4) ds1(2) False by simp
  qed
qed simp

lemma run_starts_bound:
  "unat (ctl_crash_count c) \<le> 5 \<Longrightarrow> run_starts ts c = (ds, c') \<Longrightarrow> Disabled \<notin> set ds \<Longrightarrow>
   \<forall>t\<in>set ts. T \<le> unat t \<and> unat t \<le> T + 60 \<Longrightarrow> 0 < T \<Longrightarrow>
     length ts \<le> (5 - unat (ctl_crash_count c)) + (if T \<le> unat (ctl_window_start_unix c) then 0 else 5)"
proof (induction ts arbitrary: c ds)
  case (Cons t ts)
  obtain d c1 where d: "exporter_start t c = (d, c1)" by fastforce
  obtain ds1 where ds1: "run_starts ts c1 = (ds1, c')" "ds = d # ds1" "d \<noteq> Disabled"
    using Cons.prems(2,3) d by (auto split: prod.splits if_splits)
  note cases = exporter_start_cases [OF d Cons.prems(1)]
  show ?case
  proof (cases "ctl_window_start_unix c = 0 \<or> unat t > unat (ctl_window_start_unix c) + 60")
    case True
    with cases have "unat (ctl_crash_count c1) = 1" "ctl_window_start_unix c1 = t"
      by simp_all
    with Cons.IH [of c1 ds1] ds1 Cons.prems True show ?thesis
      by auto
  next
    case False
    with cases ds1(3) have "unat (ctl_crash_count c1) = unat (ctl_crash_count c) + 1"
      "ctl_window_start_unix c1 = ctl_window_start_unix c" "ctl_crash_count c \<noteq> 5"
      by simp_all
    moreover from this(3) have "unat (ctl_crash_count c) \<noteq> 5"
      by (simp add: word_unat_eq_iff)
    ultimately show ?thesis
      using Cons.IH [of c1 ds1] ds1 Cons.prems by auto
  qed
qed simp

lemma run_starts_append:
  "run_starts (ts @ us) c = (ds, c') \<Longrightarrow> Disabled \<notin> set ds \<Longrightarrow>
     \<exists>ds1 c1 ds2. run_starts ts c = (ds1, c1) \<and> run_starts us c1 = (ds2, c') \<and> ds = ds1 @ ds2"
proof (induction ts arbitrary: c ds)
  case (Cons t ts)
  obtain d c1 where d: "exporter_start t c = (d, c1)" by fastforce
  then obtain ds1 where ds1: "run_starts (ts @ us) c1 = (ds1, c')" "ds = d # ds1" "d \<noteq> Disabled"
    using Cons.prems by (auto split: prod.splits if_splits)
  with Cons.IH [OF ds1(1)] Cons.prems(2) d show ?case
    by auto
qed simp

lemma run_starts_count:
  "unat (ctl_crash_count c) \<le> 5 \<Longrightarrow> run_starts ts c = (ds, c') \<Longrightarrow> Disabled \<notin> set ds \<Longrightarrow>
     unat (ctl_crash_count c') \<le> 5"
proof (induction ts arbitrary: c ds)
  case (Cons t ts)
  obtain d c1 where d: "exporter_start t c = (d, c1)" by fastforce
  obtain ds1 where ds1: "run_starts ts c1 = (ds1, c')" "ds = d # ds1" "d \<noteq> Disabled"
    using Cons.prems(2,3) d by (auto split: prod.splits if_splits)
  have "unat (ctl_crash_count c1) \<le> 5"
    using exporter_start_cases [OF d Cons.prems(1)] ds1(3) Cons.prems(1)
    by (auto simp: word_unat_eq_iff split: if_splits)
  with Cons ds1 show ?case
    by simp
qed simp

lemma run_starts_detects:
  assumes "unat (ctl_crash_count c) \<le> 5" "run_starts ts c = (ds, c')" "sorted ts" "0 \<notin> set ts"
    and "i + 10 < length ts" "unat (ts ! (i + 10)) \<le> unat (ts ! i) + 60"
  shows "Disabled \<in> set ds"
proof (rule ccontr)
  assume ok: "Disabled \<notin> set ds"
  define us where "us = take 11 (drop i ts)"
  have split: "ts = (take i ts @ us) @ drop (i + 11) ts"
    unfolding us_def by (metis append.assoc append_take_drop_id drop_drop add.commute)
  obtain ds1 c1 where r1: "run_starts (take i ts @ us) c = (ds1, c1)" "Disabled \<notin> set ds1"
    using run_starts_append [of "take i ts @ us" "drop (i + 11) ts" c ds c'] split assms(2) ok by auto
  then obtain ds2 c2 ds3 where r2: "run_starts (take i ts) c = (ds2, c2)" "run_starts us c2 = (ds3, c1)"
    "Disabled \<notin> set ds2" "Disabled \<notin> set ds3"
    using run_starts_append [OF r1] by auto
  have len: "length us = 11"
    using assms(5) by (simp add: us_def)
  have T: "unat (ts ! i) \<le> unat t \<and> unat t \<le> unat (ts ! i) + 60" if "t \<in> set us" for t
  proof -
    obtain j where j: "j < 11" "t = ts ! (i + j)"
      using \<open>t \<in> set us\<close> assms(5) by (auto simp: us_def in_set_conv_nth)
    then have "ts ! i \<le> t" "t \<le> ts ! (i + 10)"
      using assms(3,5) by (auto intro: sorted_nth_mono)
    with assms(6) show ?thesis
      by (simp add: word_le_nat_alt)
  qed
  have "0 < unat (ts ! i)"
    using assms(4,5) by (metis add_lessD1 nth_mem unat_gt_0)
  moreover have "\<forall>t\<in>set us. unat (ts ! i) \<le> unat t \<and> unat t \<le> unat (ts ! i) + 60"
    using T by blast
  ultimately have "length us \<le> 5 - unat (ctl_crash_count c2) + (if unat (ts ! i) \<le> unat (ctl_window_start_unix c2) then 0 else 5)"
    using run_starts_bound [OF run_starts_count [OF assms(1) r2(1,3)] r2(2,4)] by blast
  also have "\<dots> \<le> 5 + 5"
    by (intro add_mono) simp_all
  finally have "length us \<le> 10"
    by simp
  with len show False
    by simp
qed

section \<open>Alerts of a worker\<close>

text \<open>One drop: the worker's clock and the control zone it sees. The result lists the generations alerted for.\<close>

fun run_drops :: "(u64 \<times> ControlShm) list \<Rightarrow> u64 \<Rightarrow> (u64 \<times> ControlShm) list" where
  "run_drops [] latched = []"
| "run_drops ((now, c) # drops) latched =
     (let (alert, latched') = check_exporter_liveness_on_drop (Some c) now latched
      in (if alert then [(now, c)] else []) @ run_drops drops latched')"

lemma run_drops_stale:
  "(now, c) \<in> set (run_drops drops latched) \<Longrightarrow> heartbeat_is_stale now (ctl_last_beat_msec c)"
proof (induction drops arbitrary: latched)
  case (Cons d drops)
  obtain now' c' where d: "d = (now', c')" by fastforce
  obtain alert latched' where chk: "check_exporter_liveness_on_drop (Some c') now' latched = (alert, latched')"
    by fastforce
  then have "alert \<Longrightarrow> heartbeat_is_stale now' (ctl_last_beat_msec c')"
    by (auto simp: check_exporter_liveness_on_drop_def Let_def split: if_splits)
  with Cons d chk show ?case
    by (auto split: if_splits)
qed simp

lemma run_drops_latched:
  "sorted (map (ctl_successor_gen \<circ> snd) drops) \<Longrightarrow> \<forall>d\<in>set drops. latched \<le> ctl_successor_gen (snd d) \<or> latched = - 1 \<Longrightarrow>
   \<forall>d\<in>set drops. ctl_successor_gen (snd d) \<noteq> - 1 \<Longrightarrow>
     distinct (map (ctl_successor_gen \<circ> snd) (run_drops drops latched)) \<and>
     (latched \<noteq> - 1 \<longrightarrow> (\<forall>d\<in>set (run_drops drops latched). latched < ctl_successor_gen (snd d)))"
proof (induction drops arbitrary: latched)
  case (Cons d drops)
  obtain now c where d: "d = (now, c)" by fastforce
  let ?g = "ctl_successor_gen c"
  have rest: "sorted (map (ctl_successor_gen \<circ> snd) drops)" "\<forall>d\<in>set drops. ?g \<le> ctl_successor_gen (snd d)"
    "\<forall>d\<in>set drops. ctl_successor_gen (snd d) \<noteq> - 1" "?g \<noteq> - 1" "latched \<le> ?g \<or> latched = - 1"
    using Cons.prems d by (auto simp: comp_def)
  show ?case
  proof (cases "heartbeat_is_stale now (ctl_last_beat_msec c) \<and> latched \<noteq> ?g")
    case True
    then have chk: "run_drops (d # drops) latched = d # run_drops drops ?g"
      by (simp add: d check_exporter_liveness_on_drop_def latch_should_alert_def)
    have ih: "distinct (map (ctl_successor_gen \<circ> snd) (run_drops drops ?g))"
      "\<forall>d\<in>set (run_drops drops ?g). ?g < ctl_successor_gen (snd d)"
      using Cons.IH [of ?g] rest by blast+
    moreover have "latched \<noteq> - 1 \<longrightarrow> latched < ?g"
      using rest(5) True by auto
    ultimately show ?thesis
      unfolding chk by (auto simp: d comp_def)
  next
    case False
    then have "run_drops (d # drops) latched = run_drops drops latched"
      by (auto simp: d check_exporter_liveness_on_drop_def latch_should_alert_def Let_def)
    with Cons.IH [of latched] Cons.prems show ?thesis
      by simp
  qed
qed simp

section \<open>Properties\<close>

text \<open>
  C18. The crash-loop guard is sound and complete. From a zone without crash history (fresh, reloaded or
  reset by a healthy exporter), for starts at non-decreasing times: if a start is disabled then the
  fifth start before it was at most 60 seconds earlier, and if any eleven consecutive starts lie within
  60 seconds then one start is disabled.
\<close>

theorem crash_loop_detection:
  assumes "ctl_crash_count c = 0" "ctl_window_start_unix c = 0" "sorted ts" "0 \<notin> set ts"
    and "run_starts ts c = (ds, c')"
  shows "(Disabled \<in> set ds \<longrightarrow>
      6 \<le> length ds \<and> unat (ts ! (length ds - 1)) \<le> unat (ts ! (length ds - 6)) + 60) \<and>
    (\<forall>i. i + 10 < length ts \<and> unat (ts ! (i + 10)) \<le> unat (ts ! i) + 60 \<longrightarrow> Disabled \<in> set ds)"
proof (intro conjI impI allI)
  assume "Disabled \<in> set ds"
  moreover have "starts_inv [] c"
    using assms(1,2) by (simp add: starts_inv_def)
  ultimately have n: "5 \<le> length ds - 1 \<and> unat (ts ! (length ds - 1)) \<le> unat (ts ! (length ds - 1 - 5)) + 60"
    using run_starts_disabled [of "[]" c ts ds c'] assms(3,5) by (simp add: Let_def)
  then show "6 \<le> length ds"
    by arith
  from n show "unat (ts ! (length ds - 1)) \<le> unat (ts ! (length ds - 6)) + 60"
    by simp
next
  fix i
  assume "i + 10 < length ts \<and> unat (ts ! (i + 10)) \<le> unat (ts ! i) + 60"
  then show "Disabled \<in> set ds"
    using run_starts_detects [of c ts ds c' i] assms by simp
qed

theorem crash_loop_detection_witness:
  "\<exists>ds c'. run_starts [100, 101, 102, 103, 104, 105] zeroed_control = (ds, c') \<and> Disabled \<in> set ds \<and>
     6 \<le> length ds \<and> unat (105 :: u64) \<le> unat (100 :: u64) + 60"
proof -
  let ?ts = "[100, 101, 102, 103, 104, 105] :: u64 list"
  have z: "ctl_crash_count zeroed_control = 0" "ctl_window_start_unix zeroed_control = 0"
    by (simp_all add: zeroed_control_def)
  have srt: "sorted ?ts" "0 \<notin> set ?ts"
    by simp_all
  obtain ds c' where r: "run_starts ?ts zeroed_control = (ds, c')" by fastforce
  have "Disabled \<in> set (fst (run_starts ?ts zeroed_control))"
    by (simp add: exporter_start_def zeroed_control_def saturating_sub_def Let_def
        CRASH_WINDOW_SECS_def MAX_CRASH_RESTARTS_def)
  with crash_loop_detection [OF z srt r] r show ?thesis
    by auto
qed



end
