(* ===== verification/Export_Pipeline.thy ===== *)
theory Export_Pipeline
  imports Retry_Lane Log_Collect Exporter_Control
begin

text \<open>
  The exporter's pipeline from the rings to the network: the processors of
  \<^verbatim>\<open>src/src/processor/mod.rs\<close>, the lanes with their fresh sends as \<open>periodic_tick\<close> and
  \<open>graceful_drain\<close> run them (\<^verbatim>\<open>src/src/drain/mod.rs\<close>, \<^verbatim>\<open>src/src/drain/graceful.rs\<close>).

  The world is the shared memory the exporter maps (log slots, span rings, control zone) and a rest
  \<open>'n\<close> that stands for everything else. The environment is a parameter: sleeping, sending (raced
  against its budget), the flags \<open>ngx_quit\<close> and \<open>ngx_terminate\<close>, the clocks, the metric sources and the
  protobuf encoder. Sleeps and sends may change the whole world, because workers and the master run
  meanwhile. \<open>es_offered\<close> is a history variable: the records taken into batches so far.
\<close>

section \<open>Processors\<close>

text \<open>The lookups \<open>from_config\<close> makes in the JSON configuration.\<close>

record processor_config =
  pc_type :: "rust_string option"
  pc_drop_errors :: "bool option"
  pc_paths :: "rust_string option list option"

datatype Processor = Noop | StatusFilter bool | ProbeDrop "rust_string list"

definition DEFAULT_PATHS :: "rust_string list" where
  "DEFAULT_PATHS = map lit [''/healthz'', ''/readyz'', ''/livez'', ''/ping'', ''/metrics'']"

definition processor_from_config :: "processor_config \<Rightarrow> Processor" where
  "processor_from_config cfg =
     (let ty = (case pc_type cfg of Some t \<Rightarrow> t | None \<Rightarrow> lit ''noop'')
      in if ty = lit ''status_filter''
         then StatusFilter (case pc_drop_errors cfg of Some b \<Rightarrow> b | None \<Rightarrow> False)
         else if ty = lit ''probe_drop''
         then ProbeDrop (case pc_paths cfg of Some arr \<Rightarrow> List.map_filter id arr | None \<Rightarrow> DEFAULT_PATHS)
         else Noop)"

definition url_path_of :: "KeyValue list \<Rightarrow> rust_string option" where
  "url_path_of attrs =
     (case List.map_filter (\<lambda>kv. if kv_key kv = lit ''url.path''
             then (case kv_value kv of StringV s \<Rightarrow> Some s | _ \<Rightarrow> None) else None) attrs of
        [] \<Rightarrow> None
      | s # _ \<Rightarrow> Some s)"

definition keep_span :: "Processor \<Rightarrow> Span \<Rightarrow> bool" where
  "keep_span p sp =
     (case p of
        Noop \<Rightarrow> True
      | StatusFilter drop_errors \<Rightarrow> \<not> (drop_errors \<and> status_code (span_status sp) = Status_Error)
      | ProbeDrop paths \<Rightarrow>
          (case url_path_of (span_attributes sp) of Some path \<Rightarrow> path \<notin> set paths | None \<Rightarrow> True))"

definition process :: "Processor \<Rightarrow> Pdata \<Rightarrow> Pdata" where
  "process p data =
     (case data of
        PSpans batch \<Rightarrow> PSpans (batch\<lparr>spans_spans := filter (keep_span p) (spans_spans batch)\<rparr>)
      | _ \<Rightarrow> data)"

text \<open>The loop builds its processor from an empty configuration.\<close>

definition loop_processor :: Processor where
  "loop_processor = processor_from_config \<lparr>pc_type = None, pc_drop_errors = None, pc_paths = None\<rparr>"

section \<open>World, environment, state\<close>

record 'n world =
  wd_logs :: "worker_logs list option"
  wd_spans :: "ring list option"
  wd_ctrl :: "ControlShm option"
  wd_rest :: 'n

record 'n env =
  ev_send :: "nat \<Rightarrow> OtlpSignal \<Rightarrow> bytes \<Rightarrow> 'n world \<Rightarrow> send_result \<times> 'n world"
  ev_sleep :: "nat \<Rightarrow> 'n world \<Rightarrow> 'n world"
  ev_quit :: "'n \<Rightarrow> bool"
  ev_terminate :: "'n \<Rightarrow> bool"
  ev_msec :: "'n \<Rightarrow> u64"
  ev_unix_nano :: "'n \<Rightarrow> u64"
  ev_collect_metrics :: "'n world \<Rightarrow> Batch \<times> 'n world"
  ev_encode :: "Pdata \<Rightarrow> bytes"

record exporter_conf =
  ec_resource :: resource_conf
  ec_metric_interval_ms :: u64
  ec_metrics_enabled :: bool
  ec_log_export :: bool
  ec_error_log :: bool
  ec_n_active :: nat
  ec_log_slots :: nat
  ec_span_slots :: nat

record exporter_state =
  es_metrics :: lane
  es_logs :: lane
  es_spans :: lane
  es_counters :: self_metrics
  es_access_logs_dropped :: u64
  es_error_logs_dropped :: u64
  es_coalesced_orphaned :: u64
  es_traces_dropped :: u64
  es_abdicated :: bool
  es_crash_reset :: bool
  es_offered :: u64

definition PERIODIC_SEND_BUDGET :: nat where "PERIODIC_SEND_BUDGET = 15000"

definition GRACEFUL_DRAIN_PER_ATTEMPT_BUDGET :: nat where "GRACEFUL_DRAIN_PER_ATTEMPT_BUDGET = 2000"

definition retry_buffer_depth :: nat where "retry_buffer_depth = 4"

definition interval_ms :: "exporter_conf \<Rightarrow> nat" where
  "interval_ms cfg = (if ec_metric_interval_ms cfg = - 1 then 5000 else unat (ec_metric_interval_ms cfg))"

text \<open>\<open>get_n_workers\<close>: the active count when known, else the slots that fit in the zone.\<close>

definition get_n_workers :: "nat \<Rightarrow> nat \<Rightarrow> nat" where
  "get_n_workers n_active from_zone = (if n_active > 0 then n_active else from_zone)"

definition successor_announced :: "ControlShm option \<Rightarrow> u64 \<Rightarrow> bool" where
  "successor_announced ctrl my_gen = (case ctrl of Some c \<Rightarrow> ctl_successor_gen c > my_gen | None \<Rightarrow> False)"

definition clock :: "'n env \<Rightarrow> 'n world \<Rightarrow> u64" where
  "clock env w = ev_msec env (wd_rest w)"

section \<open>Collecting from the rings\<close>

text \<open>
  The collection of the log rings and the stores of the drop counters, shared by \<open>periodic_tick\<close> and
  \<open>graceful_drain\<close>; \<open>None\<close> when the logs zone is not mapped. Then the same for spans and metrics.
\<close>

definition take_logs ::
  "'n env \<Rightarrow> exporter_conf \<Rightarrow> exporter_state \<Rightarrow> 'n world \<Rightarrow> Pdata option \<times> exporter_state \<times> 'n world" where
  "take_logs env cfg s w =
     (case wd_logs w of
        None \<Rightarrow> (None, s, w)
      | Some wls \<Rightarrow>
          (let n = get_n_workers (ec_n_active cfg) (ec_log_slots cfg);
               ((batch, drops), wls') =
                 collect_log_records (ec_resource cfg) (ec_error_log cfg) (ev_unix_nano env (wd_rest w)) (take n wls);
               pd = process loop_processor (PLogs batch)
           in (Some pd,
               s\<lparr>es_access_logs_dropped := ld_access_dropped drops,
                 es_error_logs_dropped := ld_error_dropped drops,
                 es_coalesced_orphaned := es_coalesced_orphaned s + ld_error_coalesced_orphaned drops,
                 es_offered := es_offered s + count_pdata_records pd\<rparr>,
               w\<lparr>wd_logs := Some (wls' @ drop n wls)\<rparr>)))"

definition take_spans ::
  "'n env \<Rightarrow> exporter_conf \<Rightarrow> exporter_state \<Rightarrow> 'n world \<Rightarrow> Pdata option \<times> exporter_state \<times> 'n world" where
  "take_spans env cfg s w =
     (case wd_spans w of
        None \<Rightarrow> (None, s, w)
      | Some rings \<Rightarrow>
          (let n = get_n_workers (ec_n_active cfg) (ec_span_slots cfg);
               ((batch, dropped), rings') =
                 collect_span_records (ec_resource cfg) (ev_unix_nano env (wd_rest w)) (take n rings);
               pd = process loop_processor (PSpans batch)
           in (Some pd,
               s\<lparr>es_traces_dropped := dropped, es_offered := es_offered s + count_pdata_records pd\<rparr>,
               w\<lparr>wd_spans := Some (rings' @ drop n rings)\<rparr>)))"

definition take_metrics :: "'n env \<Rightarrow> 'n world \<Rightarrow> Pdata \<times> 'n world" where
  "take_metrics env w =
     (let (batch, w') = ev_collect_metrics env w in (process loop_processor (PMetrics batch), w'))"

definition offer :: "Pdata \<Rightarrow> exporter_state \<Rightarrow> exporter_state" where
  "offer pd s = s\<lparr>es_offered := es_offered s + count_pdata_records pd\<rparr>"

section \<open>Lanes\<close>

definition retry_logs :: "'n env \<Rightarrow> exporter_state \<Rightarrow> 'n world \<Rightarrow> exporter_state \<times> 'n world" where
  "retry_logs env s w =
     (let (l, sm, w') = drain_retry_queue_once (ev_send env PERIODIC_SEND_BUDGET Logs) (clock env) retry_buffer_depth
            (es_logs s) (es_counters s) w
      in (s\<lparr>es_logs := l, es_counters := sm\<rparr>, w'))"

definition retry_spans :: "'n env \<Rightarrow> exporter_state \<Rightarrow> 'n world \<Rightarrow> exporter_state \<times> 'n world" where
  "retry_spans env s w =
     (let (l, sm, w') = drain_retry_queue_once (ev_send env PERIODIC_SEND_BUDGET Traces) (clock env) retry_buffer_depth
            (es_spans s) (es_counters s) w
      in (s\<lparr>es_spans := l, es_counters := sm\<rparr>, w'))"

definition retry_metrics :: "'n env \<Rightarrow> exporter_state \<Rightarrow> 'n world \<Rightarrow> exporter_state \<times> 'n world" where
  "retry_metrics env s w =
     (let (l, sm, w') = drain_retry_queue_once (ev_send env PERIODIC_SEND_BUDGET Metrics) (clock env) retry_buffer_depth
            (es_metrics s) (es_counters s) w
      in (s\<lparr>es_metrics := l, es_counters := sm\<rparr>, w'))"

definition fresh_logs :: "'n env \<Rightarrow> exporter_conf \<Rightarrow> exporter_state \<Rightarrow> 'n world \<Rightarrow> exporter_state \<times> 'n world" where
  "fresh_logs env cfg s w =
     (case take_logs env cfg s w of
        (None, s1, w1) \<Rightarrow> (s1, w1)
      | (Some pd, s1, w1) \<Rightarrow>
          (let (l, sm, w2) = send_fresh_batch (ev_send env PERIODIC_SEND_BUDGET) (clock env) (ev_encode env)
                 retry_buffer_depth pd (es_logs s1) (es_counters s1) w1
           in (s1\<lparr>es_logs := l, es_counters := sm\<rparr>, w2)))"

definition fresh_spans :: "'n env \<Rightarrow> exporter_conf \<Rightarrow> exporter_state \<Rightarrow> 'n world \<Rightarrow> exporter_state \<times> 'n world" where
  "fresh_spans env cfg s w =
     (case take_spans env cfg s w of
        (None, s1, w1) \<Rightarrow> (s1, w1)
      | (Some pd, s1, w1) \<Rightarrow>
          (let (l, sm, w2) = send_fresh_batch (ev_send env PERIODIC_SEND_BUDGET) (clock env) (ev_encode env)
                 retry_buffer_depth pd (es_spans s1) (es_counters s1) w1
           in (s1\<lparr>es_spans := l, es_counters := sm\<rparr>, w2)))"

section \<open>Graceful drain\<close>

text \<open>
  In a graceful drain every answer counts as a release. The history variables tell the answers apart:
  a collector that asked for a retry, or did not answer, has lost the batch.
\<close>

definition settled :: "DeliveryOutcome \<Rightarrow> u64 \<Rightarrow> self_metrics \<Rightarrow> self_metrics" where
  "settled outcome n sm =
     (case outcome of
        Accepted \<Rightarrow> released n sm
      | PartialReject _ \<Rightarrow> released n sm
      | Retryable _ \<Rightarrow> lost n sm
      | Permanent \<Rightarrow> refused n sm
      | Unauthorized \<Rightarrow> refused n sm)"

text \<open>The loop over one retry queue: one bounded attempt each, stop at the first failure.\<close>

fun flush_queue ::
  "(bytes \<Rightarrow> 'w \<Rightarrow> send_result \<times> 'w) \<Rightarrow> batch list \<Rightarrow> self_metrics \<Rightarrow> 'w \<Rightarrow> batch list \<times> self_metrics \<times> 'w" where
  "flush_queue send [] sm w = ([], sm, w)"
| "flush_queue send ((bytes, n) # q) sm w =
     (let (res, w1) = send bytes w
      in case res of
           SendOk outcome \<Rightarrow> flush_queue send q (settled outcome n sm) w1
         | SendErr e \<Rightarrow> (let (q', sm1) = account_drops_and_clear q (lost n sm) in (q', sm1, w1))
         | DeadlineExceeded \<Rightarrow> (let (q', sm1) = account_drops_and_clear q (lost n sm) in (q', sm1, w1)))"

definition flush_lane ::
  "'n env \<Rightarrow> OtlpSignal \<Rightarrow> lane \<Rightarrow> self_metrics \<Rightarrow> 'n world \<Rightarrow> lane \<times> self_metrics \<times> 'n world" where
  "flush_lane env sig l sm w =
     (let (q, sm', w') = flush_queue (ev_send env GRACEFUL_DRAIN_PER_ATTEMPT_BUDGET sig) (ln_queue l) sm w
      in (l\<lparr>ln_queue := q\<rparr>, sm', w'))"

definition send_final :: "'n env \<Rightarrow> Pdata \<Rightarrow> self_metrics \<Rightarrow> 'n world \<Rightarrow> self_metrics \<times> 'n world" where
  "send_final env pd sm w =
     (let n = count_pdata_records pd
      in if n = 0 then (sm, w)
         else
           let (res, w1) = ev_send env GRACEFUL_DRAIN_PER_ATTEMPT_BUDGET (pdata_signal pd) (ev_encode env pd) w
           in case res of
                SendOk outcome \<Rightarrow> (settled outcome n sm, w1)
              | SendErr _ \<Rightarrow> (lost n sm, w1)
              | DeadlineExceeded \<Rightarrow> (lost n sm, w1))"

definition drain_metrics :: "'n env \<Rightarrow> exporter_state \<Rightarrow> 'n world \<Rightarrow> exporter_state \<times> 'n world" where
  "drain_metrics env s w =
     (let (l, sm, w1) = flush_lane env Metrics (es_metrics s) (es_counters s) w;
          (pd, w2) = take_metrics env w1;
          (sm2, w3) = send_final env pd sm w2
      in (offer pd (s\<lparr>es_metrics := l, es_counters := sm2\<rparr>), w3))"

definition drain_final ::
  "'n env \<Rightarrow> Pdata option \<times> exporter_state \<times> 'n world \<Rightarrow> exporter_state \<times> 'n world" where
  "drain_final env taken =
     (case taken of
        (None, s, w) \<Rightarrow> (s, w)
      | (Some pd, s, w) \<Rightarrow>
          (let (sm, w1) = send_final env pd (es_counters s) w in (s\<lparr>es_counters := sm\<rparr>, w1)))"

definition graceful_drain ::
  "'n env \<Rightarrow> exporter_conf \<Rightarrow> u64 \<Rightarrow> exporter_state \<Rightarrow> 'n world \<Rightarrow> exporter_state \<times> 'n world" where
  "graceful_drain env cfg my_gen s w =
     (let has_successor = successor_announced (wd_ctrl w) my_gen;
          (s1, w1) = (if ec_metrics_enabled cfg then drain_metrics env s w else (s, w));
          (l, sm, w2) = flush_lane env Logs (es_logs s1) (es_counters s1) w1;
          s2 = s1\<lparr>es_logs := l, es_counters := sm\<rparr>;
          (s3, w3) = (if \<not> has_successor \<and> (ec_log_export cfg \<or> ec_error_log cfg)
                      then drain_final env (take_logs env cfg s2 w2) else (s2, w2));
          (l', sm', w4) = flush_lane env Traces (es_spans s3) (es_counters s3) w3;
          s4 = s3\<lparr>es_spans := l', es_counters := sm'\<rparr>
      in if \<not> has_successor then drain_final env (take_spans env cfg s4 w4) else (s4, w4))"

section \<open>What the environment keeps\<close>

definition env_keeps :: "('n world \<Rightarrow> bool) \<Rightarrow> 'n env \<Rightarrow> bool" where
  "env_keeps P env \<longleftrightarrow>
     (\<forall>b sig bytes w. P w \<longrightarrow> P (snd (ev_send env b sig bytes w))) \<and>
     (\<forall>ms w. P w \<longrightarrow> P (ev_sleep env ms w)) \<and>
     (\<forall>w. P w \<longrightarrow> P (snd (ev_collect_metrics env w)))"

lemma drain_batches_keeps:
  assumes "\<And>bytes w. P w \<Longrightarrow> P (snd (send bytes w))"
  shows "P w \<Longrightarrow> P (snd (snd (drain_batches send clk depth now failed snapshot l sm w)))"
proof (induction snapshot arbitrary: failed l sm w)
  case (Cons b snapshot)
  obtain bytes n where b: "b = (bytes, n)" by fastforce
  obtain res w1 where r: "send bytes w = (res, w1)" by fastforce
  have w1: "P w1"
    using assms [OF Cons.prems, of bytes] r by simp
  show ?case
  proof (cases failed)
    case True
    with Cons b show ?thesis
      by (simp add: case_prod_beta)
  next
    case False
    with Cons.IH w1 b r show ?thesis
      by (auto simp: Let_def case_prod_beta split: send_result.splits OutcomeAction.splits)
  qed
qed simp

lemma send_fresh_keeps:
  assumes "\<And>sig bytes w. P w \<Longrightarrow> P (snd (send sig bytes w))" "P w"
  shows "P (snd (snd (send_fresh_batch send clk enc depth pd l sm w)))"
  using assms(1) [of w "pdata_signal pd" "enc pd"] assms(2)
  by (auto simp: send_fresh_batch_def Let_def case_prod_beta split: send_result.splits)

lemma flush_queue_keeps:
  assumes "\<And>bytes w. P w \<Longrightarrow> P (snd (send bytes w))"
  shows "P w \<Longrightarrow> P (snd (snd (flush_queue send q sm w)))"
proof (induction q arbitrary: sm w)
  case (Cons b q)
  obtain bytes n where b: "b = (bytes, n)" by fastforce
  obtain res w1 where r: "send bytes w = (res, w1)" by fastforce
  have "P w1"
    using assms [OF Cons.prems, of bytes] r by simp
  with Cons.IH b r show ?case
    by (auto simp: Let_def case_prod_beta split: send_result.splits)
qed simp

section \<open>The balance of records\<close>

lemma requeue_lost: "sm_lost (snd (requeue b depth l sm)) = sm_lost sm"
  by (auto simp: requeue_def enqueue_with_eviction_def case_prod_beta split: list.splits)

lemma drain_batches_lost: "sm_lost (fst (snd (drain_batches send clk depth now failed snapshot l sm w))) = sm_lost sm"
proof (induction snapshot arbitrary: failed l sm w)
  case (Cons b snapshot)
  obtain bytes n where b: "b = (bytes, n)" by fastforce
  have out: "sm_lost (snd (snd (apply_delivery_outcome outcome now cur bo sm))) = sm_lost sm" for outcome cur bo sm
    using apply_outcome_frame(4) by (metis prod.collapse)
  show ?case
    using Cons.IH b
    by (cases failed)
      (auto simp: Let_def case_prod_beta requeue_lost out released_def refused_def split: send_result.splits OutcomeAction.splits)
qed simp

lemma send_fresh_lost: "sm_lost (fst (snd (send_fresh_batch send clk enc depth pd l sm w))) = sm_lost sm"
proof -
  have "sm_lost (snd (snd (apply_delivery_outcome outcome now cur bo sm))) = sm_lost sm" for outcome now cur bo
    using apply_outcome_frame(4) by (metis prod.collapse)
  then show ?thesis
    by (auto simp: send_fresh_batch_def handle_fresh_send_outcome_def Let_def case_prod_beta requeue_lost released_def
        refused_def split: send_result.splits OutcomeAction.splits)
qed

definition lane_balance :: "lane \<Rightarrow> self_metrics \<Rightarrow> u64" where
  "lane_balance l sm = accounted l sm + sm_lost sm"

lemma drain_once_balance:
  "drain_retry_queue_once send clk depth l sm w = (l', sm', w') \<Longrightarrow> lane_balance l' sm' = lane_balance l sm"
  using drain_once_accounted [of send clk depth l sm w l' sm' w']
    drain_batches_lost [of send clk depth "clk w" False "ln_queue l" "l\<lparr>ln_queue := []\<rparr>" sm w]
  by (auto simp: lane_balance_def drain_retry_queue_once_def)

lemma send_fresh_balance:
  "send_fresh_batch send clk enc depth pd l sm w = (l', sm', w') \<Longrightarrow>
     lane_balance l' sm' = lane_balance l sm + count_pdata_records pd"
  using send_fresh_accounted [of send clk enc depth pd l sm w l' sm' w']
    send_fresh_lost [of send clk enc depth pd l sm w]
  by (auto simp: lane_balance_def)

lemma settled_total:
  "sm_dropped_records (settled out n sm) + sm_released (settled out n sm) + sm_refused (settled out n sm) + sm_lost (settled out n sm)
     = sm_dropped_records sm + sm_released sm + sm_refused sm + sm_lost sm + n"
  by (cases out) (simp_all add: settled_def released_def refused_def lost_def)

definition counted :: "self_metrics \<Rightarrow> u64" where
  "counted sm = sm_dropped_records sm + sm_released sm + sm_refused sm + sm_lost sm"

lemma lane_balance_counted: "lane_balance l sm = queue_records (ln_queue l) + counted sm"
  by (simp add: lane_balance_def accounted_def counted_def)

lemma counted_simps [simp]:
  "counted (settled out n sm) = counted sm + n" "counted (lost n sm) = counted sm + n"
  by (simp_all add: counted_def settled_total lost_def)

lemma flush_queue_balance:
  "flush_queue send q sm w = (q', sm', w') \<Longrightarrow> q' = [] \<and> counted sm' = counted sm + queue_records q"
proof (induction q arbitrary: sm w)
  case (Cons b q)
  obtain bytes n where b: "b = (bytes, n)" by fastforce
  have clear: "account_drops_and_clear q sm1 = (q1, sm2) \<Longrightarrow> q1 = [] \<and> counted sm2 = counted sm1 + queue_records q"
    for sm1 q1 sm2
    by (auto simp: account_drops_and_clear_def counted_def Let_def word_gt_0 split: if_splits)
  show ?case
    using Cons clear b
    by (fastforce simp: queue_records_def Let_def split: prod.splits send_result.splits)
qed (simp add: queue_records_def)

lemma send_final_balance:
  "send_final env pd sm w = (sm', w') \<Longrightarrow> counted sm' = counted sm + count_pdata_records pd"
  by (auto simp: send_final_def Let_def split: prod.splits send_result.splits if_splits)

definition balance :: "exporter_state \<Rightarrow> u64" where
  "balance s = queue_records (ln_queue (es_metrics s)) + queue_records (ln_queue (es_logs s))
     + queue_records (ln_queue (es_spans s)) + counted (es_counters s) - es_offered s"

lemma retry_balance:
  "retry_logs env s w = (s', w') \<Longrightarrow> balance s' = balance s"
  "retry_spans env s w = (s', w') \<Longrightarrow> balance s' = balance s"
  "retry_metrics env s w = (s', w') \<Longrightarrow> balance s' = balance s"
  by (auto simp: retry_logs_def retry_spans_def retry_metrics_def balance_def lane_balance_counted
      dest!: drain_once_balance split: prod.splits)

lemma take_logs_balance:
  assumes "take_logs env cfg s w = (opd, s', w')"
  shows "es_offered s' = es_offered s + (case opd of Some pd \<Rightarrow> count_pdata_records pd | None \<Rightarrow> 0)"
    "es_counters s' = es_counters s" "es_metrics s' = es_metrics s" "es_logs s' = es_logs s" "es_spans s' = es_spans s"
    "es_abdicated s' = es_abdicated s" "wd_rest w' = wd_rest w" "wd_ctrl w' = wd_ctrl w"
  using assms by (auto simp: take_logs_def Let_def split: option.splits prod.splits)

lemma take_spans_balance:
  assumes "take_spans env cfg s w = (opd, s', w')"
  shows "es_offered s' = es_offered s + (case opd of Some pd \<Rightarrow> count_pdata_records pd | None \<Rightarrow> 0)"
    "es_counters s' = es_counters s" "es_metrics s' = es_metrics s" "es_logs s' = es_logs s" "es_spans s' = es_spans s"
    "es_abdicated s' = es_abdicated s" "wd_rest w' = wd_rest w" "wd_ctrl w' = wd_ctrl w"
  using assms by (auto simp: take_spans_def Let_def split: option.splits prod.splits)

lemma fresh_logs_balance:
  assumes "fresh_logs env cfg s w = (s', w')"
  shows "balance s' = balance s"
proof -
  obtain opd s1 w1 where t: "take_logs env cfg s w = (opd, s1, w1)" by (metis prod_cases3)
  show ?thesis
  proof (cases opd)
    case None
    with assms t take_logs_balance [OF t] show ?thesis
      by (simp add: fresh_logs_def balance_def)
  next
    case (Some pd)
    obtain l sm w2 where f: "send_fresh_batch (ev_send env PERIODIC_SEND_BUDGET) (clock env) (ev_encode env)
        retry_buffer_depth pd (es_logs s1) (es_counters s1) w1 = (l, sm, w2)" by (metis prod_cases3)
    with assms t Some have "s' = s1\<lparr>es_logs := l, es_counters := sm\<rparr>"
      by (simp add: fresh_logs_def)
    with send_fresh_balance [OF f] take_logs_balance [OF t] Some show ?thesis
      by (simp add: balance_def lane_balance_counted algebra_simps)
  qed
qed

lemma fresh_spans_balance:
  assumes "fresh_spans env cfg s w = (s', w')"
  shows "balance s' = balance s"
proof -
  obtain opd s1 w1 where t: "take_spans env cfg s w = (opd, s1, w1)" by (metis prod_cases3)
  show ?thesis
  proof (cases opd)
    case None
    with assms t take_spans_balance [OF t] show ?thesis
      by (simp add: fresh_spans_def balance_def)
  next
    case (Some pd)
    obtain l sm w2 where f: "send_fresh_batch (ev_send env PERIODIC_SEND_BUDGET) (clock env) (ev_encode env)
        retry_buffer_depth pd (es_spans s1) (es_counters s1) w1 = (l, sm, w2)" by (metis prod_cases3)
    with assms t Some have "s' = s1\<lparr>es_spans := l, es_counters := sm\<rparr>"
      by (simp add: fresh_spans_def)
    with send_fresh_balance [OF f] take_spans_balance [OF t] Some show ?thesis
      by (simp add: balance_def lane_balance_counted algebra_simps)
  qed
qed

lemma flush_lane_balance:
  "flush_lane env sig l sm w = (l', sm', w') \<Longrightarrow>
     ln_queue l' = [] \<and> counted sm' = counted sm + queue_records (ln_queue l)"
  by (auto simp: flush_lane_def dest: flush_queue_balance split: prod.splits)

lemma drain_metrics_balance:
  assumes "drain_metrics env s w = (s', w')"
  shows "balance s' = balance s" "ln_queue (es_metrics s') = []"
proof -
  obtain l sm w1 where f: "flush_lane env Metrics (es_metrics s) (es_counters s) w = (l, sm, w1)" by (metis prod_cases3)
  obtain pd w2 where t: "take_metrics env w1 = (pd, w2)" by fastforce
  obtain sm2 w3 where r: "send_final env pd sm w2 = (sm2, w3)" by fastforce
  have "s' = offer pd (s\<lparr>es_metrics := l, es_counters := sm2\<rparr>)"
    using assms f t r by (simp add: drain_metrics_def)
  with flush_lane_balance [OF f] send_final_balance [OF r]
  show "balance s' = balance s" "ln_queue (es_metrics s') = []"
    by (simp_all add: balance_def offer_def queue_records_def)
qed

lemma drain_final_balance:
  assumes "drain_final env (opd, s1, w1) = (s', w')"
    and "es_offered s1 = es_offered s + (case opd of Some pd \<Rightarrow> count_pdata_records pd | None \<Rightarrow> 0)"
    "es_counters s1 = es_counters s" "es_metrics s1 = es_metrics s" "es_logs s1 = es_logs s" "es_spans s1 = es_spans s"
  shows "balance s' = balance s" "es_metrics s' = es_metrics s" "es_logs s' = es_logs s" "es_spans s' = es_spans s"
  using assms
  by (auto simp: drain_final_def balance_def dest!: send_final_balance split: option.splits prod.splits)

lemma graceful_drain_balance:
  assumes "graceful_drain env cfg my_gen s w = (s', w')"
  shows "balance s' = balance s" "ln_queue (es_logs s') = []" "ln_queue (es_spans s') = []"
    "ec_metrics_enabled cfg \<Longrightarrow> ln_queue (es_metrics s') = []"
    "\<not> ec_metrics_enabled cfg \<Longrightarrow> es_metrics s' = es_metrics s"
proof -
  let ?succ = "successor_announced (wd_ctrl w) my_gen"
  obtain s1 w1 where m: "(if ec_metrics_enabled cfg then drain_metrics env s w else (s, w)) = (s1, w1)" by fastforce
  obtain l sm w2 where fl: "flush_lane env Logs (es_logs s1) (es_counters s1) w1 = (l, sm, w2)" by (metis prod_cases3)
  let ?s2 = "s1\<lparr>es_logs := l, es_counters := sm\<rparr>"
  obtain s3 w3 where dl: "(if \<not> ?succ \<and> (ec_log_export cfg \<or> ec_error_log cfg)
      then drain_final env (take_logs env cfg ?s2 w2) else (?s2, w2)) = (s3, w3)" by fastforce
  obtain l' sm' w4 where fs: "flush_lane env Traces (es_spans s3) (es_counters s3) w3 = (l', sm', w4)" by (metis prod_cases3)
  let ?s4 = "s3\<lparr>es_spans := l', es_counters := sm'\<rparr>"
  have last: "(if \<not> ?succ then drain_final env (take_spans env cfg ?s4 w4) else (?s4, w4)) = (s', w')"
    using assms unfolding graceful_drain_def Let_def m prod.case fl dl fs .
  have s1: "balance s1 = balance s" "ec_metrics_enabled cfg \<Longrightarrow> ln_queue (es_metrics s1) = []"
    "\<not> ec_metrics_enabled cfg \<Longrightarrow> es_metrics s1 = es_metrics s"
    using m drain_metrics_balance by (auto split: if_splits)
  have s2: "balance ?s2 = balance s1"
    using flush_lane_balance [OF fl] by (simp add: balance_def queue_records_def)
  obtain opd t u where tk: "take_logs env cfg ?s2 w2 = (opd, t, u)" by (metis prod_cases3)
  have s3: "balance s3 = balance ?s2" "es_metrics s3 = es_metrics ?s2" "es_logs s3 = es_logs ?s2" "es_spans s3 = es_spans ?s2"
    using dl tk drain_final_balance [of env opd t u s3 w3 ?s2] take_logs_balance [OF tk] by (auto split: if_splits)
  have s4: "balance ?s4 = balance s3"
    using flush_lane_balance [OF fs] by (simp add: balance_def queue_records_def)
  obtain opd t u where tk: "take_spans env cfg ?s4 w4 = (opd, t, u)" by (metis prod_cases3)
  have s5: "balance s' = balance ?s4" "es_metrics s' = es_metrics ?s4" "es_logs s' = es_logs ?s4" "es_spans s' = es_spans ?s4"
    using last tk drain_final_balance [of env opd t u s' w' ?s4] take_spans_balance [OF tk] by (auto split: if_splits)
  show "balance s' = balance s"
    using s1 s2 s3 s4 s5 by simp
  show "ln_queue (es_logs s') = []" "ln_queue (es_spans s') = []"
    using s3 s5 flush_lane_balance [OF fl] flush_lane_balance [OF fs] by simp_all
  show "ec_metrics_enabled cfg \<Longrightarrow> ln_queue (es_metrics s') = []"
    using s1 s3 s5 by simp
  show "\<not> ec_metrics_enabled cfg \<Longrightarrow> es_metrics s' = es_metrics s"
    using s1 s3 s5 by simp
qed

end
