(* ===== verification/Module_Lifecycle.thy ===== *)
theory Module_Lifecycle
  imports Post_Config Export_Pipeline
begin

text \<open>
  The module's hooks of \<^verbatim>\<open>src/src/lib.rs\<close>: the master's \<open>ngx_otel_init_module\<close>, which checks the zones,
  announces the successor of a running exporter and forks the new one; the workers' \<open>init_process\<close> and
  \<open>exit_process\<close>; and the variables \<open>$otel_trace_id\<close>, \<open>$otel_span_id\<close>, \<open>$otel_parent_id\<close> and
  \<open>$otel_parent_sampled\<close>. Process types, \<open>ngx_spawn_process\<close> and the pool are parameters.
\<close>

section \<open>Process identity\<close>

text \<open>nginx's global \<open>ngx_process\<close>, by the names of its constants; \<open>NGX_PROCESS_OTHER\<close> is every other value.\<close>

datatype process_type = NGX_PROCESS_SINGLE | NGX_PROCESS_MASTER | NGX_PROCESS_SIGNALLER | NGX_PROCESS_WORKER
  | NGX_PROCESS_HELPER | NGX_PROCESS_OTHER

datatype NgxProcess = Proc_Single | Proc_Master | Proc_Signaller | Proc_Worker u32 | Proc_Helper | Proc_Exporter

fun ngx_process :: "process_type \<Rightarrow> u32 \<Rightarrow> bool \<Rightarrow> NgxProcess" where
  "ngx_process NGX_PROCESS_SINGLE worker is_otel_exporter = Proc_Single"
| "ngx_process NGX_PROCESS_MASTER worker is_otel_exporter = Proc_Master"
| "ngx_process NGX_PROCESS_SIGNALLER worker is_otel_exporter = Proc_Signaller"
| "ngx_process NGX_PROCESS_WORKER worker is_otel_exporter = Proc_Worker worker"
| "ngx_process NGX_PROCESS_HELPER worker is_otel_exporter = (if is_otel_exporter then Proc_Exporter else Proc_Helper)"
| "ngx_process NGX_PROCESS_OTHER worker is_otel_exporter = Proc_Helper"

section \<open>The master's hook\<close>

datatype respawn = RESPAWN | JUST_RESPAWN

text \<open>
  What the hook reads of a cycle: the configuration with what \<open>postconfiguration\<close> filled in, the final worker count,
  whether there is an old cycle with a configuration, the core configuration's \<open>daemon\<close> flag with nginx's
  \<open>ngx_daemonized\<close> and \<open>ngx_inherited\<close>, and whether the fork succeeds. \<open>cy_zone_old_data\<close> says whether nginx hands
  the control zone's init callback the data of the old zone.
\<close>

record cycle_env =
  cy_process :: process_type
  cy_test_config :: bool
  cy_main_conf :: "(MainConfig \<times> post_config) option"
  cy_slab :: nat
  cy_control_size :: nat
  cy_zone_old_data :: bool
  cy_log_ring_cap :: nat
  cy_worker_processes :: "int option"
  cy_old_conf_ctx :: bool
  cy_daemon :: "bool option"
  cy_daemonized :: bool
  cy_inherited :: bool
  cy_spawn_ok :: bool

text \<open>
  A forked exporter and its \<open>my_gen\<close>, which it reads only when its export loop starts: \<open>None\<close> before that. The world
  has the mapped control zone, the recorded worker count, the exporters in the order of their forks, and the number of
  alerts logged.
\<close>

record exporter_process =
  ep_respawn :: respawn
  ep_my_gen :: "u64 option"

record master_world =
  ms_ctrl :: "ControlShm option"
  ms_n_active :: nat
  ms_exporters :: "exporter_process list"
  ms_alerts :: nat

definition is_pre_daemon_initial_start :: "cycle_env \<Rightarrow> bool" where
  "is_pre_daemon_initial_start cy =
     (case cy_daemon cy of
        None \<Rightarrow> False
      | Some daemon_flag \<Rightarrow> if \<not> daemon_flag then False else \<not> cy_daemonized cy \<and> \<not> cy_inherited cy)"

definition spawn_exporter_for_cycle :: "cycle_env \<Rightarrow> bool \<Rightarrow> master_world \<Rightarrow> bool \<times> master_world" where
  "spawn_exporter_for_cycle cy is_reload w =
     (let respawn_flag = (if is_reload then JUST_RESPAWN else RESPAWN)
      in if \<not> cy_spawn_ok cy then (False, w)
         else (True, w\<lparr>ms_exporters := ms_exporters w @ [\<lparr>ep_respawn = respawn_flag, ep_my_gen = None\<rparr>]\<rparr>))"

definition ngx_otel_init_module :: "cycle_env \<Rightarrow> master_world \<Rightarrow> bool \<times> master_world" where
  "ngx_otel_init_module cy w =
     (if cy_process cy \<noteq> NGX_PROCESS_MASTER \<and> cy_process cy \<noteq> NGX_PROCESS_SINGLE then (True, w)
      else if cy_test_config cy then (True, w)
      else case cy_main_conf cy of
             None \<Rightarrow> (True, w)
           | Some (amcf, pc) \<Rightarrow>
               if \<not> is_configured amcf then (True, w)
               else
                 case check_zone_sizing (cy_slab cy) (cy_log_ring_cap cy) (pc_zones pc) (cy_worker_processes cy) of
                   None \<Rightarrow> (False, w)
                 | Some n \<Rightarrow>
                     let w1 = w\<lparr>ms_n_active := n\<rparr>;
                         is_reload = cy_old_conf_ctx cy;
                         announced = is_reload \<and> pc_control_zone pc \<and> ms_ctrl w1 \<noteq> None;
                         w2 = (if announced then w1\<lparr>ms_ctrl := map_option announce_successor (ms_ctrl w1)\<rparr> else w1);
                         w3 = (if \<not> is_reload \<and> is_pre_daemon_initial_start cy then w2\<lparr>ms_alerts := ms_alerts w2 + 1\<rparr> else w2);
                         (ok, w4) = spawn_exporter_for_cycle cy is_reload w3
                     in (ok, if \<not> ok \<and> announced then w4\<lparr>ms_ctrl := map_option rollback_successor (ms_ctrl w4)\<rparr> else w4))"

section \<open>The life of the exporters\<close>

text \<open>
  What happens over time: nginx initialises a cycle (the control zone's callback, then the hook), an exporter's export
  loop starts and reads \<open>successor_gen\<close>, or the newest exporter crashes and is forked again. The hook is one step: the
  moment between announcing and rolling back is not split.
\<close>

datatype lifecycle_event = Init_Cycle cycle_env | Loop_Start nat | Newest_Crashes

definition snapshot_gen :: "ControlShm option \<Rightarrow> u64" where
  "snapshot_gen ctrl = (case ctrl of Some c \<Rightarrow> ctl_successor_gen c | None \<Rightarrow> 0)"

fun lifecycle_step :: "lifecycle_event \<Rightarrow> master_world \<Rightarrow> master_world" where
  "lifecycle_step (Init_Cycle cy) w =
     snd (ngx_otel_init_module cy
       (w\<lparr>ms_ctrl := map_option (control_shm_zone_init (cy_zone_old_data cy) (cy_control_size cy) (cy_slab cy)) (ms_ctrl w)\<rparr>))"
| "lifecycle_step (Loop_Start i) w =
     (if i < length (ms_exporters w)
      then w\<lparr>ms_exporters := (ms_exporters w)[i := (ms_exporters w ! i)\<lparr>ep_my_gen := Some (snapshot_gen (ms_ctrl w))\<rparr>]\<rparr>
      else w)"
| "lifecycle_step Newest_Crashes w =
     (if ms_exporters w = [] then w
      else w\<lparr>ms_exporters := butlast (ms_exporters w) @ [(last (ms_exporters w))\<lparr>ep_my_gen := None\<rparr>]\<rparr>)"

text \<open>An exporter pops the rings when its loop runs and it sees no successor.\<close>

definition owns_rings :: "master_world \<Rightarrow> exporter_process \<Rightarrow> bool" where
  "owns_rings w e = (case ep_my_gen e of None \<Rightarrow> False | Some g \<Rightarrow> \<not> successor_announced (ms_ctrl w) g)"

text \<open>
  Each exporter's loop starts once, and before the next cycle is initialised; every cycle is a reload over the same
  control zone, with a configuration that \<open>postconfiguration\<close> accepted.
\<close>

definition reload_accepted :: "post_env \<Rightarrow> cycle_env \<Rightarrow> bool" where
  "reload_accepted env cy =
     (cy_old_conf_ctx cy \<and> cy_zone_old_data cy \<and>
      (case cy_main_conf cy of None \<Rightarrow> True | Some (amcf, pc) \<Rightarrow> postconfiguration env amcf = Inr pc))"

fun prompt_run :: "post_env \<Rightarrow> lifecycle_event list \<Rightarrow> master_world \<Rightarrow> bool" where
  "prompt_run env [] w = True"
| "prompt_run env (e # es) w =
     ((case e of
         Init_Cycle cy \<Rightarrow> reload_accepted env cy \<and> list_all (\<lambda>x. ep_my_gen x \<noteq> None) (ms_exporters w)
       | Loop_Start i \<Rightarrow> i < length (ms_exporters w) \<and> ep_my_gen (ms_exporters w ! i) = None
       | Newest_Crashes \<Rightarrow> True) \<and>
      prompt_run env es (lifecycle_step e w))"

section \<open>The workers' hooks\<close>

text \<open>
  \<open>init_process\<close> of the production build: the error writer's nodes get the pointers into this worker's slots, and the
  trace generator is seeded; the flag says that the failure was logged. \<open>logs\<close> and \<open>metrics\<close> are the mapped zones.
\<close>

definition wire_worker ::
  "NgxProcess \<Rightarrow> MainConfig option \<Rightarrow> nat \<Rightarrow> worker_logs list option \<Rightarrow> WorkerSlots list option \<Rightarrow> log_node list \<Rightarrow> log_node list" where
  "wire_worker proc amcf worker_id logs metrics chain =
     (case amcf of
        None \<Rightarrow> chain
      | Some mc \<Rightarrow>
          if \<not> mc_error_log_enabled mc then chain
          else case proc of
                 Proc_Worker _ \<Rightarrow>
                   (case logs of
                      None \<Rightarrow> chain
                    | Some slots \<Rightarrow>
                        wire_error_writer_state True (Some (wl_coalesce (slots ! worker_id))) (Some (wl_error (slots ! worker_id)))
                          (map_option (\<lambda>ms. ws_error_rate_counters (ms ! worker_id)) metrics) (mc_error_log_coalesce mc) chain)
               | _ \<Rightarrow> chain)"

definition ngx_otel_init_process ::
  "('e \<Rightarrow> 'r option \<times> 'e) \<Rightarrow> NgxProcess \<Rightarrow> MainConfig option \<Rightarrow> nat \<Rightarrow> worker_logs list option \<Rightarrow> WorkerSlots list option \<Rightarrow>
     log_node list \<Rightarrow> ('r, 'e) worker_tls \<Rightarrow> log_node list \<times> ('r, 'e) worker_tls \<times> bool" where
  "ngx_otel_init_process seed proc amcf worker_id logs metrics chain tls =
     (let chain' = wire_worker proc amcf worker_id logs metrics chain
      in case proc of
           Proc_Worker _ \<Rightarrow> (let (ok, tls') = eager_seed_drbg seed tls in (chain', tls', \<not> ok))
         | _ \<Rightarrow> (chain', tls, False))"

definition ngx_otel_exit_process :: "bool \<Rightarrow> log_node list \<Rightarrow> log_node list" where
  "ngx_otel_exit_process cycle_is_null chain = (if \<not> cycle_is_null then set_cleanup_flag chain else chain)"

section \<open>Variables\<close>

record variable_value =
  vv_valid :: bool
  vv_no_cacheable :: bool
  vv_not_found :: bool
  vv_data :: bytes

definition hex_encode_into :: "bytes \<Rightarrow> bytes" where
  "hex_encode_into src = concat (map (\<lambda>b. [HEX ! unat (drop_bit 4 b), HEX ! unat (b AND 0xF)]) src)"

definition set_value :: "bytes \<Rightarrow> variable_value \<Rightarrow> variable_value" where
  "set_value d v = v\<lparr>vv_valid := True, vv_no_cacheable := True, vv_not_found := False, vv_data := d\<rparr>"

text \<open>The three identifier variables differ in the field they show; the buffer comes from the request's pool.\<close>

definition otel_var_get_id :: "(SpanCtx \<Rightarrow> bytes) \<Rightarrow> http_request \<Rightarrow> variable_value \<Rightarrow> variable_value \<times> http_request" where
  "otel_var_get_id field r v =
     (case recover_span_ctx r of
        (None, r1) \<Rightarrow> (v\<lparr>vv_not_found := True\<rparr>, r1)
      | (Some c, r1) \<Rightarrow>
          (case pool_alloc r1 of
             (False, r2) \<Rightarrow> (v\<lparr>vv_not_found := True\<rparr>, r2)
           | (True, r2) \<Rightarrow> (set_value (hex_encode_into (field c)) v, r2)))"

definition otel_var_get_trace_id :: "http_request \<Rightarrow> variable_value \<Rightarrow> variable_value \<times> http_request" where
  "otel_var_get_trace_id = otel_var_get_id sc_trace_id"

definition otel_var_get_span_id :: "http_request \<Rightarrow> variable_value \<Rightarrow> variable_value \<times> http_request" where
  "otel_var_get_span_id = otel_var_get_id sc_span_id"

definition otel_var_get_parent_id :: "http_request \<Rightarrow> variable_value \<Rightarrow> variable_value \<times> http_request" where
  "otel_var_get_parent_id = otel_var_get_id sc_parent_span_id"

definition otel_var_get_parent_sampled :: "http_request \<Rightarrow> variable_value \<Rightarrow> variable_value \<times> http_request" where
  "otel_var_get_parent_sampled r v =
     (case recover_span_ctx r of
        (None, r1) \<Rightarrow> (v\<lparr>vv_not_found := True\<rparr>, r1)
      | (Some c, r1) \<Rightarrow> (set_value (if sc_flags c AND 1 \<noteq> 0 then lit ''1'' else lit ''0'') v, r1))"

section \<open>Configuration hooks\<close>

text \<open>
  \<open>add_variable\<close> answers whether \<open>ngx_http_add_variable\<close> returned a variable, \<open>add_handler\<close> whether the phase handler
  could be added.
\<close>

datatype get_handler = Get_Trace_Id | Get_Span_Id | Get_Parent_Id | Get_Parent_Sampled

datatype phase_handler = SpanStartHandler | LogPhaseHandler

fun add_variables ::
  "(rust_string \<Rightarrow> bool) \<Rightarrow> (rust_string \<times> get_handler) list \<Rightarrow> (rust_string \<times> get_handler) list \<Rightarrow>
     bool \<times> (rust_string \<times> get_handler) list" where
  "add_variables add_variable [] vars = (True, vars)"
| "add_variables add_variable ((name, h) # rest) vars =
     (if \<not> add_variable name then (False, vars) else add_variables add_variable rest (vars @ [(name, h)]))"

definition preconfiguration :: "(rust_string \<Rightarrow> bool) \<Rightarrow> bool \<times> (rust_string \<times> get_handler) list" where
  "preconfiguration add_variable =
     add_variables add_variable
       [(lit ''otel_trace_id'', Get_Trace_Id), (lit ''otel_span_id'', Get_Span_Id), (lit ''otel_parent_id'', Get_Parent_Id),
        (lit ''otel_parent_sampled'', Get_Parent_Sampled)] []"

definition module_postconfiguration ::
  "post_env \<Rightarrow> (phase_handler \<Rightarrow> bool) \<Rightarrow> MainConfig \<Rightarrow> (post_config \<times> phase_handler list) option" where
  "module_postconfiguration env add_handler amcf =
     (case postconfiguration env amcf of
        Inl e \<Rightarrow> None
      | Inr pc \<Rightarrow>
          if is_configured amcf \<and> \<not> add_handler SpanStartHandler then None
          else if is_configured amcf \<and> \<not> add_handler LogPhaseHandler then None
          else Some (pc, if is_configured amcf then [SpanStartHandler, LogPhaseHandler] else []))"

section \<open>One owner of the rings\<close>

lemma configured_has_control_zone:
  assumes "postconfiguration env amcf = Inr pc" "is_configured amcf"
  shows "pc_control_zone pc"
proof -
  obtain pc1 pc2 where r: "wire_resolver env (xc_endpoint (mc_exporter amcf)) default_post_config = Inr pc1"
    and z: "register_all env amcf pc1 = Inr pc2" "pc_control_zone pc = pc_control_zone pc2"
    using postconfiguration_steps [OF assms] by blast
  show ?thesis
    using register_all_zones(2) [OF z(1) wired_zones(1) [OF r]] z(2) by simp
qed

text \<open>The hook on an accepted reload: nothing happens to the zone and the exporters, or one is forked and announced.\<close>

lemma init_module_reload:
  assumes "reload_accepted env cy" "ms_ctrl w = Some c" "ngx_otel_init_module cy w = (ok, w')"
  shows "(ms_ctrl w' = Some c \<and> ms_exporters w' = ms_exporters w) \<or>
    (ok \<and> ms_ctrl w' = Some (announce_successor c) \<and>
     ms_exporters w' = ms_exporters w @ [\<lparr>ep_respawn = JUST_RESPAWN, ep_my_gen = None\<rparr>])"
  using assms configured_has_control_zone [of env]
  by (auto simp: ngx_otel_init_module_def reload_accepted_def spawn_exporter_for_cycle_def Let_def announce_successor_def
      rollback_successor_def split: if_splits option.splits prod.splits)

lemma zone_init_keeps_gen: "ctl_successor_gen (control_shm_zone_init True sz off c) = ctl_successor_gen c"
  by (simp add: control_shm_zone_init_def)

definition one_owner :: "nat \<Rightarrow> master_world \<Rightarrow> bool" where
  "one_owner k w =
     (case ms_ctrl w of
        None \<Rightarrow> False
      | Some c \<Rightarrow> unat (ctl_successor_gen c) + k < 2 ^ 64 \<and> ms_exporters w \<noteq> [] \<and>
          (\<forall>e\<in>set (butlast (ms_exporters w)). \<exists>g. ep_my_gen e = Some g \<and> g < ctl_successor_gen c) \<and>
          (ep_my_gen (last (ms_exporters w)) = None \<or> ep_my_gen (last (ms_exporters w)) = Some (ctl_successor_gen c)))"

lemma gen_below_next:
  fixes g :: u64
  assumes "unat g + Suc k < 2 ^ 64"
  shows "g < g + 1" "unat (g + 1) = unat g + 1"
proof -
  show "unat (g + 1) = unat g + 1"
    using assms by (simp add: unat_word_ariths)
  then show "g < g + 1"
    by (simp add: word_less_nat_alt)
qed

lemma one_owner_init:
  assumes "one_owner (Suc k) w" "reload_accepted env cy" "list_all (\<lambda>x. ep_my_gen x \<noteq> None) (ms_exporters w)"
  shows "one_owner k (lifecycle_step (Init_Cycle cy) w)"
proof -
  obtain c where c: "ms_ctrl w = Some c" "unat (ctl_successor_gen c) + Suc k < 2 ^ 64" "ms_exporters w \<noteq> []"
    "\<forall>e\<in>set (butlast (ms_exporters w)). \<exists>g. ep_my_gen e = Some g \<and> g < ctl_successor_gen c"
    "ep_my_gen (last (ms_exporters w)) = None \<or> ep_my_gen (last (ms_exporters w)) = Some (ctl_successor_gen c)"
    using assms(1) by (auto simp: one_owner_def split: option.splits)
  let ?c = "control_shm_zone_init (cy_zone_old_data cy) (cy_control_size cy) (cy_slab cy) c"
  let ?w = "w\<lparr>ms_ctrl := Some ?c\<rparr>"
  have gen: "ctl_successor_gen ?c = ctl_successor_gen c"
    using assms(2) by (simp add: reload_accepted_def zone_init_keeps_gen)
  obtain ok w' where i: "ngx_otel_init_module cy ?w = (ok, w')"
    by fastforce
  have step: "lifecycle_step (Init_Cycle cy) w = w'"
    using i c(1) by simp
  have last: "ep_my_gen (last (ms_exporters w)) = Some (ctl_successor_gen c)"
    using assms(3) c(5) last_in_set [OF c(3)] by (fastforce simp: list_all_iff)
  obtain ys y where ys: "ms_exporters w = ys @ [y]"
    using c(3) by (cases "ms_exporters w" rule: rev_cases) auto
  have old: "\<exists>g. ep_my_gen e = Some g \<and> g < ctl_successor_gen c + 1" if e: "e \<in> set (ms_exporters w)" for e
  proof (cases "e = y")
    case True
    then show ?thesis using last ys gen_below_next(1) [OF c(2)] by simp
  next
    case False
    with e ys have "e \<in> set ys" by simp
    with c(4) ys obtain g where "ep_my_gen e = Some g" "g < ctl_successor_gen c" by auto
    then show ?thesis using order.strict_trans [OF _ gen_below_next(1) [OF c(2)]] by blast
  qed
  consider "ms_ctrl w' = Some ?c" "ms_exporters w' = ms_exporters w"
    | "ms_ctrl w' = Some (announce_successor ?c)"
      "ms_exporters w' = ms_exporters w @ [\<lparr>ep_respawn = JUST_RESPAWN, ep_my_gen = None\<rparr>]"
    using init_module_reload [OF assms(2) _ i, of ?c] by auto
  then show ?thesis
  proof cases
    case 1
    then show ?thesis unfolding step one_owner_def using c(2-5) by (simp only: option.case gen) simp
  next
    case 2
    have "unat (ctl_successor_gen c + 1) + k < 2 ^ 64"
      using gen_below_next(2) [OF c(2)] c(2) by linarith
    moreover have "\<forall>e\<in>set (ms_exporters w). \<exists>g. ep_my_gen e = Some g \<and> g < ctl_successor_gen c + 1"
      using old by (intro ballI)
    moreover have "ctl_successor_gen (announce_successor ?c) = ctl_successor_gen c + 1"
      using gen by (simp add: announce_successor_def)
    ultimately show ?thesis
      unfolding step one_owner_def 2 option.case by simp
  qed
qed

lemma one_owner_step:
  assumes "one_owner (Suc k) w" "prompt_run env (e # es) w"
  shows "one_owner k (lifecycle_step e w)"
proof (cases e)
  case (Init_Cycle cy)
  show ?thesis
    unfolding Init_Cycle using assms(2) Init_Cycle by (intro one_owner_init [OF assms(1), of env]) (simp_all del: lifecycle_step.simps)
next
  case (Loop_Start i)
  then have i: "i < length (ms_exporters w)" "ep_my_gen (ms_exporters w ! i) = None"
    using assms(2) by simp_all
  have "i = length (ms_exporters w) - 1"
  proof (rule ccontr)
    assume "i \<noteq> length (ms_exporters w) - 1"
    then have "i < length (butlast (ms_exporters w))" using i(1) by simp
    then have "ms_exporters w ! i \<in> set (butlast (ms_exporters w))" by (metis nth_butlast nth_mem)
    then show False using assms(1) i(2) by (auto simp: one_owner_def split: option.splits)
  qed
  moreover have "ms_exporters w \<noteq> []"
    using i(1) by auto
  ultimately show ?thesis
    using assms(1) i(1)
    by (simp add: Loop_Start one_owner_def snapshot_gen_def butlast_list_update last_list_update split: option.splits)
next
  case Newest_Crashes
  then show ?thesis using assms(1) by (auto simp: one_owner_def split: option.splits)
qed

lemma one_owner_run:
  "one_owner (length es + k) w \<Longrightarrow> prompt_run env es w \<Longrightarrow> one_owner k (fold lifecycle_step es w)"
proof (induction es arbitrary: w)
  case (Cons e es)
  have "one_owner (length es + k) (lifecycle_step e w)"
    using Cons.prems one_owner_step [of "length es + k" w env e es] by simp
  then show ?case
    using Cons.IH Cons.prems(2) by simp
qed simp

lemma one_owner_owns:
  assumes "one_owner k w"
  shows "filter (owns_rings w) (ms_exporters w) =
    (if ep_my_gen (last (ms_exporters w)) = None then [] else [last (ms_exporters w)])"
proof -
  obtain c where c: "ms_ctrl w = Some c" "ms_exporters w \<noteq> []"
    "\<forall>e\<in>set (butlast (ms_exporters w)). \<exists>g. ep_my_gen e = Some g \<and> g < ctl_successor_gen c"
    "ep_my_gen (last (ms_exporters w)) = None \<or> ep_my_gen (last (ms_exporters w)) = Some (ctl_successor_gen c)"
    using assms by (auto simp: one_owner_def split: option.splits)
  have "filter (owns_rings w) (butlast (ms_exporters w)) = []"
    using c(1,3) by (fastforce simp: filter_empty_conv owns_rings_def successor_announced_def)
  moreover have "ms_exporters w = butlast (ms_exporters w) @ [last (ms_exporters w)]"
    using c(2) by simp
  ultimately have "filter (owns_rings w) (ms_exporters w) = filter (owns_rings w) [last (ms_exporters w)]"
    by (metis append_Nil filter_append)
  then show ?thesis
    using c(1,4) by (auto simp: owns_rings_def successor_announced_def)
qed


definition demo_post_config :: post_config where
  "demo_post_config = (case postconfiguration demo_post_env demo_main_config of Inl _ \<Rightarrow> default_post_config | Inr pc \<Rightarrow> pc)"

definition demo_reload :: "bool \<Rightarrow> cycle_env" where
  "demo_reload spawn_ok =
     \<lparr>cy_process = NGX_PROCESS_MASTER, cy_test_config = False, cy_main_conf = Some (demo_main_config, demo_post_config),
      cy_slab = 4096, cy_control_size = 65536, cy_zone_old_data = True, cy_log_ring_cap = 1024,
      cy_worker_processes = Some 2, cy_old_conf_ctx = True, cy_daemon = Some True, cy_daemonized = True,
      cy_inherited = False, cy_spawn_ok = spawn_ok\<rparr>"

definition demo_world :: master_world where
  "demo_world =
     \<lparr>ms_ctrl = Some zeroed_control, ms_n_active = 2, ms_exporters = [\<lparr>ep_respawn = RESPAWN, ep_my_gen = None\<rparr>], ms_alerts = 0\<rparr>"

lemma demo_configured: "is_configured demo_main_config"
  by (simp add: demo_main_config_def is_configured_def exporter_is_set_def default_exporter_config_def lit_def)

lemma demo_post_accepted: "postconfiguration demo_post_env demo_main_config = Inr demo_post_config"
proof -
  have "validate_endpoint_tls (tls_input (mc_exporter demo_main_config)) (pv_file_exists demo_post_env) = Inr False"
    by (simp add: demo_main_config_def tls_input_def default_exporter_config_def str_or_empty_def utf8_valid.simps
        utf8_step_def utf8_char_width_def validate_endpoint_tls_def starts_with_def ssl_verify_off_def UNSET_FLAG_def lit_def)
  moreover have "\<not> endpoint_needs_resolver (pv_is_ip demo_post_env) (xc_endpoint (mc_exporter demo_main_config))"
    by (simp add: demo_main_config_def endpoint_needs_resolver_def starts_with_def lit_def)
  ultimately obtain pc where "postconfiguration demo_post_env demo_main_config = Inr pc"
    using register_all_total [of demo_post_env demo_main_config default_post_config] demo_configured
    by (auto simp: postconfiguration_def wire_resolver_def andthen_def demo_post_env_def)
  then show ?thesis
    by (simp add: demo_post_config_def)
qed

lemma demo_zones_fit: "check_zone_sizing 4096 1024 (pc_zones demo_post_config) (Some 2) = Some 2"
proof -
  obtain pc1 pc2 where r: "wire_resolver demo_post_env (xc_endpoint (mc_exporter demo_main_config)) default_post_config = Inr pc1"
    and z: "register_all demo_post_env demo_main_config pc1 = Inr pc2" "pc_zones demo_post_config = pc_zones pc2"
    using postconfiguration_steps [OF demo_post_accepted demo_configured] by blast
  show ?thesis
    unfolding z(2) register_all_zones(1) [OF z(1) wired_zones(1) [OF r]]
    by (simp add: demo_post_env_def n_workers_from_cf_def n_workers_to_reserve_def registered_zones_fit)
qed

lemma demo_reload_step:
  assumes "ms_ctrl w = Some c"
  shows "lifecycle_step (Init_Cycle (demo_reload ok)) w =
    (let c' = c\<lparr>ctl_crash_count := 0, ctl_window_start_unix := 0\<rparr>
     in if ok then w\<lparr>ms_ctrl := Some (announce_successor c'), ms_n_active := 2,
          ms_exporters := ms_exporters w @ [\<lparr>ep_respawn = JUST_RESPAWN, ep_my_gen = None\<rparr>]\<rparr>
        else w\<lparr>ms_ctrl := Some c', ms_n_active := 2\<rparr>)"
  using assms configured_has_control_zone [OF demo_post_accepted demo_configured]
  by (simp add: ngx_otel_init_module_def demo_reload_def demo_configured demo_zones_fit control_shm_zone_init_def
      RELOAD_WRITE_EXTENT_def spawn_exporter_for_cycle_def announce_successor_def rollback_successor_def Let_def)

lemma demo_reload_accepted: "reload_accepted demo_post_env (demo_reload ok)"
  by (simp add: reload_accepted_def demo_reload_def demo_post_accepted)

lemmas lifecycle_demo = demo_reload_step demo_reload_accepted demo_world_def zeroed_control_def snapshot_gen_def Let_def announce_successor_def


text \<open>
  The hypothesis on the start of the loops is needed: an exporter that still waits, for instance in the crash backoff
  before its loop, when a reload is announced reads the new generation as its own, and two exporters own the rings.
\<close>

lemma late_loop_start_two_owners:
  "let w' = fold lifecycle_step [Init_Cycle (demo_reload True), Loop_Start 0, Loop_Start 1] demo_world
   in length (filter (owns_rings w') (ms_exporters w')) = 2"
  by (simp add: lifecycle_demo owns_rings_def successor_announced_def del: lifecycle_step.simps(1))

section \<open>The variables show the span\<close>

lemma hex_encode_into_slice_eq: "hex_encode_into = hex_encode_into_slice"
  unfolding hex_encode_into_def [abs_def] hex_encode_into_slice_def [abs_def] by (rule refl)

lemma recover_keeps_pool: "rq_pool (snd (recover_span_ctx q)) = rq_pool q"
  by (simp add: recover_span_ctx_def set_module_ctx_def split: option.splits list.splits)

lemma var_get_id:
  assumes "fst (recover_span_ctx q) = Some c" "rq_pool q = []"
  shows "fst (otel_var_get_id field q v) = set_value (hex_encode_into_slice (field c)) v"
proof -
  obtain q1 where q1: "recover_span_ctx q = (Some c, q1)" "rq_pool q1 = []"
    using assms recover_keeps_pool [of q] by (cases "recover_span_ctx q") simp
  then show ?thesis
    by (simp add: otel_var_get_id_def pool_alloc_def hex_encode_into_slice_eq)
qed

lemma var_not_found:
  assumes "fst (recover_span_ctx q) = None"
  shows "vv_not_found (fst (otel_var_get_id field q v))" "vv_not_found (fst (otel_var_get_parent_sampled q v))"
  using assms by (auto simp: otel_var_get_id_def otel_var_get_parent_sampled_def split: prod.splits)

lemma var_sampled:
  assumes "fst (recover_span_ctx q) = Some c"
  shows "fst (otel_var_get_parent_sampled q v) = set_value (if sc_flags c AND 1 \<noteq> 0 then lit ''1'' else lit ''0'') v"
  using assms by (auto simp: otel_var_get_parent_sampled_def split: prod.splits)

lemmas id_variables = otel_var_get_trace_id_def otel_var_get_span_id_def otel_var_get_parent_id_def

lemma ctx_for_facts:
  assumes "ctx_for inbound now c"
  shows "length (sc_trace_id c) = 16" "length (sc_span_id c) = 8" "sc_sampled c \<longleftrightarrow> sc_flags c AND 1 \<noteq> 0"
  using assms by (auto simp: ctx_for_def split: option.splits)

text \<open>
  C36. The variables show the request's span, before and after an internal redirect, when the pool's allocations succeed:
  \<open>$otel_trace_id\<close> and \<open>$otel_span_id\<close> are the 32 and 16 hex digits that stand in the \<open>traceparent\<close> value built for the
  upstream, \<open>$otel_parent_id\<close> decodes to the parent's id, and \<open>$otel_parent_sampled\<close> is \<open>1\<close> exactly when the span is
  sampled. A request whose span did not start has none of the four.
\<close>

theorem variables_show_span:
  assumes "rq_ctx r = None" "rq_anchors r = []"
    and "span_start_handler next_u64 seed hdr_iter cv_eval amcf lc now r w = (r', w')" "rq_pool r' = []"
    and "q = r' \<or> q = r'\<lparr>rq_ctx := None, rq_internal := True\<rparr>"
  shows "let t = fst (otel_var_get_trace_id q v); s = fst (otel_var_get_span_id q v);
             p = fst (otel_var_get_parent_id q v); f = fst (otel_var_get_parent_sampled q v)
    in case rq_ctx r' of
         None \<Rightarrow> vv_not_found t \<and> vv_not_found s \<and> vv_not_found p \<and> vv_not_found f
       | Some c \<Rightarrow>
           \<not> vv_not_found t \<and> \<not> vv_not_found s \<and> \<not> vv_not_found p \<and> \<not> vv_not_found f \<and>
           length (vv_data t) = 32 \<and> length (vv_data s) = 16 \<and>
           build_traceparent_value (sc_trace_id c) (sc_span_id c) fl =
             lit ''00-'' @ vv_data t @ lit ''-'' @ vv_data s @ lit ''-'' @ hex_encode_into [fl] \<and>
           decode_hex_pairs (length (sc_parent_span_id c)) (vv_data p) = Some (sc_parent_span_id c) \<and>
           vv_data f = (if sc_sampled c then lit ''1'' else lit ''0'')"
proof -
  have "rq_anchors r' = (case rq_ctx r' of Some c \<Rightarrow> [c] | None \<Rightarrow> []) \<and>
      (\<forall>c. rq_ctx r' = Some c \<longrightarrow> (\<exists>inb. ctx_for inb now c))"
    using assms(3,1)
  proof (cases rule: handler_cases)
    case (started conf' c r1)
    with assms(2) show ?thesis by auto
  qed (use assms(2) in auto)
  then have rec: "fst (recover_span_ctx q) = rq_ctx r'" and ctx: "\<And>c. rq_ctx r' = Some c \<Longrightarrow> \<exists>inb. ctx_for inb now c"
    using assms(5) by (auto simp: recover_span_ctx_def set_module_ctx_def split: option.splits)
  have pool: "rq_pool q = []"
    using assms(4,5) by auto
  show ?thesis
  proof (cases "rq_ctx r'")
    case None
    then show ?thesis
      using rec by (simp add: id_variables var_not_found Let_def)
  next
    case (Some c)
    then obtain inb where "ctx_for inb now c"
      using ctx by blast
    note facts = ctx_for_facts [OF this]
    show ?thesis
      using rec Some facts pool
      by (simp add: id_variables var_get_id var_sampled set_value_def decode_hex_encode build_traceparent_value_def
          hex_encode_into_slice_eq lit_def Let_def)
  qed
qed

definition blank_value :: variable_value where
  "blank_value = \<lparr>vv_valid = False, vv_no_cacheable = False, vv_not_found = False, vv_data = []\<rparr>"

theorem variables_show_span_witness:
  "let q = (fst demo_run)\<lparr>rq_ctx := None, rq_internal := True\<rparr>
   in length (vv_data (fst (otel_var_get_trace_id q blank_value))) = 32 \<and>
      vv_data (fst (otel_var_get_parent_sampled q blank_value)) = lit ''1''"
proof -
  have pool: "rq_pool (fst demo_run) = []"
    by code_simp
  show ?thesis
    using variables_show_span [OF demo_request_simps(1,2) demo_run_eq pool disjI2 [OF refl], of blank_value 0]
    unfolding Let_def demo_run_ctx option.case SpanCtx.simps if_True by (elim conjE) (intro conjI)
qed

end
