(* ===== verification/Ip_Address.thy ===== *)
theory Ip_Address
  imports Endpoint
begin

text \<open>
  The address parser the connector, the TLS layer and the configuration call through
  \<open>str::parse::<std::net::IpAddr>\<close>: the standard library's recursive-descent parser over the bytes of the text. Numbers
  have at most three decimal digits without a leading zero, or four hexadecimal ones; an IPv6 address may contain one
  \<open>::\<close> and end in a dotted IPv4 part. Shown: an accepted address is four octets or eight groups, each within its range, so that it has
  4 or 16 bytes in network order.
\<close>

section \<open>Numbers\<close>

datatype IpAddr = V4 "nat list" | V6 "nat list"

definition COLON_BYTE :: u8 where "COLON_BYTE = 0x3A"
definition DOT_BYTE :: u8 where "DOT_BYTE = 0x2E"

definition to_digit :: "nat \<Rightarrow> u8 \<Rightarrow> nat option" where
  "to_digit radix c =
     (let d = (if 0x30 \<le> c \<and> c \<le> 0x39 then unat c - 0x30
               else if 0x61 \<le> c \<and> c \<le> 0x7A then unat c - 0x61 + 10
               else if 0x41 \<le> c \<and> c \<le> 0x5A then unat c - 0x41 + 10
               else 36)
      in if d < radix then Some d else None)"

fun read_digits :: "nat \<Rightarrow> nat \<Rightarrow> bytes \<Rightarrow> nat \<Rightarrow> nat \<Rightarrow> (nat \<times> nat \<times> bytes) option" where
  "read_digits radix max_digits [] digit_count result = Some (digit_count, result, [])"
| "read_digits radix max_digits (c # s) digit_count result =
     (case to_digit radix c of
        None \<Rightarrow> Some (digit_count, result, c # s)
      | Some d \<Rightarrow>
          if digit_count + 1 > max_digits then None
          else read_digits radix max_digits s (digit_count + 1) (result * radix + d))"

definition read_number :: "nat \<Rightarrow> nat \<Rightarrow> bool \<Rightarrow> nat \<Rightarrow> bytes \<Rightarrow> (nat \<times> bytes) option" where
  "read_number radix max_digits allow_zero_prefix bound s =
     (case read_digits radix max_digits s 0 0 of
        None \<Rightarrow> None
      | Some (digit_count, result, rest) \<Rightarrow>
          if digit_count = 0 then None
          else if \<not> allow_zero_prefix \<and> hd s = 0x30 \<and> digit_count > 1 then None
          else if result < bound then Some (result, rest) else None)"

definition read_separator :: "u8 \<Rightarrow> nat \<Rightarrow> (bytes \<Rightarrow> ('a \<times> bytes) option) \<Rightarrow> bytes \<Rightarrow> ('a \<times> bytes) option" where
  "read_separator sep index inner s =
     (if index > 0 then (case s of c # s' \<Rightarrow> if c = sep then inner s' else None | [] \<Rightarrow> None) else inner s)"

section \<open>Addresses\<close>

fun read_octets :: "nat \<Rightarrow> nat \<Rightarrow> bytes \<Rightarrow> nat list \<Rightarrow> (nat list \<times> bytes) option" where
  "read_octets 0 i s acc = Some (acc, s)"
| "read_octets (Suc m) i s acc =
     (case read_separator DOT_BYTE i (read_number 10 3 False 256) s of
        None \<Rightarrow> None
      | Some (v, s') \<Rightarrow> read_octets m (i + 1) s' (acc @ [v]))"

definition read_ipv4_addr :: "bytes \<Rightarrow> (nat list \<times> bytes) option" where
  "read_ipv4_addr s = read_octets 4 0 s []"

text \<open>\<open>read_groups\<close> with the number of groups that still fit: an IPv4 tail needs two.\<close>

fun read_groups :: "nat \<Rightarrow> nat \<Rightarrow> bytes \<Rightarrow> nat list \<Rightarrow> nat list \<times> bool \<times> bytes" where
  "read_groups 0 i s acc = (acc, False, s)"
| "read_groups (Suc m) i s acc =
     (case (if m > 0 then read_separator COLON_BYTE i read_ipv4_addr s else None) of
        Some (q, s') \<Rightarrow> (acc @ [q ! 0 * 256 + q ! 1, q ! 2 * 256 + q ! 3], True, s')
      | None \<Rightarrow>
          (case read_separator COLON_BYTE i (read_number 16 4 True 65536) s of
            Some (v, s') \<Rightarrow> read_groups m (i + 1) s' (acc @ [v])
          | None \<Rightarrow> (acc, False, s)))"

definition read_ipv6_addr :: "bytes \<Rightarrow> (nat list \<times> bytes) option" where
  "read_ipv6_addr s =
     (let (head, head_ipv4, s1) = read_groups 8 0 s []
      in if length head = 8 then Some (head, s1)
         else if head_ipv4 then None
         else case s1 of
                c # d # s2 \<Rightarrow>
                  if c = COLON_BYTE \<and> d = COLON_BYTE
                  then let (tail, _, s3) = read_groups (8 - (length head + 1)) 0 s2 []
                       in Some (head @ replicate (8 - length head - length tail) 0 @ tail, s3)
                  else None
              | _ \<Rightarrow> None)"

definition parse_ip :: "rust_string \<Rightarrow> IpAddr option" where
  "parse_ip s =
     (case read_ipv4_addr s of
        Some (v, rest) \<Rightarrow> if rest = [] then Some (V4 v) else None
      | None \<Rightarrow> (case read_ipv6_addr s of Some (v, rest) \<Rightarrow> if rest = [] then Some (V6 v) else None | None \<Rightarrow> None))"

text \<open>The address in network order.\<close>

fun octets :: "IpAddr \<Rightarrow> bytes" where
  "octets (V4 v) = map of_nat v"
| "octets (V6 v) = concat (map (\<lambda>g. [of_nat (g div 256), of_nat (g mod 256)]) v)"

section \<open>Shape\<close>

lemma read_number_bound: "read_number radix n z bound s = Some (v, rest) \<Longrightarrow> v < bound"
  by (auto simp: read_number_def split: option.splits if_splits)

lemma read_separator_SomeD: "read_separator sep i inner s = Some r \<Longrightarrow> \<exists>s'. inner s' = Some r"
  by (auto simp: read_separator_def split: if_splits list.splits)

lemma read_octets_shape:
  "read_octets m i s acc = Some (v, rest) \<Longrightarrow> \<forall>x\<in>set acc. x < 256 \<Longrightarrow> length v = length acc + m \<and> (\<forall>x\<in>set v. x < 256)"
proof (induction m arbitrary: i s acc)
  case (Suc m)
  then obtain x s' where x: "read_separator DOT_BYTE i (read_number 10 3 False 256) s = Some (x, s')"
    "read_octets m (i + 1) s' (acc @ [x]) = Some (v, rest)"
    by (auto split: option.splits)
  then have "x < 256"
    using read_separator_SomeD read_number_bound by metis
  with Suc.IH [OF x(2)] Suc.prems(2) show ?case
    by simp
qed simp

lemma read_ipv4_shape: "read_ipv4_addr s = Some (v, rest) \<Longrightarrow> length v = 4 \<and> (\<forall>x\<in>set v. x < 256)"
  using read_octets_shape [of 4 0 s "[]"] by (simp add: read_ipv4_addr_def)

lemma read_groups_shape:
  "read_groups m i s acc = (v, four, rest) \<Longrightarrow> \<forall>x\<in>set acc. x < 65536 \<Longrightarrow>
     length v \<le> length acc + m \<and> (\<forall>x\<in>set v. x < 65536)"
proof (induction m arbitrary: i s acc)
  case (Suc m)
  let ?four = "if m > 0 then read_separator COLON_BYTE i read_ipv4_addr s else None"
  let ?num = "read_separator COLON_BYTE i (read_number 16 4 True 65536) s"
  show ?case
  proof (cases ?four)
    case (Some r)
    obtain q s' where r: "r = (q, s')" by fastforce
    have m: "m > 0"
      using Some by (cases m) simp_all
    then have "read_separator COLON_BYTE i read_ipv4_addr s = Some (q, s')"
      using Some r by simp
    then obtain t where "read_ipv4_addr t = Some (q, s')"
      using read_separator_SomeD by blast
    from read_ipv4_shape [OF this] have q: "q ! k < 256" if "k < 4" for k
      using that by simp
    have "q ! 0 * 256 + q ! 1 < 65536" "q ! 2 * 256 + q ! 3 < 65536"
      using q [of 0] q [of 1] q [of 2] q [of 3] by linarith+
    moreover have "v = acc @ [q ! 0 * 256 + q ! 1, q ! 2 * 256 + q ! 3]"
      using Suc.prems(1) Some r by (simp only: read_groups.simps option.case prod.case prod.inject)
    ultimately have "length v = length acc + 2" "\<forall>x\<in>set v. x < 65536"
      using Suc.prems(2) by (simp_all del: One_nat_def)
    with m show ?thesis
      by linarith
  next
    case None
    show ?thesis
    proof (cases ?num)
      case (Some r)
      obtain x s' where r: "r = (x, s')" by fastforce
      have rest: "read_groups m (i + 1) s' (acc @ [x]) = (v, four, rest)"
        using Suc.prems(1) None Some r by (simp only: read_groups.simps option.case prod.case)
      have "x < 65536"
        using Some r read_separator_SomeD read_number_bound by metis
      then have "\<forall>y\<in>set (acc @ [x]). y < 65536"
        using Suc.prems(2) by simp
      from Suc.IH [OF rest this] show ?thesis
        by (auto simp only: length_append list.size add_Suc_right add_Suc add_0_right)
    next
      case none: None
      then have "v = acc"
        using Suc.prems(1) None by (simp only: read_groups.simps option.case prod.inject)
      then show ?thesis
        using Suc.prems(2) by simp
    qed
  qed
qed simp

lemma read_ipv6_shape:
  assumes "read_ipv6_addr s = Some (v, rest)"
  shows "length v = 8 \<and> (\<forall>x\<in>set v. x < 65536)"
proof -
  obtain head four s1 where h: "read_groups 8 0 s [] = (head, four, s1)"
    by (metis prod_cases3)
  have hs: "length head \<le> 8" "\<forall>x\<in>set head. x < 65536"
    using read_groups_shape [OF h] by simp_all
  show ?thesis
  proof (cases "length head = 8")
    case True
    then show ?thesis using assms h hs by (simp add: read_ipv6_addr_def)
  next
    case False
    then obtain c d s2 where s1: "s1 = c # d # s2"
      using assms h by (auto simp: read_ipv6_addr_def split: if_splits list.splits)
    obtain tail f s3 where t: "read_groups (8 - (length head + 1)) 0 s2 [] = (tail, f, s3)"
      by (metis prod_cases3)
    have ts: "length tail \<le> 8 - (length head + 1)" "\<forall>x\<in>set tail. x < 65536"
      using read_groups_shape [OF t] by simp_all
    have "v = head @ replicate (8 - length head - length tail) 0 @ tail"
      using assms h s1 t False by (simp add: read_ipv6_addr_def split: if_splits)
    with hs ts False show ?thesis
      by auto
  qed
qed

lemma octets_V6_length: "length (octets (V6 g)) = 2 * length g"
  by (induction g) simp_all

lemma parse_ip_octets:
  "parse_ip s = Some (V4 v) \<Longrightarrow> length (octets (V4 v)) = 4"
  "parse_ip s = Some (V6 g) \<Longrightarrow> length (octets (V6 g)) = 16"
  unfolding octets_V6_length
  by (auto simp: parse_ip_def dest: read_ipv4_shape read_ipv6_shape split: option.splits if_splits)

end
