(* ===== verification/Conn_Io.thy ===== *)
theory Conn_Io
  imports Ip_Address
begin

text \<open>
  The exporter's connections, \<^verbatim>\<open>src/src/transport/hyper_http.rs\<close>: \<open>NgxConnIo\<close>, the stream hyper reads and writes, with
  nginx's event handlers, and \<open>NgxConnector\<close>, which connects to an address literal or tries the resolved addresses of a
  name in order. What nginx answers (\<open>ngx_event_connect_peer\<close>, \<open>recv\<close>, \<open>send\<close>, timeouts, \<open>SO_ERROR\<close>, the resolver, the
  pools) is an argument. Shown: every connection that was opened is closed exactly once, also over failed attempts; no
  received byte is lost; a pending operation always leaves its waker where the event that ends it finds it; a name is
  connected at its first reachable address.
\<close>

section \<open>The stream\<close>

datatype io_error = TimedOut | RawOsError nat | ConnectionRefused | NotConnected | LastOsError | UnexpectedEof | WriteZero

datatype 'a poll = Pending | Ready "io_error + 'a"

text \<open>
  The answers of nginx. \<open>ngx_event_connect_peer\<close> leaves a connection behind exactly when it returns \<open>NGX_OK\<close> or
  \<open>NGX_AGAIN\<close>; \<open>recv\<close> and \<open>send\<close> return an error, \<open>NGX_AGAIN\<close>, or a count.
\<close>

datatype connect_rc = NGX_OK nat | NGX_AGAIN nat | NGX_FAILED

datatype recv_rc = Recv_Error | Recv_Again | Recv bytes

datatype send_rc = Send_Again | Send_Count int

record NgxConnIo =
  io_connection :: "nat option"
  io_rev :: "nat option"
  io_wev :: "nat option"
  io_read_timer :: bool

text \<open>History: the connections nginx opened and closed, the wakers woken, the bytes received and those handed to hyper.\<close>

record conn_log =
  cl_opened :: "nat list"
  cl_closed :: "nat list"
  cl_woken :: "nat list"
  cl_received :: bytes
  cl_delivered :: bytes

definition new_conn_io :: NgxConnIo where
  "new_conn_io = \<lparr>io_connection = None, io_rev = None, io_wev = None, io_read_timer = False\<rparr>"

definition empty_log :: conn_log where
  "empty_log = \<lparr>cl_opened = [], cl_closed = [], cl_woken = [], cl_received = [], cl_delivered = []\<rparr>"

definition close_and_clear :: "nat \<Rightarrow> NgxConnIo \<Rightarrow> conn_log \<Rightarrow> NgxConnIo \<times> conn_log" where
  "close_and_clear c io h = (io\<lparr>io_connection := None\<rparr>, h\<lparr>cl_closed := cl_closed h @ [c]\<rparr>)"

definition conn_close :: "NgxConnIo \<Rightarrow> conn_log \<Rightarrow> NgxConnIo \<times> conn_log" where
  "conn_close io h = (case io_connection io of Some c \<Rightarrow> close_and_clear c io h | None \<Rightarrow> (io, h))"

fun connect_peer :: "connect_rc \<Rightarrow> NgxConnIo \<Rightarrow> conn_log \<Rightarrow> NgxConnIo \<times> conn_log" where
  "connect_peer (NGX_OK c) io h = (io\<lparr>io_connection := Some c\<rparr>, h\<lparr>cl_opened := cl_opened h @ [c]\<rparr>)"
| "connect_peer (NGX_AGAIN c) io h = (io\<lparr>io_connection := Some c\<rparr>, h\<lparr>cl_opened := cl_opened h @ [c]\<rparr>)"
| "connect_peer NGX_FAILED io h = (io, h)"

text \<open>One poll of a connect: whether an event timed out, the pending socket error, and nginx's answer to a new connect.\<close>

record connect_poll =
  cp_timedout :: bool
  cp_so_error :: "nat option"
  cp_rc :: connect_rc
  cp_waker :: nat

definition poll_connect :: "connect_poll \<Rightarrow> NgxConnIo \<Rightarrow> conn_log \<Rightarrow> unit poll \<times> NgxConnIo \<times> conn_log" where
  "poll_connect p io h =
     (case io_connection io of
        Some c \<Rightarrow>
          if cp_timedout p then (Ready (Inl TimedOut), close_and_clear c io h)
          else (case cp_so_error p of
                  Some err \<Rightarrow> (Ready (Inl (RawOsError err)), close_and_clear c io h)
                | None \<Rightarrow> (Ready (Inr ()), io, h))
      | None \<Rightarrow>
          let (io1, h1) = connect_peer (cp_rc p) io h
          in (case cp_rc p of
               NGX_OK _ \<Rightarrow> (Ready (Inr ()), io1, h1)
             | NGX_AGAIN _ \<Rightarrow> (Pending, io1\<lparr>io_read_timer := True, io_rev := Some (cp_waker p), io_wev := Some (cp_waker p)\<rparr>, h1)
             | NGX_FAILED \<Rightarrow> (Ready (Inl ConnectionRefused), io1, h1)))"

definition poll_read ::
  "bool \<Rightarrow> recv_rc \<Rightarrow> bool \<Rightarrow> bool \<Rightarrow> nat \<Rightarrow> NgxConnIo \<Rightarrow> conn_log \<Rightarrow> bytes poll \<times> NgxConnIo \<times> conn_log" where
  "poll_read timedout rc rearmed active waker io h =
     (if io_connection io = None then (Ready (Inl NotConnected), io, h)
      else if timedout then (Ready (Inl TimedOut), io, h)
      else
        let h1 = (case rc of Recv b \<Rightarrow> h\<lparr>cl_received := cl_received h @ b\<rparr> | _ \<Rightarrow> h);
            deliver = (\<lambda>b. h1\<lparr>cl_delivered := cl_delivered h1 @ b\<rparr>);
            io1 = (if active then io\<lparr>io_read_timer := True\<rparr> else io\<lparr>io_read_timer := False\<rparr>)
        in case rc of
             Recv_Error \<Rightarrow> (Ready (Inl LastOsError), io, h1)
           | Recv_Again \<Rightarrow>
               if \<not> rearmed then (Ready (Inl UnexpectedEof), io, h1)
               else (Pending, io1\<lparr>io_rev := Some waker\<rparr>, h1)
           | Recv b \<Rightarrow>
               if \<not> rearmed then (if b \<noteq> [] then (Ready (Inr b), io, deliver b) else (Ready (Inl UnexpectedEof), io, h1))
               else (Ready (Inr b), io1, deliver b))"

definition poll_write :: "send_rc \<Rightarrow> nat \<Rightarrow> NgxConnIo \<Rightarrow> conn_log \<Rightarrow> nat poll \<times> NgxConnIo \<times> conn_log" where
  "poll_write rc waker io h =
     (if io_connection io = None then (Ready (Inl NotConnected), io, h)
      else case rc of
             Send_Again \<Rightarrow> (Pending, io\<lparr>io_wev := Some waker\<rparr>, h)
           | Send_Count n \<Rightarrow> (if n > 0 then (Ready (Inr (nat n)), io, h) else (Ready (Inl WriteZero), io, h)))"

definition poll_shutdown :: "NgxConnIo \<Rightarrow> conn_log \<Rightarrow> unit poll \<times> NgxConnIo \<times> conn_log" where
  "poll_shutdown io h = (Ready (Inr ()), conn_close io h)"

definition conn_drop :: "NgxConnIo \<Rightarrow> conn_log \<Rightarrow> NgxConnIo \<times> conn_log" where
  "conn_drop io h = conn_close io h"

text \<open>nginx's callbacks: each takes the waker out of its slot and wakes it.\<close>

definition ngx_otel_conn_read_handler :: "NgxConnIo \<Rightarrow> conn_log \<Rightarrow> NgxConnIo \<times> conn_log" where
  "ngx_otel_conn_read_handler io h =
     (io\<lparr>io_rev := None\<rparr>, case io_rev io of Some k \<Rightarrow> h\<lparr>cl_woken := cl_woken h @ [k]\<rparr> | None \<Rightarrow> h)"

definition ngx_otel_conn_write_handler :: "NgxConnIo \<Rightarrow> conn_log \<Rightarrow> NgxConnIo \<times> conn_log" where
  "ngx_otel_conn_write_handler io h =
     (io\<lparr>io_wev := None\<rparr>, case io_wev io of Some k \<Rightarrow> h\<lparr>cl_woken := cl_woken h @ [k]\<rparr> | None \<Rightarrow> h)"

datatype io_event = Connect_Poll connect_poll | Read_Poll bool recv_rc bool bool nat | Write_Poll send_rc nat | Shutdown_Poll
  | Read_Ready | Write_Ready

text \<open>A step of the stream's life, with whether the operation is pending.\<close>

fun io_step :: "io_event \<Rightarrow> NgxConnIo \<times> conn_log \<Rightarrow> bool \<times> NgxConnIo \<times> conn_log" where
  "io_step (Connect_Poll p) (io, h) = (let (r, io', h') = poll_connect p io h in (r = Pending, io', h'))"
| "io_step (Read_Poll t rc re act k) (io, h) = (let (r, io', h') = poll_read t rc re act k io h in (r = Pending, io', h'))"
| "io_step (Write_Poll rc k) (io, h) = (let (r, io', h') = poll_write rc k io h in (r = Pending, io', h'))"
| "io_step Shutdown_Poll (io, h) = (let (r, io', h') = poll_shutdown io h in (r = Pending, io', h'))"
| "io_step Read_Ready (io, h) = (False, ngx_otel_conn_read_handler io h)"
| "io_step Write_Ready (io, h) = (False, ngx_otel_conn_write_handler io h)"

fun run_io :: "io_event list \<Rightarrow> NgxConnIo \<times> conn_log \<Rightarrow> NgxConnIo \<times> conn_log" where
  "run_io [] st = st"
| "run_io (e # es) st = run_io es (snd (io_step e st))"

section \<open>The connector\<close>

datatype sockaddr = Sockaddr_In (sa_port: bytes) (sa_addr: bytes)
  | Sockaddr_In6 (sa_port: bytes) (sa_flowinfo: nat) (sa_addr: bytes) (sa_scope_id: nat)

fun socklen :: "sockaddr \<Rightarrow> nat" where
  "socklen (Sockaddr_In p a) = 16"
| "socklen (Sockaddr_In6 p f a s) = 28"

text \<open>
  One attempt: whether the pool of the stream and the allocations in it succeed, and the polls of its connect. The resolver
  answers with an error text or with addresses; \<open>nk_set_port\<close> is nginx's \<open>ngx_inet_set_port\<close>, and \<open>nk_err_text\<close> the
  display of an I/O error.
\<close>

record attempt =
  at_pool :: bool
  at_sockaddr :: bool
  at_name_data :: bool
  at_name_struct :: bool
  at_polls :: "connect_poll list"

record NgxConnector =
  nk_resolver :: "(rust_string \<Rightarrow> rust_string + sockaddr list) option"
  nk_resolve_pool :: bool
  nk_attempt :: "nat \<Rightarrow> attempt"
  nk_set_port :: "u16 \<Rightarrow> sockaddr \<Rightarrow> sockaddr"
  nk_err_text :: "io_error \<Rightarrow> rust_string"

definition pool_failed :: TransportError where
  "pool_failed = Connection (lit ''ngx_create_pool failed'')"

definition build_pc_name :: "attempt \<Rightarrow> rust_string \<Rightarrow> u16 \<Rightarrow> TransportError + rust_string" where
  "build_pc_name att host port =
     (if \<not> at_name_data att then Inl (Connection (lit ''pool alloc for pc.name data failed''))
      else if \<not> at_name_struct att then Inl (Connection (lit ''pool alloc for pc.name struct failed''))
      else Inr (host @ lit '':'' @ dec_digits (unat port)))"

definition build_ipv4_sockaddr :: "attempt \<Rightarrow> bytes \<Rightarrow> u16 \<Rightarrow> TransportError + sockaddr" where
  "build_ipv4_sockaddr att v4 port =
     (if \<not> at_sockaddr att then Inl (Connection (lit ''pool alloc for sockaddr_in failed''))
      else Inr (Sockaddr_In (u16_to_be_bytes port) v4))"

definition build_ipv6_sockaddr :: "attempt \<Rightarrow> bytes \<Rightarrow> u16 \<Rightarrow> TransportError + sockaddr" where
  "build_ipv6_sockaddr att v6 port =
     (if \<not> at_sockaddr att then Inl (Connection (lit ''pool alloc for sockaddr_in6 failed''))
      else Inr (Sockaddr_In6 (u16_to_be_bytes port) 0 v6 0))"

text \<open>Awaiting a connect: \<open>None\<close> when the future is dropped before it is ready.\<close>

fun await_connect :: "connect_poll list \<Rightarrow> NgxConnIo \<Rightarrow> conn_log \<Rightarrow> (io_error + unit) option \<times> NgxConnIo \<times> conn_log" where
  "await_connect [] io h = (None, io, h)"
| "await_connect (p # ps) io h =
     (case poll_connect p io h of
        (Pending, io', h') \<Rightarrow> await_connect ps io' h'
      | (Ready r, io', h') \<Rightarrow> (Some r, io', h'))"

fun try_addrs ::
  "NgxConnector \<Rightarrow> rust_string \<Rightarrow> u16 \<Rightarrow> nat \<Rightarrow> sockaddr list \<Rightarrow> rust_string \<Rightarrow> conn_log \<Rightarrow>
     (TransportError + NgxConnIo \<times> sockaddr) option \<times> conn_log" where
  "try_addrs nk host port i [] last_err h = (Some (Inl (Connection last_err)), h)"
| "try_addrs nk host port i (addr # addrs) last_err h =
     (let att = nk_attempt nk i
      in if \<not> at_pool att then (Some (Inl pool_failed), h)
         else (case build_pc_name att host port of
                Inl e \<Rightarrow> (Some (Inl e), h)
              | Inr name \<Rightarrow>
                  (case await_connect (at_polls att) new_conn_io h of
                     (None, io, h1) \<Rightarrow> (None, snd (conn_drop io h1))
                   | (Some (Inr _), io, h1) \<Rightarrow> (Some (Inr (io, nk_set_port nk port addr)), h1)
                   | (Some (Inl e), io, h1) \<Rightarrow> try_addrs nk host port (i + 1) addrs (nk_err_text nk e) (snd (conn_drop io h1)))))"

definition connect_dns ::
  "NgxConnector \<Rightarrow> rust_string \<Rightarrow> rust_string \<Rightarrow> u16 \<Rightarrow> conn_log \<Rightarrow> (TransportError + NgxConnIo \<times> sockaddr) option \<times> conn_log" where
  "connect_dns nk host bare port h =
     (case nk_resolver nk of
        None \<Rightarrow>
          (Some (Inl (Connection (lit ''DNS endpoint '' @ [0x27] @ bare @ [0x27] @
             lit '' requires nginx'' @ [0x27] @ lit ''s resolver directive; add '' @ [0x27] @ lit ''resolver <nameserver>;'' @ [0x27] @
             lit '' to the http block''))), h)
      | Some resolve \<Rightarrow>
          if \<not> nk_resolve_pool nk then (Some (Inl pool_failed), h)
          else (case resolve bare of
                 Inl e \<Rightarrow> (Some (Inl (Connection (lit ''DNS resolve '' @ [0x27] @ bare @ [0x27] @ lit '': '' @ e))), h)
               | Inr addrs \<Rightarrow>
                   if addrs = []
                   then (Some (Inl (Connection (lit ''DNS resolve '' @ [0x27] @ bare @ [0x27] @ lit '': no addresses returned''))), h)
                   else try_addrs nk host port 0 addrs (lit ''no addresses'') h))"

text \<open>The connect to an address literal, behind the allocation of its \<open>sockaddr\<close>.\<close>

definition connect_literal ::
  "NgxConnector \<Rightarrow> attempt \<Rightarrow> TransportError + sockaddr \<Rightarrow> rust_string \<Rightarrow> u16 \<Rightarrow> conn_log \<Rightarrow>
     (TransportError + NgxConnIo \<times> sockaddr) option \<times> conn_log" where
  "connect_literal nk att sa host port h =
     (case sa of
        Inl e \<Rightarrow> (Some (Inl e), h)
      | Inr addr \<Rightarrow>
          (case build_pc_name att host port of
             Inl e \<Rightarrow> (Some (Inl e), h)
           | Inr name \<Rightarrow>
               (case await_connect (at_polls att) new_conn_io h of
                  (None, io, h1) \<Rightarrow> (None, snd (conn_drop io h1))
                | (Some (Inr _), io, h1) \<Rightarrow> (Some (Inr (io, addr)), h1)
                | (Some (Inl e), io, h1) \<Rightarrow> (Some (Inl (Connection (nk_err_text nk e))), snd (conn_drop io h1)))))"

text \<open>\<open>lit_at\<close> is the attempt of the stream created first, which a name does not use.\<close>

definition connect_host ::
  "NgxConnector \<Rightarrow> attempt \<Rightarrow> rust_string \<Rightarrow> u16 \<Rightarrow> conn_log \<Rightarrow> (TransportError + NgxConnIo \<times> sockaddr) option \<times> conn_log" where
  "connect_host nk lit_at host port h =
     (if \<not> at_pool lit_at then (Some (Inl pool_failed), h)
      else
        let bare = strip_v6_brackets host
        in (case parse_ip bare of
             Some (V4 v) \<Rightarrow> connect_literal nk lit_at (build_ipv4_sockaddr lit_at (octets (V4 v)) port) host port h
           | Some (V6 v) \<Rightarrow> connect_literal nk lit_at (build_ipv6_sockaddr lit_at (octets (V6 v)) port) host port h
           | None \<Rightarrow> connect_dns nk host bare port h))"

fun connector_connect ::
  "NgxConnector \<Rightarrow> attempt \<Rightarrow> ParsedEndpoint \<Rightarrow> conn_log \<Rightarrow> (TransportError + NgxConnIo \<times> sockaddr) option \<times> conn_log" where
  "connector_connect nk lit_at (Http host port path) h = connect_host nk lit_at host port h"
| "connector_connect nk lit_at (Https host port path) h = connect_host nk lit_at host port h"
| "connector_connect nk lit_at (Unix s p) h = (Some (Inl (Connection (lit ''Unix sockets are not supported for NgxConnIo''))), h)"

section \<open>Every connection is closed once\<close>

text \<open>What was opened and not yet closed is the stream's own connection, and what was received was delivered.\<close>

definition balanced :: "NgxConnIo \<Rightarrow> conn_log \<Rightarrow> bool" where
  "balanced io h \<longleftrightarrow> cl_opened h = cl_closed h @ (case io_connection io of Some c \<Rightarrow> [c] | None \<Rightarrow> []) \<and> cl_delivered h = cl_received h"

lemma balanced_new: "balanced new_conn_io h \<longleftrightarrow> cl_opened h = cl_closed h \<and> cl_delivered h = cl_received h"
  by (simp add: balanced_def new_conn_io_def)

lemma balanced_drop:
  assumes "balanced io h"
  shows "balanced new_conn_io (snd (conn_drop io h))"
  using assms by (simp add: balanced_def new_conn_io_def conn_drop_def conn_close_def close_and_clear_def split: option.splits)

lemma balanced_poll_connect:
  assumes "balanced io h" "poll_connect p io h = (r, io', h')"
  shows "balanced io' h'" "r = Ready (Inr ()) \<Longrightarrow> io_connection io' \<noteq> None"
  using assms by (cases "cp_rc p"; auto simp: balanced_def poll_connect_def close_and_clear_def Let_def
      split: option.splits if_splits)+

lemma balanced_poll_read:
  assumes "balanced io h" "poll_read t rc re act k io h = (r, io', h')"
  shows "balanced io' h'"
  using assms by (cases rc) (auto simp: balanced_def poll_read_def Let_def split: option.splits if_splits)

lemma balanced_poll_write: "balanced io h \<Longrightarrow> poll_write rc k io h = (r, io', h') \<Longrightarrow> balanced io' h'"
  by (cases rc) (auto simp: balanced_def poll_write_def split: if_splits)

lemma balanced_handlers:
  assumes "balanced io h"
  shows "balanced (fst (ngx_otel_conn_read_handler io h)) (snd (ngx_otel_conn_read_handler io h))"
    "balanced (fst (ngx_otel_conn_write_handler io h)) (snd (ngx_otel_conn_write_handler io h))"
  using assms by (auto simp: balanced_def ngx_otel_conn_read_handler_def ngx_otel_conn_write_handler_def split: option.splits)

lemma balanced_shutdown: "balanced io h \<Longrightarrow> poll_shutdown io h = (r, io', h') \<Longrightarrow> balanced io' h'"
  by (auto simp: balanced_def poll_shutdown_def conn_close_def close_and_clear_def split: option.splits)

lemma balanced_step:
  assumes "balanced io h" "io_step e (io, h) = (pend, io', h')"
  shows "balanced io' h'"
proof (cases e)
  case (Connect_Poll p)
  then obtain r where "poll_connect p io h = (r, io', h')"
    using assms(2) by (auto split: prod.splits)
  with assms(1) show ?thesis by (rule balanced_poll_connect(1))
next
  case (Read_Poll t rc re act k)
  then obtain r where "poll_read t rc re act k io h = (r, io', h')"
    using assms(2) by (auto split: prod.splits)
  with assms(1) show ?thesis by (rule balanced_poll_read)
next
  case (Write_Poll rc k)
  then obtain r where "poll_write rc k io h = (r, io', h')"
    using assms(2) by (auto split: prod.splits)
  with assms(1) show ?thesis by (rule balanced_poll_write)
next
  case Shutdown_Poll
  then obtain r where "poll_shutdown io h = (r, io', h')"
    using assms(2) by (auto split: prod.splits)
  with assms(1) show ?thesis by (rule balanced_shutdown)
qed (use assms(2) balanced_handlers [OF assms(1)] in simp_all)

lemma balanced_run: "balanced io h \<Longrightarrow> run_io es (io, h) = (io', h') \<Longrightarrow> balanced io' h'"
proof (induction es arbitrary: io h)
  case (Cons e es)
  obtain pend io1 h1 where "io_step e (io, h) = (pend, io1, h1)"
    by (metis prod_cases3)
  with Cons.IH [OF balanced_step] Cons.prems show ?case
    by simp
qed simp

lemma balanced_await:
  assumes "balanced io h" "await_connect ps io h = (r, io', h')"
  shows "balanced io' h'" "r = Some (Inr ()) \<Longrightarrow> io_connection io' \<noteq> None"
proof -
  have "balanced io' h' \<and> (r = Some (Inr ()) \<longrightarrow> io_connection io' \<noteq> None)"
    using assms
  proof (induction ps arbitrary: io h)
    case (Cons p ps)
    obtain q io1 h1 where q: "poll_connect p io h = (q, io1, h1)"
      by (metis prod_cases3)
    note b = balanced_poll_connect [OF Cons.prems(1) q]
    show ?case
    proof (cases q)
      case Pending
      then show ?thesis using Cons.IH [OF b(1)] Cons.prems(2) q by simp
    next
      case (Ready x)
      then show ?thesis using b Cons.prems(2) q by auto
    qed
  qed simp
  then show "balanced io' h'" "r = Some (Inr ()) \<Longrightarrow> io_connection io' \<noteq> None"
    by blast+
qed

section \<open>Pending operations and failed attempts\<close>

text \<open>The slots that must hold the waker of a pending operation.\<close>

fun registered :: "io_event \<Rightarrow> NgxConnIo \<Rightarrow> bool" where
  "registered (Connect_Poll p) io = (io_rev io = Some (cp_waker p) \<and> io_wev io = Some (cp_waker p))"
| "registered (Read_Poll t rc re act k) io = (io_rev io = Some k)"
| "registered (Write_Poll rc k) io = (io_wev io = Some k)"
| "registered e io = False"

lemma pending_registered: "io_step e st = (True, io', h') \<Longrightarrow> registered e io'"
proof (cases st)
  case (Pair io h)
  assume step: "io_step e st = (True, io', h')"
  show ?thesis
  proof (cases e)
    case (Connect_Poll p)
    with step Pair show ?thesis
      by (cases "cp_rc p") (auto simp: poll_connect_def close_and_clear_def split: option.splits if_splits)
  next
    case (Read_Poll t rc re act k)
    with step Pair show ?thesis
      by (cases rc) (auto simp: poll_read_def Let_def split: if_splits)
  next
    case (Write_Poll rc k)
    with step Pair show ?thesis
      by (cases rc) (auto simp: poll_write_def split: if_splits)
  qed (use step Pair in \<open>auto simp: poll_shutdown_def split: prod.splits\<close>)
qed

text \<open>Whether an attempt fails depends on nginx's answers only, not on the history.\<close>

definition attempt_failed :: "attempt \<Rightarrow> bool" where
  "attempt_failed att = (case fst (await_connect (at_polls att) new_conn_io empty_log) of Some (Inl _) \<Rightarrow> True | _ \<Rightarrow> False)"

lemma poll_connect_history:
  "fst (poll_connect p io h) = fst (poll_connect p io h2)" "fst (snd (poll_connect p io h)) = fst (snd (poll_connect p io h2))"
  by (cases "cp_rc p"; simp add: poll_connect_def close_and_clear_def Let_def split: option.splits)+

lemma await_history: "fst (await_connect ps io h) = fst (await_connect ps io h2)"
proof (induction ps arbitrary: io h h2)
  case (Cons p ps)
  obtain q io1 h1 where q: "poll_connect p io h = (q, io1, h1)"
    by (metis prod_cases3)
  moreover obtain h3 where "poll_connect p io h2 = (q, io1, h3)"
    using poll_connect_history [of p io h h2] q by (metis fst_conv prod.collapse snd_conv)
  ultimately show ?case
    using Cons.IH [of io1 h1 h3] by (cases q) simp_all
qed simp

lemma attempt_failedI: "await_connect (at_polls att) new_conn_io h = (Some (Inl e), io, h') \<Longrightarrow> attempt_failed att"
  using await_history [of "at_polls att" new_conn_io empty_log h] by (simp add: attempt_failed_def)

text \<open>The outcome of a connect: the stream that is returned is balanced and connected, and otherwise nothing stays open.\<close>

definition connect_ok :: "(TransportError + NgxConnIo \<times> sockaddr) option \<times> conn_log \<Rightarrow> (sockaddr \<Rightarrow> bool) \<Rightarrow> bool" where
  "connect_ok res dest =
     (case res of
        (Some (Inr (io, sa)), h) \<Rightarrow> balanced io h \<and> io_connection io \<noteq> None \<and> dest sa
      | (_, h) \<Rightarrow> balanced new_conn_io h)"

lemma await_ok:
  assumes "balanced new_conn_io h" "await_connect ps new_conn_io h = (r, io, h1)"
  shows "balanced new_conn_io (snd (conn_drop io h1))" "r = Some (Inr u) \<Longrightarrow> balanced io h1 \<and> io_connection io \<noteq> None"
  using balanced_await [OF assms] balanced_drop by simp_all

lemma try_addrs_ok:
  assumes "balanced new_conn_io h"
  shows "connect_ok (try_addrs nk host port i addrs last_err h)
    (\<lambda>sa. \<exists>j<length addrs. sa = nk_set_port nk port (addrs ! j) \<and> (\<forall>k<j. attempt_failed (nk_attempt nk (i + k))))"
  using assms
proof (induction addrs arbitrary: i last_err h)
  case Nil
  then show ?case by (simp add: connect_ok_def)
next
  case (Cons a addrs)
  let ?at = "nk_attempt nk i"
  obtain r io h1 where w: "await_connect (at_polls ?at) new_conn_io h = (r, io, h1)"
    by (metis prod_cases3)
  note ok = await_ok [OF Cons.prems w]
  show ?case
  proof (cases "at_pool ?at \<and> (\<exists>name. build_pc_name ?at host port = Inr name)")
    case False
    then show ?thesis using Cons.prems by (auto simp: connect_ok_def Let_def split: sum.splits)
  next
    case True
    then obtain name where t: "at_pool ?at" "build_pc_name ?at host port = Inr name" by blast
    consider "r = None" | u where "r = Some (Inr u)" | e where "r = Some (Inl e)"
      by (metis not_None_eq old.unit.exhaust sumE)
    then show ?thesis
    proof cases
      case 1
      then show ?thesis using t w ok(1) by (simp add: connect_ok_def)
    next
      case 2
      then show ?thesis using t w ok(2) by (auto simp: connect_ok_def intro!: exI [of _ 0])
    next
      case 3
      let ?rest = "try_addrs nk host port (i + 1) addrs (nk_err_text nk e) (snd (conn_drop io h1))"
      have fail: "attempt_failed ?at"
        using w 3 by (intro attempt_failedI) simp
      have shift: "\<exists>j<length (a # addrs). sa = nk_set_port nk port ((a # addrs) ! j) \<and> (\<forall>k<j. attempt_failed (nk_attempt nk (i + k)))"
        if "j < length addrs" "sa = nk_set_port nk port (addrs ! j)" "\<forall>k<j. attempt_failed (nk_attempt nk (i + 1 + k))" for j sa
        using that fail by (intro exI [of _ "Suc j"]) (auto simp: less_Suc_eq_0_disj)
      have "try_addrs nk host port i (a # addrs) last_err h = ?rest"
        using t w 3 by simp
      with Cons.IH [OF ok(1), of "i + 1" "nk_err_text nk e"] show ?thesis
        by (auto simp only: connect_ok_def split: prod.splits option.splits sum.splits intro: shift)
    qed
  qed
qed

lemma connect_literal_ok:
  assumes "balanced new_conn_io h"
  shows "connect_ok (connect_literal nk att sa host port h) (\<lambda>addr. sa = Inr addr)"
proof -
  obtain r io h1 where w: "await_connect (at_polls att) new_conn_io h = (r, io, h1)"
    by (metis prod_cases3)
  note ok = await_ok [OF assms w]
  show ?thesis
    using assms w ok by (simp add: connect_literal_def connect_ok_def split: option.splits sum.splits)
qed

text \<open>
  The destination of a stream: a literal's own address with the length of its family, or a resolved address all of whose
  predecessors failed; in both cases with the endpoint's port.
\<close>

definition destination :: "NgxConnector \<Rightarrow> rust_string \<Rightarrow> u16 \<Rightarrow> sockaddr \<Rightarrow> bool" where
  "destination nk host port sa =
     (let bare = strip_v6_brackets host
      in case parse_ip bare of
           Some ip \<Rightarrow> sa_addr sa = octets ip \<and> sa_port sa = u16_to_be_bytes port \<and>
             (socklen sa = 16 \<longleftrightarrow> length (sa_addr sa) = 4) \<and> (socklen sa = 28 \<longleftrightarrow> length (sa_addr sa) = 16)
         | None \<Rightarrow> (\<exists>resolve addrs j. nk_resolver nk = Some resolve \<and> resolve bare = Inr addrs \<and> j < length addrs \<and>
             sa = nk_set_port nk port (addrs ! j) \<and> (\<forall>k<j. attempt_failed (nk_attempt nk k))))"

lemma connect_ok_mono: "connect_ok res d \<Longrightarrow> (\<And>sa. d sa \<Longrightarrow> d' sa) \<Longrightarrow> connect_ok res d'"
  by (auto simp: connect_ok_def split: prod.splits option.splits sum.splits)

lemma connect_dns_ok:
  assumes "balanced new_conn_io h" "parse_ip (strip_v6_brackets host) = None"
  shows "connect_ok (connect_dns nk host (strip_v6_brackets host) port h) (destination nk host port)"
proof (cases "\<exists>resolve addrs. nk_resolver nk = Some resolve \<and> nk_resolve_pool nk \<and> resolve (strip_v6_brackets host) = Inr addrs \<and> addrs \<noteq> []")
  case False
  then show ?thesis
    using assms(1) by (auto simp: connect_dns_def connect_ok_def split: option.splits sum.splits)
next
  case True
  then obtain resolve addrs where r: "nk_resolver nk = Some resolve" "nk_resolve_pool nk"
    "resolve (strip_v6_brackets host) = Inr addrs" "addrs \<noteq> []"
    by blast
  have "connect_dns nk host (strip_v6_brackets host) port h = try_addrs nk host port 0 addrs (lit ''no addresses'') h"
    using r by (simp add: connect_dns_def)
  moreover have "connect_ok (try_addrs nk host port 0 addrs (lit ''no addresses'') h) (destination nk host port)"
    by (rule connect_ok_mono [OF try_addrs_ok [OF assms(1)]]) (use r assms(2) in \<open>auto simp: destination_def\<close>)
  ultimately show ?thesis
    by simp
qed

lemma connect_host_ok:
  assumes "balanced new_conn_io h"
  shows "connect_ok (connect_host nk lit_at host port h) (destination nk host port)"
proof (cases "at_pool lit_at")
  case False
  then show ?thesis using assms by (simp add: connect_host_def connect_ok_def)
next
  case pool: True
  show ?thesis
  proof (cases "parse_ip (strip_v6_brackets host)")
    case None
    then show ?thesis using pool connect_dns_ok [OF assms None] by (simp add: connect_host_def Let_def)
  next
    case (Some ip)
    show ?thesis
    proof (cases ip)
      case (V4 v)
      with Some have p: "parse_ip (strip_v6_brackets host) = Some (V4 v)" by simp
      have "connect_ok (connect_literal nk lit_at (build_ipv4_sockaddr lit_at (octets (V4 v)) port) host port h) (destination nk host port)"
        by (rule connect_ok_mono [OF connect_literal_ok [OF assms]])
          (use p parse_ip_octets(1) [OF p] in \<open>auto simp: destination_def build_ipv4_sockaddr_def split: if_splits\<close>)
      with pool p show ?thesis by (simp add: connect_host_def)
    next
      case (V6 v)
      with Some have p: "parse_ip (strip_v6_brackets host) = Some (V6 v)" by simp
      have "connect_ok (connect_literal nk lit_at (build_ipv6_sockaddr lit_at (octets (V6 v)) port) host port h) (destination nk host port)"
        by (rule connect_ok_mono [OF connect_literal_ok [OF assms]])
          (use p parse_ip_octets(2) [OF p] in \<open>auto simp: destination_def build_ipv6_sockaddr_def split: if_splits\<close>)
      with pool p show ?thesis by (simp add: connect_host_def)
    qed
  qed
qed

lemma connector_ok:
  assumes "connector_connect nk lit_at ep empty_log = (res, h)"
  shows "connect_ok (res, h) (\<lambda>sa. \<exists>port. endpoint_port ep = Some port \<and> destination nk (host_str ep) port sa)"
proof -
  have b: "balanced new_conn_io empty_log"
    by (simp add: balanced_new empty_log_def)
  show ?thesis
  proof (cases ep)
    case (Http host port path)
    with assms connect_host_ok [OF b, of nk lit_at host port] show ?thesis by (simp add: connect_ok_def)
  next
    case (Https host port path)
    with assms connect_host_ok [OF b, of nk lit_at host port] show ?thesis by (simp add: connect_ok_def)
  next
    case (Unix sock path)
    with assms b show ?thesis by (auto simp: connect_ok_def)
  qed
qed

section \<open>Properties\<close>

text \<open>
  C11. Connections neither leak nor are closed twice, and lose no data. A connect that fails or is given up leaves nothing
  open, whichever allocation, lookup or attempt failed. A connect that succeeds is to the endpoint's port at its literal
  address, or at the first resolved address whose attempt did not fail; and whatever hyper and nginx then do with the stream,
  once it is dropped every connection that was opened has been closed exactly once, in order, every byte received has been
  handed to hyper, and an operation left pending has its waker in each slot whose event can end it.
\<close>

theorem connections_closed_once:
  assumes "connector_connect nk lit_at ep empty_log = (res, h)"
  shows "case res of
      Some (Inr (io, sa)) \<Rightarrow>
        (\<exists>port. endpoint_port ep = Some port \<and> destination nk (host_str ep) port sa) \<and> io_connection io \<noteq> None \<and>
        (let (io', h') = run_io es (io, h); h'' = snd (conn_drop io' h')
         in cl_closed h'' = cl_opened h'' \<and> cl_delivered h'' = cl_received h'') \<and>
        (case io_step e (run_io es (io, h)) of (pending, io', _) \<Rightarrow> \<not> pending \<or> registered e io')
    | _ \<Rightarrow> cl_closed h = cl_opened h"
proof -
  have run: "(let (io', h') = run_io es (io, h); h'' = snd (conn_drop io' h')
      in cl_closed h'' = cl_opened h'' \<and> cl_delivered h'' = cl_received h'')" if "balanced io h" for io
  proof -
    obtain io' h' where r: "run_io es (io, h) = (io', h')" by fastforce
    show ?thesis
      using balanced_drop [OF balanced_run [OF that r]] r by (simp add: balanced_new)
  qed
  have step: "case io_step e st of (pending, io', _) \<Rightarrow> \<not> pending \<or> registered e io'" for st
  proof -
    obtain p io' h' where "io_step e st = (p, io', h')" by (metis prod_cases3)
    then show ?thesis using pending_registered [of e st io' h'] by auto
  qed
  show ?thesis
  proof (cases "\<exists>io sa. res = Some (Inr (io, sa))")
    case True
    then obtain io sa where res: "res = Some (Inr (io, sa))" by blast
    have "balanced io h" "io_connection io \<noteq> None" "\<exists>port. endpoint_port ep = Some port \<and> destination nk (host_str ep) port sa"
      using connector_ok [OF assms] by (simp_all add: connect_ok_def res)
    then show ?thesis
      unfolding res option.case sum.case prod.case using run step by (intro conjI)
  next
    case False
    then show ?thesis
      using connector_ok [OF assms] by (auto simp: connect_ok_def balanced_new split: option.splits sum.splits)
  qed
qed

fun demo_set_port :: "u16 \<Rightarrow> sockaddr \<Rightarrow> sockaddr" where
  "demo_set_port port (Sockaddr_In p a) = Sockaddr_In (u16_to_be_bytes port) a"
| "demo_set_port port (Sockaddr_In6 p f a s) = Sockaddr_In6 (u16_to_be_bytes port) f a s"

definition demo_attempt :: "connect_poll list \<Rightarrow> attempt" where
  "demo_attempt polls = \<lparr>at_pool = True, at_sockaddr = True, at_name_data = True, at_name_struct = True, at_polls = polls\<rparr>"

definition demo_poll :: "connect_rc \<Rightarrow> nat option \<Rightarrow> connect_poll" where
  "demo_poll rc err = \<lparr>cp_timedout = False, cp_so_error = err, cp_rc = rc, cp_waker = 1\<rparr>"

text \<open>A name with two addresses: the first connect is refused after a wait, the second succeeds.\<close>

definition demo_connector :: NgxConnector where
  "demo_connector =
     \<lparr>nk_resolver = Some (\<lambda>_. Inr [Sockaddr_In [0, 0] [10, 0, 0, 1], Sockaddr_In [0, 0] [10, 0, 0, 2]]), nk_resolve_pool = True,
      nk_attempt = (\<lambda>i. demo_attempt (if i = 0 then [demo_poll (NGX_AGAIN 7) None, demo_poll NGX_FAILED (Some 111)] else [demo_poll (NGX_OK 8) None])),
      nk_set_port = demo_set_port, nk_err_text = (\<lambda>_. [])\<rparr>"

definition demo_connect :: "(TransportError + NgxConnIo \<times> sockaddr) option \<times> conn_log" where
  "demo_connect = connector_connect demo_connector (demo_attempt []) (Http (lit ''otel.example'') 4318 (lit ''/'')) empty_log"

lemma demo_name: "strip_v6_brackets (lit ''otel.example'') = lit ''otel.example''" "parse_ip (lit ''otel.example'') = None"
proof -
  have "to_digit 10 0x6F = None" "to_digit 16 0x6F = None"
    by (simp_all add: to_digit_def)
  then have num: "read_number 10 3 False 256 (lit ''otel.example'') = None" "read_number 16 4 True 65536 (lit ''otel.example'') = None"
    by (simp_all add: read_number_def lit_def)
  have "read_octets (Suc 3) 0 (lit ''otel.example'') [] = None"
    using num(1) by (simp only: read_octets.simps read_separator_def less_irrefl if_False option.case)
  then have four: "read_ipv4_addr (lit ''otel.example'') = None"
    by (simp add: read_ipv4_addr_def)
  have "read_groups (Suc 7) 0 (lit ''otel.example'') [] = ([], False, lit ''otel.example'')"
    using num(2) four by (simp only: read_groups.simps read_separator_def less_irrefl if_False if_cancel option.case)
  then have "read_groups 8 0 (lit ''otel.example'') [] = ([], False, lit ''otel.example'')"
    by simp
  then have "read_ipv6_addr (lit ''otel.example'') = None"
    by (simp add: read_ipv6_addr_def COLON_BYTE_def lit_def)
  with four show "parse_ip (lit ''otel.example'') = None"
    by (simp add: parse_ip_def)
qed (simp add: strip_v6_brackets_def starts_with_def LBRACKET_def lit_def)

lemma demo_connect_eq:
  "demo_connect = (Some (Inr (\<lparr>io_connection = Some 8, io_rev = None, io_wev = None, io_read_timer = False\<rparr>,
      Sockaddr_In (u16_to_be_bytes 4318) [10, 0, 0, 2])),
    \<lparr>cl_opened = [7, 8], cl_closed = [7], cl_woken = [], cl_received = [], cl_delivered = []\<rparr>)"
  by (simp add: demo_connect_def connect_host_def demo_name connect_dns_def demo_connector_def demo_attempt_def demo_poll_def
      build_pc_name_def poll_connect_def new_conn_io_def empty_log_def close_and_clear_def conn_drop_def conn_close_def)

theorem connections_closed_once_witness:
  "case demo_connect of
     (Some (Inr (io, sa)), h) \<Rightarrow> sa_addr sa = [10, 0, 0, 2] \<and>
       (let (io', h') = run_io [Read_Poll False (Recv [1, 2]) True True 5] (io, h); h'' = snd (conn_drop io' h')
        in cl_closed h'' = cl_opened h'' \<and> cl_delivered h'' = cl_received h'')
   | _ \<Rightarrow> False"
  using connections_closed_once [OF demo_connect_eq [unfolded demo_connect_def], of "[Read_Poll False (Recv [1, 2]) True True 5]" Shutdown_Poll]
  unfolding demo_connect_eq option.case sum.case prod.case sockaddr.sel by (elim conjE) (intro conjI refl)

end
