(* ===== verification/Export_Loop.thy ===== *)
theory Export_Loop
  imports Export_Pipeline
begin

text \<open>
  The exporter's main loop, \<open>periodic_tick\<close> and \<open>export_loop\<close> of \<^verbatim>\<open>src/src/drain/mod.rs\<close>, over the world and
  environment of \<open>Export_Pipeline\<close>. The quit-defer hook of the test builds is its production form, which
  never defers. The chunked sleep terminates by its remaining time; the outer loop, which runs until a
  signal, has fuel, and \<open>None\<close> is running out of it.

  The locale \<open>tick_invariant\<close> proves an invariant of the loop from its steps; it is interpreted for the
  balance of records, the consumer offsets of an abdicated exporter and the distance to a shutdown signal.
\<close>

section \<open>Model\<close>

datatype ShutdownKind = NoShutdown | Exiting | Terminate

definition SHUTDOWN_POLL_INTERVAL :: nat where "SHUTDOWN_POLL_INTERVAL = 250"

definition quit :: "'n env \<Rightarrow> 'n world \<Rightarrow> bool" where
  "quit env w = ev_quit env (wd_rest w)"

definition terminate :: "'n env \<Rightarrow> 'n world \<Rightarrow> bool" where
  "terminate env w = ev_terminate env (wd_rest w)"

definition shutdown_requested :: "'n env \<Rightarrow> 'n world \<Rightarrow> bool" where
  "shutdown_requested env w \<longleftrightarrow> quit env w \<or> terminate env w"

definition shutdown_kind :: "'n env \<Rightarrow> 'n world \<Rightarrow> ShutdownKind" where
  "shutdown_kind env w = (if terminate env w then Terminate else Exiting)"

definition latch_abdication :: "u64 \<Rightarrow> exporter_state \<Rightarrow> 'n world \<Rightarrow> exporter_state" where
  "latch_abdication my_gen s w =
     (if \<not> es_abdicated s \<and> successor_announced (wd_ctrl w) my_gen then s\<lparr>es_abdicated := True\<rparr> else s)"

text \<open>One wake of the chunked sleep; \<open>NoShutdown\<close> lets the sleep go on.\<close>

definition sub_tick ::
  "'n env \<Rightarrow> exporter_conf \<Rightarrow> u64 \<Rightarrow> exporter_state \<Rightarrow> 'n world \<Rightarrow> ShutdownKind \<times> exporter_state \<times> 'n world" where
  "sub_tick env cfg my_gen s w =
     (if terminate env w then (Terminate, s, w)
      else if quit env w then (Exiting, s, w)
      else
        let s1 = latch_abdication my_gen s w;
            now_msec = clock env w;
            logs_deferred = is_deferred (ln_backoff (es_logs s1)) now_msec;
            (s2, w2) = (if \<not> logs_deferred then retry_logs env s1 w else (s1, w))
        in if shutdown_requested env w2 then (shutdown_kind env w2, s2, w2)
           else
             let (s3, w3) = (if \<not> es_abdicated s2 \<and> \<not> logs_deferred \<and> (ec_log_export cfg \<or> ec_error_log cfg)
                             then fresh_logs env cfg s2 w2 else (s2, w2))
             in if shutdown_requested env w3 then (shutdown_kind env w3, s3, w3)
                else
                  let spans_deferred = is_deferred (ln_backoff (es_spans s3)) now_msec;
                      (s4, w4) = (if \<not> spans_deferred then retry_spans env s3 w3 else (s3, w3))
                  in if shutdown_requested env w4 then (shutdown_kind env w4, s4, w4)
                     else
                       let (s5, w5) = (if \<not> es_abdicated s4 \<and> \<not> spans_deferred
                                       then fresh_spans env cfg s4 w4 else (s4, w4))
                       in (NoShutdown, s5, w5))"

function sleep_loop ::
  "'n env \<Rightarrow> exporter_conf \<Rightarrow> u64 \<Rightarrow> nat \<Rightarrow> nat \<Rightarrow> exporter_state \<Rightarrow> 'n world \<Rightarrow>
     ShutdownKind \<times> exporter_state \<times> 'n world" where
  "sleep_loop env cfg my_gen interval slept s w =
     (if slept < interval
      then let chunk = min (interval - slept) SHUTDOWN_POLL_INTERVAL;
               (k, s1, w1) = sub_tick env cfg my_gen s (ev_sleep env chunk w)
           in if k \<noteq> NoShutdown then (k, s1, w1)
              else sleep_loop env cfg my_gen interval (slept + chunk) s1 w1
      else (NoShutdown, s, w))"
  by pat_completeness auto

termination
  by (relation "measure (\<lambda>(env, cfg, my_gen, interval, slept, s, w). interval - slept)")
    (auto simp: SHUTDOWN_POLL_INTERVAL_def)

declare sleep_loop.simps [simp del]

definition heartbeat :: "'n world \<Rightarrow> 'n world" where
  "heartbeat w = w\<lparr>wd_ctrl := map_option (\<lambda>c. c\<lparr>ctl_version := ctl_version c + 1\<rparr>) (wd_ctrl w)\<rparr>"

definition CRASH_WINDOW_NS :: u64 where "CRASH_WINDOW_NS = CRASH_WINDOW_SECS * 1000000000"

definition healthy_reset :: "'n env \<Rightarrow> u64 \<Rightarrow> exporter_state \<Rightarrow> 'n world \<Rightarrow> exporter_state \<times> 'n world" where
  "healthy_reset env healthy_since_ns s w =
     (if \<not> es_crash_reset s \<and> saturating_sub (ev_unix_nano env (wd_rest w)) healthy_since_ns \<ge> CRASH_WINDOW_NS
      then (s\<lparr>es_crash_reset := True\<rparr>,
            w\<lparr>wd_ctrl := map_option (\<lambda>c. c\<lparr>ctl_crash_count := 0, ctl_window_start_unix := 0\<rparr>) (wd_ctrl w)\<rparr>)
      else (s, w))"

definition fresh_metrics :: "'n env \<Rightarrow> Pdata \<Rightarrow> exporter_state \<Rightarrow> 'n world \<Rightarrow> exporter_state \<times> 'n world" where
  "fresh_metrics env pd s w =
     (let (l, sm, w') = send_fresh_batch (ev_send env PERIODIC_SEND_BUDGET) (clock env) (ev_encode env)
            retry_buffer_depth pd (es_metrics s) (es_counters s) w
      in (offer pd (s\<lparr>es_metrics := l, es_counters := sm\<rparr>), w'))"

text \<open>The part of \<open>periodic_tick\<close> after an undisturbed sleep.\<close>

definition metrics_tick ::
  "'n env \<Rightarrow> exporter_conf \<Rightarrow> u64 \<Rightarrow> exporter_state \<Rightarrow> 'n world \<Rightarrow> exporter_state \<times> 'n world" where
  "metrics_tick env cfg healthy_since_ns s w =
     (let (s1, w1) = healthy_reset env healthy_since_ns s (heartbeat w);
          metrics_deferred = is_deferred (ln_backoff (es_metrics s1)) (clock env w1);
          (s2, w2) = (if ec_metrics_enabled cfg \<and> \<not> metrics_deferred then retry_metrics env s1 w1 else (s1, w1))
      in if shutdown_requested env w2 then (s2, w2)
         else if \<not> ec_metrics_enabled cfg then (s2, w2)
         else let (pd, w3) = take_metrics env w2
              in if \<not> metrics_deferred then fresh_metrics env pd s2 w3 else (s2, w3))"

definition periodic_tick ::
  "'n env \<Rightarrow> exporter_conf \<Rightarrow> u64 \<Rightarrow> u64 \<Rightarrow> exporter_state \<Rightarrow> 'n world \<Rightarrow> ShutdownKind \<times> exporter_state \<times> 'n world" where
  "periodic_tick env cfg my_gen healthy_since_ns s w =
     (let (k, s1, w1) = sleep_loop env cfg my_gen (interval_ms cfg) 0 s w
      in if k = Terminate \<or> terminate env w1 then (Terminate, s1, w1)
         else if k = Exiting \<or> quit env w1
         then let (s2, w2) = graceful_drain env cfg my_gen s1 w1 in (Exiting, s2, w2)
         else let (s2, w2) = metrics_tick env cfg healthy_since_ns s1 w1 in (NoShutdown, s2, w2))"

fun export_iterations ::
  "nat \<Rightarrow> 'n env \<Rightarrow> exporter_conf \<Rightarrow> u64 \<Rightarrow> u64 \<Rightarrow> exporter_state \<Rightarrow> 'n world \<Rightarrow> (exporter_state \<times> 'n world) option" where
  "export_iterations 0 env cfg my_gen start s w = None"
| "export_iterations (Suc fuel) env cfg my_gen start s w =
     (if terminate env w then Some (s, w)
      else if quit env w then Some (graceful_drain env cfg my_gen s w)
      else
        let (k, s1, w1) = periodic_tick env cfg my_gen start s w
        in if k = NoShutdown then export_iterations fuel env cfg my_gen start s1 w1 else Some (s1, w1))"

definition fresh_lane :: lane where
  "fresh_lane = \<lparr>ln_queue = [], ln_backoff = default_backoff, ln_failures = 0\<rparr>"

definition initial_state :: "self_metrics \<Rightarrow> exporter_state" where
  "initial_state sm = \<lparr>es_metrics = fresh_lane, es_logs = fresh_lane, es_spans = fresh_lane, es_counters = sm,
     es_access_logs_dropped = 0, es_error_logs_dropped = 0, es_coalesced_orphaned = 0, es_traces_dropped = 0,
     es_abdicated = False, es_crash_reset = False, es_offered = 0\<rparr>"

text \<open>
  \<open>export_loop\<close> up to its loop: the endpoint must be UTF-8 and the transport must be built
  (\<open>transport_ok\<close>, connection and TLS set-up). Every return sets \<open>EXPORT_LOOP_DONE\<close> through the guard.
\<close>

definition export_loop ::
  "nat \<Rightarrow> 'n env \<Rightarrow> exporter_conf \<Rightarrow> bytes \<Rightarrow> bool \<Rightarrow> self_metrics \<Rightarrow> 'n world \<Rightarrow> (exporter_state \<times> 'n world) option" where
  "export_loop fuel env cfg endpoint transport_ok sm w =
     (if \<not> utf8_valid endpoint \<or> \<not> transport_ok then Some (initial_state sm, w)
      else
        let worker_start_ns = ev_unix_nano env (wd_rest w);
            my_gen = (case wd_ctrl w of Some c \<Rightarrow> ctl_successor_gen c | None \<Rightarrow> 0)
        in export_iterations fuel env cfg my_gen worker_start_ns (initial_state sm) w)"

section \<open>Invariants of the loop\<close>

text \<open>
  \<open>I\<close> holds between the steps of the loop; \<open>J\<close> strengthens it from the successor check of a wake to the
  end of that wake.
\<close>

locale tick_invariant =
  fixes env :: "'n env" and cfg :: exporter_conf and my_gen healthy_since_ns :: u64
    and I J :: "exporter_state \<Rightarrow> 'n world \<Rightarrow> bool"
  assumes J_I: "J s w \<Longrightarrow> I s w"
    and sleep: "I s w \<Longrightarrow> I s (ev_sleep env ms w)"
    and latch: "I s w \<Longrightarrow> J (latch_abdication my_gen s w) w"
    and retry_logs: "J s w \<Longrightarrow> retry_logs env s w = (s', w') \<Longrightarrow> J s' w'"
    and retry_spans: "J s w \<Longrightarrow> retry_spans env s w = (s', w') \<Longrightarrow> J s' w'"
    and fresh_logs: "J s w \<Longrightarrow> \<not> es_abdicated s \<Longrightarrow> fresh_logs env cfg s w = (s', w') \<Longrightarrow> J s' w'"
    and fresh_spans: "J s w \<Longrightarrow> \<not> es_abdicated s \<Longrightarrow> fresh_spans env cfg s w = (s', w') \<Longrightarrow> J s' w'"
    and heartbeat: "I s w \<Longrightarrow> I s (heartbeat w)"
    and healthy: "I s w \<Longrightarrow> healthy_reset env healthy_since_ns s w = (s', w') \<Longrightarrow> I s' w'"
    and retry_metrics: "I s w \<Longrightarrow> retry_metrics env s w = (s', w') \<Longrightarrow> I s' w'"
    and take_metrics: "I s w \<Longrightarrow> take_metrics env w = (pd, w') \<Longrightarrow> I s w'"
    and fresh_metrics: "I s w \<Longrightarrow> fresh_metrics env pd s w = (s', w') \<Longrightarrow> I s' w'"
    and graceful: "I s w \<Longrightarrow> graceful_drain env cfg my_gen s w = (s', w') \<Longrightarrow> I s' w'"
begin

lemma sub_tick_keeps:
  assumes "I s w" "sub_tick env cfg my_gen s w = (k, s', w')"
  shows "I s' w'"
proof (cases "shutdown_requested env w")
  case True
  with assms show ?thesis
    by (auto simp: sub_tick_def shutdown_requested_def split: if_splits)
next
  case False
  let ?s1 = "latch_abdication my_gen s w"
  obtain s2 w2 where r2: "(if \<not> is_deferred (ln_backoff (es_logs ?s1)) (clock env w) then retry_logs env ?s1 w else (?s1, w)) = (s2, w2)"
    by fastforce
  obtain s3 w3 where r3: "(if \<not> es_abdicated s2 \<and> \<not> is_deferred (ln_backoff (es_logs ?s1)) (clock env w) \<and> (ec_log_export cfg \<or> ec_error_log cfg)
      then fresh_logs env cfg s2 w2 else (s2, w2)) = (s3, w3)" by fastforce
  obtain s4 w4 where r4: "(if \<not> is_deferred (ln_backoff (es_spans s3)) (clock env w) then retry_spans env s3 w3 else (s3, w3)) = (s4, w4)"
    by fastforce
  obtain s5 w5 where r5: "(if \<not> es_abdicated s4 \<and> \<not> is_deferred (ln_backoff (es_spans s3)) (clock env w)
      then fresh_spans env cfg s4 w4 else (s4, w4)) = (s5, w5)" by fastforce
  have J1: "J ?s1 w" by (rule latch [OF assms(1)])
  have J2: "J s2 w2" using J1 r2 retry_logs by (auto split: if_splits)
  have J3: "J s3 w3" using J2 r3 fresh_logs by (auto split: if_splits)
  have J4: "J s4 w4" using J3 r4 retry_spans by (auto split: if_splits)
  have J5: "J s5 w5" using J4 r5 fresh_spans by (auto split: if_splits)
  have "(s', w') \<in> {(s2, w2), (s3, w3), (s4, w4), (s5, w5)}"
    using assms(2) False
    unfolding sub_tick_def Let_def r2 prod.case r3 r4 r5 shutdown_requested_def by (auto split: if_splits)
  with J2 J3 J4 J5 show ?thesis
    using J_I by auto
qed

lemma sleep_loop_keeps:
  "I s w \<Longrightarrow> sleep_loop env cfg my_gen interval slept s w = (k, s', w') \<Longrightarrow> I s' w'"
proof (induction "interval - slept" arbitrary: slept s w rule: less_induct)
  case less
  show ?case
  proof (cases "slept < interval")
    case True
    let ?chunk = "min (interval - slept) SHUTDOWN_POLL_INTERVAL"
    obtain k1 s1 w1 where t: "sub_tick env cfg my_gen s (ev_sleep env ?chunk w) = (k1, s1, w1)" by (metis prod_cases3)
    have I1: "I s1 w1"
      using sub_tick_keeps [OF sleep [OF less.prems(1)] t] .
    have "interval - (slept + ?chunk) < interval - slept"
      using True by (simp add: SHUTDOWN_POLL_INTERVAL_def)
    with less.hyps [OF _ I1] less.prems(2) t I1 True show ?thesis
      by (subst (asm) sleep_loop.simps) (auto simp: Let_def split: if_splits)
  next
    case False
    with less.prems show ?thesis
      by (subst (asm) sleep_loop.simps) simp
  qed
qed

lemma metrics_tick_keeps:
  assumes "I s w" "metrics_tick env cfg healthy_since_ns s w = (s', w')"
  shows "I s' w'"
proof -
  obtain s1 w1 where r1: "healthy_reset env healthy_since_ns s (heartbeat w) = (s1, w1)" by fastforce
  have I1: "I s1 w1" by (rule healthy [OF heartbeat [OF assms(1)] r1])
  obtain s2 w2 where r2: "(if ec_metrics_enabled cfg \<and> \<not> is_deferred (ln_backoff (es_metrics s1)) (clock env w1)
      then retry_metrics env s1 w1 else (s1, w1)) = (s2, w2)" by fastforce
  have I2: "I s2 w2" using I1 r2 retry_metrics by (auto split: if_splits)
  obtain pd w3 where r3: "take_metrics env w2 = (pd, w3)" by fastforce
  have I3: "I s2 w3" by (rule take_metrics [OF I2 r3])
  show ?thesis
    using assms(2) I2 I3 fresh_metrics
    unfolding metrics_tick_def Let_def r1 prod.case r2 r3 by (auto split: if_splits)
qed

lemma periodic_tick_keeps:
  assumes "I s w" "periodic_tick env cfg my_gen healthy_since_ns s w = (k, s', w')"
  shows "I s' w'"
proof -
  obtain k1 s1 w1 where l: "sleep_loop env cfg my_gen (interval_ms cfg) 0 s w = (k1, s1, w1)" by (metis prod_cases3)
  have I1: "I s1 w1" by (rule sleep_loop_keeps [OF assms(1) l])
  obtain s2 w2 where g: "graceful_drain env cfg my_gen s1 w1 = (s2, w2)" by fastforce
  obtain s3 w3 where m: "metrics_tick env cfg healthy_since_ns s1 w1 = (s3, w3)" by fastforce
  have "(s', w') \<in> {(s1, w1), (s2, w2), (s3, w3)}"
    using assms(2) unfolding periodic_tick_def l Let_def prod.case g m by (simp split: if_splits)
  with I1 graceful [OF I1 g] metrics_tick_keeps [OF I1 m] show ?thesis
    by auto
qed

lemma iterations_keep:
  "I s w \<Longrightarrow> export_iterations fuel env cfg my_gen healthy_since_ns s w = Some (s', w') \<Longrightarrow> I s' w'"
proof (induction fuel arbitrary: s w)
  case (Suc fuel)
  obtain k s1 w1 where t: "periodic_tick env cfg my_gen healthy_since_ns s w = (k, s1, w1)" by (metis prod_cases3)
  have "I s1 w1" by (rule periodic_tick_keeps [OF Suc.prems(1) t])
  with Suc t graceful show ?case
    by (auto split: if_splits)
qed simp

end

section \<open>The three invariants\<close>

lemma fresh_metrics_balance: "fresh_metrics env pd s w = (s', w') \<Longrightarrow> balance s' = balance s"
  by (auto simp: fresh_metrics_def balance_def offer_def lane_balance_counted algebra_simps
      dest!: send_fresh_balance split: prod.splits)

interpretation loop_balance: tick_invariant env cfg my_gen healthy_since_ns "\<lambda>s w. balance s = b" "\<lambda>s w. balance s = b"
  for env cfg my_gen healthy_since_ns b
  by unfold_locales
    (auto simp: latch_abdication_def healthy_reset_def balance_def [of "_\<lparr>es_abdicated := _\<rparr>"]
      balance_def [of "_\<lparr>es_crash_reset := _\<rparr>"] retry_balance fresh_logs_balance fresh_spans_balance fresh_metrics_balance
      graceful_drain_balance(1) balance_def [symmetric] split: if_splits)

lemma retry_keeps:
  assumes "env_keeps P env" "P w"
  shows "retry_logs env s w = (s', w') \<Longrightarrow> P w'" "retry_spans env s w = (s', w') \<Longrightarrow> P w'"
    "retry_metrics env s w = (s', w') \<Longrightarrow> P w'"
proof -
  have "P (snd (snd (drain_retry_queue_once (ev_send env b sig) clk depth l sm w)))" for b sig clk depth l sm
    unfolding drain_retry_queue_once_def
    by (rule drain_batches_keeps [of P]) (use assms in \<open>auto simp: env_keeps_def\<close>)
  then show "retry_logs env s w = (s', w') \<Longrightarrow> P w'" "retry_spans env s w = (s', w') \<Longrightarrow> P w'"
    "retry_metrics env s w = (s', w') \<Longrightarrow> P w'"
    by (auto simp: retry_logs_def retry_spans_def retry_metrics_def case_prod_beta)
qed

lemma retry_abdicated:
  "retry_logs env s w = (s', w') \<Longrightarrow> es_abdicated s' = es_abdicated s"
  "retry_spans env s w = (s', w') \<Longrightarrow> es_abdicated s' = es_abdicated s"
  by (auto simp: retry_logs_def retry_spans_def case_prod_beta)

lemma send_keeps:
  assumes "env_keeps P env" "P w"
  shows "P (snd (snd (send_fresh_batch (ev_send env b) clk enc depth pd l sm w)))"
    "take_metrics env w = (pd', w') \<Longrightarrow> P w'" "flush_lane env sig l sm w = (l', sm', w') \<Longrightarrow> P w'"
    "send_final env pd sm w = (sm', w') \<Longrightarrow> P w'"
proof -
  have send: "P (snd (ev_send env b sig bytes w))" if "P w" for b sig bytes w
    using assms(1) that by (simp add: env_keeps_def)
  show "P (snd (snd (send_fresh_batch (ev_send env b) clk enc depth pd l sm w)))"
    by (rule send_fresh_keeps [of P]) (use send assms(2) in auto)
  show "take_metrics env w = (pd', w') \<Longrightarrow> P w'"
    using assms by (auto simp: take_metrics_def env_keeps_def case_prod_beta)
  show "flush_lane env sig l sm w = (l', sm', w') \<Longrightarrow> P w'"
    using flush_queue_keeps [of P "ev_send env GRACEFUL_DRAIN_PER_ATTEMPT_BUDGET sig" w "ln_queue l" sm] send assms(2)
    by (auto simp: flush_lane_def case_prod_beta)
  show "send_final env pd sm w = (sm', w') \<Longrightarrow> P w'"
    using send [OF assms(2), of GRACEFUL_DRAIN_PER_ATTEMPT_BUDGET "pdata_signal pd" "ev_encode env pd"] assms(2)
    by (auto simp: send_final_def Let_def case_prod_beta split: send_result.splits if_splits)
qed

lemma fresh_metrics_keeps:
  assumes "env_keeps P env" "P w" "fresh_metrics env pd s w = (s', w')"
  shows "P w'"
  using send_keeps(1) [OF assms(1,2), of PERIODIC_SEND_BUDGET "clock env" "ev_encode env" retry_buffer_depth pd
      "es_metrics s" "es_counters s"] assms(3)
  by (auto simp: fresh_metrics_def case_prod_beta)

lemma drain_metrics_keeps:
  assumes "env_keeps P env" "P w" "drain_metrics env s w = (s', w')"
  shows "P w'"
proof -
  obtain l sm w1 where f: "flush_lane env Metrics (es_metrics s) (es_counters s) w = (l, sm, w1)" by (metis prod_cases3)
  obtain pd w2 where t: "take_metrics env w1 = (pd, w2)" by fastforce
  obtain sm2 w3 where r: "send_final env pd sm w2 = (sm2, w3)" by fastforce
  have "P w3"
    using send_keeps(4) [OF assms(1) send_keeps(2) [OF assms(1) send_keeps(3) [OF assms(1,2) f] t] r] .
  with assms(3) f t r show ?thesis
    by (simp add: drain_metrics_def)
qed

text \<open>
  The predicate must also be stable under what the exporter itself writes: its own drains of the rings
  when no successor is announced.
\<close>

lemma graceful_drain_keeps:
  assumes "env_keeps P env" "P w" "graceful_drain env cfg my_gen s w = (s', w')"
    and take: "\<And>s w opd t u. \<not> successor_announced (wd_ctrl w0) my_gen \<Longrightarrow> P w \<Longrightarrow> take_logs env cfg s w = (opd, t, u) \<Longrightarrow> P u"
      "\<And>s w opd t u. \<not> successor_announced (wd_ctrl w0) my_gen \<Longrightarrow> P w \<Longrightarrow> take_spans env cfg s w = (opd, t, u) \<Longrightarrow> P u"
    and w0: "w0 = w"
  shows "P w'"
proof -
  let ?succ = "successor_announced (wd_ctrl w) my_gen"
  obtain s1 w1 where m: "(if ec_metrics_enabled cfg then drain_metrics env s w else (s, w)) = (s1, w1)" by fastforce
  obtain l sm w2 where fl: "flush_lane env Logs (es_logs s1) (es_counters s1) w1 = (l, sm, w2)" by (metis prod_cases3)
  let ?s2 = "s1\<lparr>es_logs := l, es_counters := sm\<rparr>"
  obtain s3 w3 where dl: "(if \<not> ?succ \<and> (ec_log_export cfg \<or> ec_error_log cfg)
      then drain_final env (take_logs env cfg ?s2 w2) else (?s2, w2)) = (s3, w3)" by fastforce
  obtain l' sm' w4 where fs: "flush_lane env Traces (es_spans s3) (es_counters s3) w3 = (l', sm', w4)" by (metis prod_cases3)
  let ?s4 = "s3\<lparr>es_spans := l', es_counters := sm'\<rparr>"
  have last: "(if \<not> ?succ then drain_final env (take_spans env cfg ?s4 w4) else (?s4, w4)) = (s', w')"
    using assms(3) unfolding graceful_drain_def Let_def m prod.case fl dl fs .
  have final: "P v" if "drain_final env (opd, t, u) = (t', v)" "P u" for opd t u t' v
    using that send_keeps(4) [OF assms(1) that(2)] by (auto simp: drain_final_def split: option.splits prod.splits)
  have w1: "P w1"
    using m drain_metrics_keeps [OF assms(1,2)] assms(2) by (auto split: if_splits)
  have w2: "P w2"
    by (rule send_keeps(3) [OF assms(1) w1 fl])
  obtain opd t u where tk: "take_logs env cfg ?s2 w2 = (opd, t, u)" by (metis prod_cases3)
  have w3: "P w3"
    using dl tk final w2 take(1) [OF _ w2 tk] w0 by (auto split: if_splits)
  have w4: "P w4"
    by (rule send_keeps(3) [OF assms(1) w3 fs])
  obtain opd t u where tk: "take_spans env cfg ?s4 w4 = (opd, t, u)" by (metis prod_cases3)
  show ?thesis
    using last tk final w4 take(2) [OF _ w4 tk] w0 by (auto split: if_splits)
qed

definition consumer_offsets :: "'n world \<Rightarrow> (u64 \<times> u64) list option \<times> u64 list option" where
  "consumer_offsets w =
     (map_option (map (\<lambda>wl. (read_offset (wl_access wl), read_offset (wl_error wl)))) (wd_logs w),
      map_option (map read_offset) (wd_spans w))"

definition under_successor :: "u64 \<Rightarrow> (u64 \<times> u64) list option \<times> u64 list option \<Rightarrow> 'n world \<Rightarrow> bool" where
  "under_successor my_gen offsets w \<longleftrightarrow> successor_announced (wd_ctrl w) my_gen \<and> consumer_offsets w = offsets"

lemma under_successor_ctrl:
  "under_successor my_gen offsets w \<Longrightarrow> under_successor my_gen offsets (heartbeat w)"
  "under_successor my_gen offsets w \<Longrightarrow> healthy_reset env h s w = (s', w') \<Longrightarrow> under_successor my_gen offsets w'"
  by (auto simp: under_successor_def heartbeat_def healthy_reset_def successor_announced_def consumer_offsets_def
      split: option.splits if_splits)

lemma under_successor_graceful:
  assumes "env_keeps (under_successor my_gen offsets) env" "under_successor my_gen offsets w"
    "graceful_drain env cfg my_gen s w = (s', w')"
  shows "under_successor my_gen offsets w'"
proof (rule graceful_drain_keeps [OF assms])
  have "successor_announced (wd_ctrl w) my_gen"
    using assms(2) by (simp add: under_successor_def)
  then show "\<not> successor_announced (wd_ctrl w) my_gen \<Longrightarrow> under_successor my_gen offsets u"
    "\<not> successor_announced (wd_ctrl w) my_gen \<Longrightarrow> under_successor my_gen offsets u" for u
    by blast+
qed (rule refl)

interpretation abdication: tick_invariant env cfg my_gen healthy_since_ns
  "\<lambda>s w. env_keeps (under_successor my_gen offsets) env \<longrightarrow> under_successor my_gen offsets w"
  "\<lambda>s w. env_keeps (under_successor my_gen offsets) env \<longrightarrow> under_successor my_gen offsets w \<and> es_abdicated s"
  for env :: "'n env" and cfg my_gen healthy_since_ns offsets
proof unfold_locales
  let ?K = "env_keeps (under_successor my_gen offsets) env"
  let ?U = "under_successor my_gen offsets"
  fix s s' :: exporter_state and w w' :: "'n world" and pd ms
  show "?K \<longrightarrow> ?U w \<and> es_abdicated s \<Longrightarrow> ?K \<longrightarrow> ?U w"
    by blast
  show "?K \<longrightarrow> ?U w \<Longrightarrow> ?K \<longrightarrow> ?U (ev_sleep env ms w)"
    by (simp add: env_keeps_def)
  show "?K \<longrightarrow> ?U w \<Longrightarrow> ?K \<longrightarrow> ?U w \<and> es_abdicated (latch_abdication my_gen s w)"
    by (simp add: latch_abdication_def under_successor_def)
  show "?K \<longrightarrow> ?U w \<and> es_abdicated s \<Longrightarrow> retry_logs env s w = (s', w') \<Longrightarrow> ?K \<longrightarrow> ?U w' \<and> es_abdicated s'"
    "?K \<longrightarrow> ?U w \<and> es_abdicated s \<Longrightarrow> retry_spans env s w = (s', w') \<Longrightarrow> ?K \<longrightarrow> ?U w' \<and> es_abdicated s'"
    "?K \<longrightarrow> ?U w \<Longrightarrow> retry_metrics env s w = (s', w') \<Longrightarrow> ?K \<longrightarrow> ?U w'"
    using retry_keeps [of ?U env w s s' w'] retry_abdicated by blast+
  show "?K \<longrightarrow> ?U w \<and> es_abdicated s \<Longrightarrow> \<not> es_abdicated s \<Longrightarrow> fresh_logs env cfg s w = (s', w') \<Longrightarrow> ?K \<longrightarrow> ?U w' \<and> es_abdicated s'"
    "?K \<longrightarrow> ?U w \<and> es_abdicated s \<Longrightarrow> \<not> es_abdicated s \<Longrightarrow> fresh_spans env cfg s w = (s', w') \<Longrightarrow> ?K \<longrightarrow> ?U w' \<and> es_abdicated s'"
    by blast+
  show "?K \<longrightarrow> ?U w \<Longrightarrow> ?K \<longrightarrow> ?U (heartbeat w)"
    "?K \<longrightarrow> ?U w \<Longrightarrow> healthy_reset env healthy_since_ns s w = (s', w') \<Longrightarrow> ?K \<longrightarrow> ?U w'"
    using under_successor_ctrl by blast+
  show "?K \<longrightarrow> ?U w \<Longrightarrow> take_metrics env w = (pd, w') \<Longrightarrow> ?K \<longrightarrow> ?U w'"
    using send_keeps(2) [of ?U env w pd w'] by blast
  show "?K \<longrightarrow> ?U w \<Longrightarrow> fresh_metrics env pd s w = (s', w') \<Longrightarrow> ?K \<longrightarrow> ?U w'"
    using fresh_metrics_keeps [of ?U env w pd s s' w'] by blast
  show "?K \<longrightarrow> ?U w \<Longrightarrow> graceful_drain env cfg my_gen s w = (s', w') \<Longrightarrow> ?K \<longrightarrow> ?U w'"
    using under_successor_graceful [of my_gen offsets env w cfg s s' w'] by blast
qed

text \<open>
  A shutdown signal is due: \<open>rank\<close> bounds the sleeps before one is set, and nothing postpones it.
\<close>

definition signal_due :: "('n \<Rightarrow> nat) \<Rightarrow> 'n env \<Rightarrow> bool" where
  "signal_due rank env \<longleftrightarrow>
     (\<forall>n. env_keeps (\<lambda>w. rank (wd_rest w) \<le> n) env) \<and>
     (\<forall>ms w. 0 < rank (wd_rest w) \<longrightarrow> rank (wd_rest (ev_sleep env ms w)) < rank (wd_rest w)) \<and>
     (\<forall>x. rank x = 0 \<longrightarrow> ev_quit env x \<or> ev_terminate env x)"

lemma rest_ctrl:
  "wd_rest (heartbeat w) = wd_rest w" "healthy_reset env h s w = (s', w') \<Longrightarrow> wd_rest w' = wd_rest w"
  by (auto simp: heartbeat_def healthy_reset_def split: if_splits)

lemma fresh_rank:
  assumes "env_keeps (\<lambda>w. Q (wd_rest w)) env" "Q (wd_rest w)"
  shows "fresh_logs env cfg s w = (s', w') \<Longrightarrow> Q (wd_rest w')" "fresh_spans env cfg s w = (s', w') \<Longrightarrow> Q (wd_rest w')"
proof -
  note send = send_keeps(1) [OF assms(1), of _ PERIODIC_SEND_BUDGET "clock env" "ev_encode env" retry_buffer_depth]
  obtain opd s1 w1 where t: "take_logs env cfg s w = (opd, s1, w1)" by (metis prod_cases3)
  show "fresh_logs env cfg s w = (s', w') \<Longrightarrow> Q (wd_rest w')"
    using send [of w1] take_logs_balance(7) [OF t] assms(2)
    by (auto simp: fresh_logs_def t case_prod_beta split: option.splits)
  obtain opd s1 w1 where t: "take_spans env cfg s w = (opd, s1, w1)" by (metis prod_cases3)
  show "fresh_spans env cfg s w = (s', w') \<Longrightarrow> Q (wd_rest w')"
    using send [of w1] take_spans_balance(7) [OF t] assms(2)
    by (auto simp: fresh_spans_def t case_prod_beta split: option.splits)
qed

lemma graceful_rank:
  assumes "env_keeps (\<lambda>w. Q (wd_rest w)) env" "Q (wd_rest w)" "graceful_drain env cfg my_gen s w = (s', w')"
  shows "Q (wd_rest w')"
  by (rule graceful_drain_keeps [OF assms]) (auto dest: take_logs_balance(7) take_spans_balance(7))

interpretation countdown: tick_invariant env cfg my_gen healthy_since_ns
  "\<lambda>s w. signal_due rank env \<longrightarrow> rank (wd_rest w) \<le> n" "\<lambda>s w. signal_due rank env \<longrightarrow> rank (wd_rest w) \<le> n"
  for env :: "'n env" and cfg my_gen healthy_since_ns rank n
proof unfold_locales
  have keeps: "signal_due rank env \<Longrightarrow> env_keeps (\<lambda>w. rank (wd_rest w) \<le> n) env"
    by (simp add: signal_due_def)
  fix s s' :: exporter_state and w w' :: "'n world" and pd ms
  assume I: "signal_due rank env \<longrightarrow> rank (wd_rest w) \<le> n"
  show "signal_due rank env \<longrightarrow> rank (wd_rest (ev_sleep env ms w)) \<le> n"
    using I keeps by (simp add: env_keeps_def)
  show "retry_logs env s w = (s', w') \<Longrightarrow> signal_due rank env \<longrightarrow> rank (wd_rest w') \<le> n"
    "retry_spans env s w = (s', w') \<Longrightarrow> signal_due rank env \<longrightarrow> rank (wd_rest w') \<le> n"
    "retry_metrics env s w = (s', w') \<Longrightarrow> signal_due rank env \<longrightarrow> rank (wd_rest w') \<le> n"
    using retry_keeps [OF keeps, of w s s' w'] I by blast+
  show "fresh_logs env cfg s w = (s', w') \<Longrightarrow> signal_due rank env \<longrightarrow> rank (wd_rest w') \<le> n"
    "fresh_spans env cfg s w = (s', w') \<Longrightarrow> signal_due rank env \<longrightarrow> rank (wd_rest w') \<le> n"
    using fresh_rank [where Q = "\<lambda>x. rank x \<le> n", OF keeps, of w cfg s s' w'] I by blast+
  show "take_metrics env w = (pd, w') \<Longrightarrow> signal_due rank env \<longrightarrow> rank (wd_rest w') \<le> n"
    using send_keeps(2) [OF keeps, of w pd w'] I by blast
  show "fresh_metrics env pd s w = (s', w') \<Longrightarrow> signal_due rank env \<longrightarrow> rank (wd_rest w') \<le> n"
    using fresh_metrics_keeps [OF keeps, of w pd s s' w'] I by blast
  show "graceful_drain env cfg my_gen s w = (s', w') \<Longrightarrow> signal_due rank env \<longrightarrow> rank (wd_rest w') \<le> n"
    using graceful_rank [where Q = "\<lambda>x. rank x \<le> n", OF keeps, of w cfg my_gen s s' w'] I by blast
qed (auto simp: rest_ctrl)

end
