(* ===== verification/Export_Liveness.thy ===== *)
theory Export_Liveness
  imports Export_Loop
begin

text \<open>
  What the exporter's loop achieves as a whole: it returns when a shutdown signal comes, every record it
  took into a batch is accounted for, and it leaves the rings alone once a successor is announced.
\<close>

section \<open>Termination of the loop\<close>

lemma tick_counts_down:
  assumes "signal_due rank env" "0 < interval_ms cfg" "0 < rank (wd_rest w)"
    and "periodic_tick env cfg my_gen start s w = (k, s', w')"
  shows "rank (wd_rest w') < rank (wd_rest w)"
proof -
  let ?chunk = "min (interval_ms cfg) SHUTDOWN_POLL_INTERVAL"
  let ?n = "rank (wd_rest w) - 1"
  obtain k0 s0 w0 where t0: "sub_tick env cfg my_gen s (ev_sleep env ?chunk w) = (k0, s0, w0)" by (metis prod_cases3)
  obtain k1 s1 w1 where l: "sleep_loop env cfg my_gen (interval_ms cfg) 0 s w = (k1, s1, w1)" by (metis prod_cases3)
  have "rank (wd_rest (ev_sleep env ?chunk w)) < rank (wd_rest w)"
    using assms(1,3) unfolding signal_due_def by blast
  then have "rank (wd_rest (ev_sleep env ?chunk w)) \<le> ?n"
    by simp
  then have r0: "rank (wd_rest w0) \<le> ?n"
    using countdown.sub_tick_keeps [OF _ t0, of rank ?n] assms(1) by blast
  have "if k0 \<noteq> NoShutdown then (k1, s1, w1) = (k0, s0, w0)
    else sleep_loop env cfg my_gen (interval_ms cfg) ?chunk s0 w0 = (k1, s1, w1)"
    using l t0 assms(2) by (subst (asm) sleep_loop.simps) (simp add: Let_def split: if_splits)
  moreover have "signal_due rank env \<longrightarrow> rank (wd_rest w0) \<le> ?n"
    using r0 by blast
  note countdown.sleep_loop_keeps [OF this]
  ultimately have r1: "rank (wd_rest w1) \<le> ?n"
    using r0 assms(1) by (cases "k0 = NoShutdown") auto
  obtain s2 w2 where g: "graceful_drain env cfg my_gen s1 w1 = (s2, w2)" by fastforce
  obtain s3 w3 where m: "metrics_tick env cfg start s1 w1 = (s3, w3)" by fastforce
  have "w' \<in> {w1, w2, w3}"
    using assms(4) unfolding periodic_tick_def l Let_def prod.case g m by (auto split: if_splits)
  moreover have "rank (wd_rest w2) \<le> ?n"
    using countdown.graceful [OF _ g, of rank ?n] r1 assms(1) by blast
  moreover have "rank (wd_rest w3) \<le> ?n"
    using countdown.metrics_tick_keeps [OF _ m, of rank ?n] r1 assms(1) by blast
  ultimately show ?thesis
    using r1 assms(3) by auto
qed

lemma iterations_return:
  "signal_due rank env \<Longrightarrow> 0 < interval_ms cfg \<Longrightarrow> rank (wd_rest w) < fuel \<Longrightarrow>
     \<exists>s' w'. export_iterations fuel env cfg my_gen start s w = Some (s', w')"
proof (induction fuel arbitrary: s w)
  case (Suc fuel)
  obtain k s1 w1 where t: "periodic_tick env cfg my_gen start s w = (k, s1, w1)" by (metis prod_cases3)
  show ?case
  proof (cases "rank (wd_rest w) = 0")
    case True
    with Suc.prems(1) have "quit env w \<or> terminate env w"
      by (simp add: signal_due_def quit_def terminate_def)
    then show ?thesis
      by (cases "graceful_drain env cfg my_gen s w") auto
  next
    case False
    then have "rank (wd_rest w1) < fuel"
      using tick_counts_down [OF Suc.prems(1,2) _ t] Suc.prems(3) by simp
    with Suc.IH [OF Suc.prems(1,2)] t show ?thesis
      by (cases "graceful_drain env cfg my_gen s w") auto
  qed
qed simp

section \<open>What a quit leaves\<close>

definition flushed :: "exporter_conf \<Rightarrow> exporter_state \<Rightarrow> bool" where
  "flushed cfg s \<longleftrightarrow> ln_queue (es_logs s) = [] \<and> ln_queue (es_spans s) = [] \<and>
     (ec_metrics_enabled cfg \<longrightarrow> ln_queue (es_metrics s) = [])"

lemma sleep_loop_no_terminate:
  assumes "\<And>x. \<not> ev_terminate env x"
  shows "sleep_loop env cfg my_gen interval slept s w = (k, s', w') \<Longrightarrow> k \<noteq> Terminate"
proof (induction "interval - slept" arbitrary: slept s w rule: less_induct)
  case less
  let ?chunk = "min (interval - slept) SHUTDOWN_POLL_INTERVAL"
  obtain k1 s1 w1 where t: "sub_tick env cfg my_gen s (ev_sleep env ?chunk w) = (k1, s1, w1)" by (metis prod_cases3)
  have "k1 \<noteq> Terminate"
    using t assms unfolding sub_tick_def Let_def terminate_def shutdown_kind_def
    by (auto split: if_splits prod.splits)
  moreover have "interval - (slept + ?chunk) < interval - slept" if "slept < interval"
    using that by (simp add: SHUTDOWN_POLL_INTERVAL_def)
  ultimately show ?case
    using less t unfolding sleep_loop.simps [of env cfg my_gen interval slept]
    by (auto simp: Let_def split: if_splits)
qed

lemma iterations_flushed:
  assumes "\<And>x. \<not> ev_terminate env x"
  shows "export_iterations fuel env cfg my_gen start s w = Some (s', w') \<Longrightarrow> flushed cfg s'"
proof (induction fuel arbitrary: s w)
  case (Suc fuel)
  have drain: "flushed cfg t'" if "graceful_drain env cfg my_gen t u = (t', u')" for t u t' u'
    using graceful_drain_balance [OF that] by (simp add: flushed_def)
  obtain k s1 w1 where t: "periodic_tick env cfg my_gen start s w = (k, s1, w1)" by (metis prod_cases3)
  obtain k0 s0 w0 where l: "sleep_loop env cfg my_gen (interval_ms cfg) 0 s w = (k0, s0, w0)" by (metis prod_cases3)
  have "k \<noteq> NoShutdown \<Longrightarrow> flushed cfg s1"
    using t l sleep_loop_no_terminate [OF assms l] assms drain
    by (auto simp: periodic_tick_def terminate_def split: if_splits prod.splits)
  with Suc t assms drain show ?case
    by (auto simp: terminate_def split: if_splits)
qed simp

section \<open>A small world\<close>

text \<open>
  A rest that counts the wakes before \<open>ngx_quit\<close>; each sleep takes one. The collector does not answer.
\<close>

definition demo_export_env :: "nat env" where
  "demo_export_env = \<lparr>ev_send = \<lambda>budget sig bytes w. (DeadlineExceeded, w), ev_sleep = \<lambda>ms w. w\<lparr>wd_rest := wd_rest w - 1\<rparr>,
     ev_quit = \<lambda>n. n = 0, ev_terminate = \<lambda>n. False, ev_msec = \<lambda>n. 0, ev_unix_nano = \<lambda>n. 0,
     ev_collect_metrics = \<lambda>w. (\<lparr>batch_resource = \<lparr>res_attributes = []\<rparr>,
       batch_scope = \<lparr>scope_name = [], scope_version = []\<rparr>, batch_metrics = []\<rparr>, w),
     ev_encode = \<lambda>pd. []\<rparr>"

definition demo_export_conf :: exporter_conf where
  "demo_export_conf = \<lparr>ec_resource = \<lparr>rc_service_name = [], rc_resource_attrs = [], rc_master_pid = 7, rc_version = []\<rparr>,
     ec_metric_interval_ms = 1000, ec_metrics_enabled = True, ec_log_export = True, ec_error_log = True,
     ec_n_active = 1, ec_log_slots = 1, ec_span_slots = 1\<rparr>"

definition demo_export_world :: "nat world" where
  "demo_export_world = \<lparr>wd_logs = None, wd_spans = Some [fresh_ring 1024], wd_ctrl = Some (zeroed_control\<lparr>ctl_successor_gen := 3\<rparr>),
     wd_rest = 9\<rparr>"

lemma demo_export_signal_due: "signal_due id demo_export_env"
  by (auto simp: signal_due_def env_keeps_def demo_export_env_def)

section \<open>The chunked sleep\<close>

text \<open>The wakes of one interval as a list of sleeps, stopped by the first shutdown.\<close>

fun run_chunks ::
  "'n env \<Rightarrow> exporter_conf \<Rightarrow> u64 \<Rightarrow> nat list \<Rightarrow> exporter_state \<Rightarrow> 'n world \<Rightarrow> ShutdownKind \<times> exporter_state \<times> 'n world" where
  "run_chunks env cfg my_gen [] s w = (NoShutdown, s, w)"
| "run_chunks env cfg my_gen (chunk # chunks) s w =
     (let (k, s1, w1) = sub_tick env cfg my_gen s (ev_sleep env chunk w)
      in if k \<noteq> NoShutdown then (k, s1, w1) else run_chunks env cfg my_gen chunks s1 w1)"

fun chunks_of :: "nat \<Rightarrow> nat list" where
  "chunks_of n = (if n = 0 then [] else if n \<le> 250 then [n] else 250 # chunks_of (n - 250))"

declare chunks_of.simps [simp del]

lemma chunks_of_props:
  "sum_list (chunks_of n) = n \<and> length (chunks_of n) = (n + 249) div 250 \<and> (\<forall>c\<in>set (chunks_of n). 0 < c \<and> c \<le> 250)"
proof (induction n rule: chunks_of.induct)
  case (1 n)
  consider (none) "n = 0" | (last) "0 < n" "n \<le> 250" | (more) "250 < n"
    by linarith
  then show ?case
  proof cases
    case none
    then show ?thesis
      by (simp add: chunks_of.simps [of 0])
  next
    case last
    then have "(n + 249) div 250 = 1"
      by (intro div_nat_eqI) simp_all
    with last show ?thesis
      by (simp add: chunks_of.simps [of n])
  next
    case more
    then have "(n + 249) div 250 = Suc ((n - 250 + 249) div 250)"
      using le_div_geq [of 250 "n + 249"] by (simp add: add.commute)
    with 1 more show ?thesis
      by (simp add: chunks_of.simps [of n])
  qed
qed

lemma sleep_loop_chunks:
  "sleep_loop env cfg my_gen interval slept s w = run_chunks env cfg my_gen (chunks_of (interval - slept)) s w"
proof (induction "interval - slept" arbitrary: slept s w rule: less_induct)
  case less
  consider "interval \<le> slept" | "slept < interval" "interval - slept \<le> 250" | "250 < interval - slept"
    by linarith
  then show ?case
  proof cases
    case 1
    then show ?thesis
      by (simp add: sleep_loop.simps chunks_of.simps)
  next
    case 2
    then show ?thesis
      by (simp add: sleep_loop.simps [of _ _ _ interval] chunks_of.simps [of "interval - slept"] SHUTDOWN_POLL_INTERVAL_def
          Let_def case_prod_beta)
  next
    case 3
    then have "sleep_loop env cfg my_gen interval (slept + 250) s' w' =
        run_chunks env cfg my_gen (chunks_of (interval - slept - 250)) s' w'" for s' w'
      using less [of "slept + 250"] by simp
    with 3 show ?thesis
      by (simp add: sleep_loop.simps [of _ _ _ _ slept] chunks_of.simps [of "interval - slept"] SHUTDOWN_POLL_INTERVAL_def
          Let_def case_prod_beta)
  qed
qed

section \<open>Properties\<close>

text \<open>
  C1. The export loop returns. If a shutdown signal is at most \<open>rank\<close> sleeps away, whatever else the
  collector, the workers and the master do meanwhile, then \<open>rank\<close> + 1 iterations are enough; and if the
  signal is a quit, then every lane's retry queue has been flushed on return.
\<close>

theorem export_loop_returns:
  assumes "signal_due rank env" "0 < interval_ms cfg" "rank (wd_rest w) < fuel"
  shows "\<exists>s' w'. export_loop fuel env cfg endpoint transport_ok sm w = Some (s', w') \<and>
     ((\<forall>x. \<not> ev_terminate env x) \<longrightarrow> flushed cfg s')"
proof (cases "\<not> utf8_valid endpoint \<or> \<not> transport_ok")
  case True
  then show ?thesis
    by (auto simp: export_loop_def flushed_def initial_state_def fresh_lane_def)
next
  case False
  define my_gen where "my_gen = (case wd_ctrl w of Some c \<Rightarrow> ctl_successor_gen c | None \<Rightarrow> 0)"
  have run: "export_loop fuel env cfg endpoint transport_ok sm w =
      export_iterations fuel env cfg my_gen (ev_unix_nano env (wd_rest w)) (initial_state sm) w"
    unfolding export_loop_def if_not_P [OF False] Let_def my_gen_def ..
  obtain s' w' where ret: "export_iterations fuel env cfg my_gen (ev_unix_nano env (wd_rest w)) (initial_state sm) w = Some (s', w')"
    using iterations_return [OF assms] by blast
  then have "(\<forall>x. \<not> ev_terminate env x) \<longrightarrow> flushed cfg s'"
    using iterations_flushed by blast
  with ret show ?thesis
    unfolding run by blast
qed

theorem export_loop_returns_witness:
  "\<exists>s' w'. export_loop 10 demo_export_env demo_export_conf (lit ''http://collector:4318'') True zero_metrics demo_export_world = Some (s', w') \<and>
     flushed demo_export_conf s'"
proof -
  have "0 < interval_ms demo_export_conf" "id (wd_rest demo_export_world) < 10" "\<forall>x. \<not> ev_terminate demo_export_env x"
    by (simp_all add: interval_ms_def demo_export_conf_def demo_export_world_def demo_export_env_def)
  with export_loop_returns [OF demo_export_signal_due, of demo_export_conf demo_export_world 10] show ?thesis
    by blast
qed


text \<open>
  A quit finds one span in a ring and no collector: the span is lost, and \<open>DROPPED_RECORDS\<close> does not say so.
\<close>

definition lossy_world :: "ring \<Rightarrow> nat world" where
  "lossy_world r = \<lparr>wd_logs = None, wd_spans = Some [r], wd_ctrl = None, wd_rest = 0\<rparr>"

lemma final_span_collected:
  assumes "push (fresh_ring 4096) (concat (span_record_writes sample_span)) = (r, True)"
  shows "\<exists>r'. collect_span_records rc now [r] =
     ((\<lparr>spans_resource = \<lparr>res_attributes = build_resource_attrs rc\<rparr>, spans_scope = exporter_scope rc,
        spans_spans = [span_from_fields (capped_fields sample_span)]\<rparr>, 0), [r'])"
proof -
  let ?rec = "concat (span_record_writes sample_span)"
  have "ring_queued (4 + length ?rec + 0) (fresh_ring 4096) []"
    by (rule fresh_ring_queued) simp_all
  from ring_push_bounded [OF this] assms have "ring_queued 0 r [?rec]" "drop_count r = 0"
    by (auto simp: drop_count_fresh)
  then have "span_stream.holds (unat (cap r)) 0 r ([sample_span], 0)"
    using wf_sample_span by (simp add: span_stream.holds_def)
  from span_stream.collect_ring_holds [OF this, of MAX_SPAN_RECORDS_PER_WORKER_PER_DRAIN now]
  show ?thesis
    by (auto simp: collect_span_records_def MAX_SPAN_RECORDS_PER_WORKER_PER_DRAIN_def)
qed

lemma span_ring_ready: "\<exists>r. push (fresh_ring 4096) (concat (span_record_writes sample_span)) = (r, True)"
proof -
  let ?rec = "concat (span_record_writes sample_span)"
  have "ring_queued (4 + length ?rec + 0) (fresh_ring 4096) []"
    by (rule fresh_ring_queued) simp_all
  moreover have "unat (cap (fresh_ring 4096)) = 4096"
    by (simp add: fresh_ring_def)
  ultimately show ?thesis
    using ring_push_bounded [of ?rec 0 "fresh_ring 4096" "[]"] span_frame_bound [OF wf_sample_span] by auto
qed

lemma graceful_loss_uncounted:
  assumes "push (fresh_ring 4096) (concat (span_record_writes sample_span)) = (r, True)"
  shows "\<exists>s' w'. export_loop 1 demo_export_env demo_export_conf [] True zero_metrics (lossy_world r) = Some (s', w') \<and>
     es_offered s' = 1 \<and> sm_lost (es_counters s') = 1 \<and> sm_dropped_records (es_counters s') = 0 \<and>
     es_traces_dropped s' = 0"
proof -
  obtain r' where c: "collect_span_records (ec_resource demo_export_conf) 0 [r] =
     ((\<lparr>spans_resource = \<lparr>res_attributes = build_resource_attrs (ec_resource demo_export_conf)\<rparr>,
        spans_scope = exporter_scope (ec_resource demo_export_conf),
        spans_spans = [span_from_fields (capped_fields sample_span)]\<rparr>, 0), [r'])"
    using final_span_collected [OF assms] by blast
  have noop: "loop_processor = Noop"
    by (simp add: loop_processor_def processor_from_config_def) code_simp
  let ?s = "initial_state zero_metrics"
  have run: "export_loop 1 demo_export_env demo_export_conf [] True zero_metrics (lossy_world r) =
      Some (graceful_drain demo_export_env demo_export_conf 0 ?s (lossy_world r))"
    by (simp add: export_loop_def quit_def terminate_def demo_export_env_def lossy_world_def)
  have "es_offered (fst (graceful_drain demo_export_env demo_export_conf 0 ?s (lossy_world r))) = 1 \<and>
    sm_lost (es_counters (fst (graceful_drain demo_export_env demo_export_conf 0 ?s (lossy_world r)))) = 1 \<and>
    sm_dropped_records (es_counters (fst (graceful_drain demo_export_env demo_export_conf 0 ?s (lossy_world r)))) = 0 \<and>
    es_traces_dropped (fst (graceful_drain demo_export_env demo_export_conf 0 ?s (lossy_world r))) = 0"
    using c
    by (simp add: graceful_drain_def drain_metrics_def flush_lane_def take_metrics_def send_final_def drain_final_def
        take_logs_def take_spans_def get_n_workers_def successor_announced_def offer_def process_def noop keep_span_def
        count_pdata_records_def count_data_points_def pdata_signal_def lost_def Let_def
        demo_export_env_def lossy_world_def initial_state_def fresh_lane_def zero_metrics_def)
      (simp add: demo_export_conf_def)
  then show ?thesis
    unfolding run by (cases "graceful_drain demo_export_env demo_export_conf 0 ?s (lossy_world r)") auto
qed




text \<open>
  C22. The interval sleep ends: it is a sequence of \<open>ceil (interval / 250)\<close> wakes whose sleeps add up to
  the interval and are each at most 250 ms, so a shutdown signal is seen within 250 ms of sleeping; it ends
  early exactly at the first wake that sees one.
\<close>

theorem sleep_is_chunked:
  "\<exists>chunks. sleep_loop env cfg my_gen interval 0 s w = run_chunks env cfg my_gen chunks s w \<and>
     sum_list chunks = interval \<and> length chunks = (interval + 249) div 250 \<and>
     (\<forall>c\<in>set chunks. 0 < c \<and> c \<le> 250)"
  using sleep_loop_chunks [of env cfg my_gen interval 0 s w] chunks_of_props [of interval] by auto

theorem sleep_is_chunked_witness:
  "\<exists>chunks. sleep_loop demo_export_env demo_export_conf 0 600 0 (initial_state zero_metrics) demo_export_world =
     run_chunks demo_export_env demo_export_conf 0 chunks (initial_state zero_metrics) demo_export_world \<and>
     sum_list chunks = 600 \<and> length chunks = 3"
  using sleep_is_chunked [of demo_export_env demo_export_conf 0 600 "initial_state zero_metrics" demo_export_world] by auto

end
