(* ===== verification/Log_Phase.thy ===== *)
theory Log_Phase
  imports Zone_Layout Route_Tables Endpoint Span_Start Exporter_Control
begin

text \<open>
  The log-phase handler, \<open>LogPhaseHandler\<close> of \<^verbatim>\<open>src/src/metric_source/instrumented.rs\<close>, which runs once
  per request in a worker: it bumps the worker's metrics block, pushes an access record when the location
  selects it, writes an exemplar and pushes a span record when the request is sampled. The request record
  holds what the handler reads of nginx's request; null pointers are \<open>None\<close>. Evaluating complex values and
  variables, the header iterator and the clocks are parameters. Buffer overruns and division by zero are
  the outcome \<open>Panic\<close>.
\<close>

section \<open>What the handler reads\<close>

datatype sockaddr = Inet u16 | Inet6 u16 | OtherFamily

record connection =
  cn_sent :: u64
  cn_addr_text :: bytes
  cn_ssl :: bool
  cn_sockaddr :: "sockaddr option"
  cn_local_sockaddr :: "sockaddr option option"

text \<open>An entry of \<open>r->upstream_states\<close>; \<open>us_peer\<close> is false for a boundary marker.\<close>

record upstream_state =
  us_peer :: bool
  us_response_time :: u64
  us_header_time :: u64
  us_connect_time :: u64
  us_bytes_received :: u64
  us_bytes_sent :: u64

text \<open>
  \<open>rl_upstream\<close> is \<open>r->upstream\<close>: absent, present without a shared zone, or with the address of one.
  \<open>rl_clcf\<close> is the address of the matched location, 0 if there is none.
\<close>

record 'cv log_request =
  rl_http :: http_request
  rl_method_name :: bytes
  rl_status :: u64
  rl_http_version :: u32
  rl_clcf :: nat
  rl_loc_conf :: "'cv LocationConf option"
  rl_connection :: "connection option"
  rl_upstream :: "nat option option"
  rl_upstream_states :: "upstream_state list option"
  rl_request_length :: u64
  rl_start_sec :: u64
  rl_start_msec :: u64
  rl_uri :: bytes
  rl_args :: bytes
  rl_content_length_n :: int
  rl_header_size :: u64
  rl_server_name :: "bytes option"
  rl_host_header :: bytes

record 'cv log_env =
  le_complex_value :: "'cv \<Rightarrow> bytes option"
  le_get_variable :: "bytes \<Rightarrow> bytes option"
  le_hdr_iter :: "header_entry list \<Rightarrow> (bytes \<times> bytes) list"
  le_unix_nano :: u64
  le_mono_ns :: nat
  le_msec :: u64

record log_conf =
  lg_slab :: nat
  lg_log_cap :: nat
  lg_zones :: zones
  lg_any_log_export :: bool
  lg_routes :: "RouteEntry list"
  lg_upstreams :: "RouteEntry list"

text \<open>The mapped zones as the worker sees them, the liveness latch and the number of alerts.\<close>

record worker_world =
  ww_metrics :: "WorkerSlots list option"
  ww_logs :: "worker_logs list option"
  ww_spans :: "ring list option"
  ww_ctrl :: "ControlShm option"
  ww_latch :: u64
  ww_alerts :: nat

primrec and_then :: "'a outcome \<Rightarrow> ('a \<Rightarrow> 'b outcome) \<Rightarrow> 'b outcome" where
  "and_then (Value x) k = k x" | "and_then Reject k = Reject" | "and_then Panic k = Panic"

section \<open>Reading the request\<close>

definition read_span_ctx :: "'cv log_request \<Rightarrow> SpanCtx option" where
  "read_span_ctx r = fst (recover_span_ctx (rl_http r))"

definition compute_duration_us :: "'cv log_env \<Rightarrow> 'cv log_request \<Rightarrow> SpanCtx option \<Rightarrow> u64" where
  "compute_duration_us env r span_ctx =
     (case span_ctx of
        Some ctx \<Rightarrow> of_nat ((le_mono_ns env - sc_start_mono ctx) div 1000)
      | None \<Rightarrow>
          (let end_us = le_unix_nano env div 1000;
               start_us = rl_start_sec r * 1000000 + rl_start_msec r * 1000
           in saturating_sub end_us start_us))"

record RequestMeta =
  rm_status :: u16
  rm_proto :: ProtoVersion
  rm_base_idx :: nat
  rm_route_idx :: nat
  rm_resp_bytes :: u64

definition read_request_meta :: "'cv log_request \<Rightarrow> log_conf \<Rightarrow> RequestMeta" where
  "read_request_meta r amcf =
     (let status = ucast (rl_status r);
          proto = proto_from_ngx (rl_http_version r);
          base_idx = combo_index (method_from_bytes (rl_method_name r)) (class_from_status status) proto
      in \<lparr>rm_status = status, rm_proto = proto, rm_base_idx = base_idx,
          rm_route_idx = route_idx_for_clcf (lg_routes amcf) (rl_clcf r),
          rm_resp_bytes = (case rl_connection r of Some c \<Rightarrow> cn_sent c | None \<Rightarrow> 0)\<rparr>)"

section \<open>Metrics\<close>

definition NGX_MSEC_SENTINEL :: u64 where "NGX_MSEC_SENTINEL = - 1"

record UpstreamSum =
  up_response_ms :: "u64 option"
  up_header_ms :: "u64 option"
  up_connect_ms :: "u64 option"
  up_bytes_received :: u64
  up_bytes_sent :: u64

definition accumulate :: "u64 option \<Rightarrow> u64 \<Rightarrow> u64 option" where
  "accumulate acc raw =
     (if raw \<noteq> NGX_MSEC_SENTINEL
      then Some (saturating_add (case acc of Some a \<Rightarrow> a | None \<Rightarrow> 0) raw) else acc)"

definition add_attempt :: "upstream_state \<Rightarrow> UpstreamSum \<Rightarrow> UpstreamSum" where
  "add_attempt st s =
     (if \<not> us_peer st then s
      else \<lparr>up_response_ms = accumulate (up_response_ms s) (us_response_time st),
            up_header_ms = accumulate (up_header_ms s) (us_header_time st),
            up_connect_ms = accumulate (up_connect_ms s) (us_connect_time st),
            up_bytes_received = saturating_add (up_bytes_received s) (us_bytes_received st),
            up_bytes_sent = saturating_add (up_bytes_sent s) (us_bytes_sent st)\<rparr>)"

definition sum_upstream_states :: "upstream_state list option \<Rightarrow> UpstreamSum option" where
  "sum_upstream_states states =
     (case states of
        None \<Rightarrow> None
      | Some sts \<Rightarrow>
          if sts = [] then None
          else Some (fold add_attempt sts
                 \<lparr>up_response_ms = None, up_header_ms = None, up_connect_ms = None, up_bytes_received = 0,
                  up_bytes_sent = 0\<rparr>))"

definition record_at :: "u64 \<Rightarrow> nat \<Rightarrow> ExpHistogramSlot list \<Rightarrow> ExpHistogramSlot list" where
  "record_at v i hs = hs[i := exp_record v (hs ! i)]"

definition record_base_combo :: "u16 \<Rightarrow> nat \<Rightarrow> u64 \<Rightarrow> WorkerSlots \<Rightarrow> WorkerSlots" where
  "record_base_combo status base_idx duration_us ws =
     (if status \<noteq> 0
      then ws\<lparr>ws_request_duration_combos := record_at duration_us base_idx (ws_request_duration_combos ws)\<rparr>
      else ws)"

definition record_opt :: "u64 list \<Rightarrow> u64 option \<Rightarrow> Histogram \<Rightarrow> Histogram" where
  "record_opt bounds v h = (case v of Some x \<Rightarrow> hist_record bounds x h | None \<Rightarrow> h)"

definition record_upstream_sum :: "UpstreamSum \<Rightarrow> WorkerSlots \<Rightarrow> WorkerSlots" where
  "record_upstream_sum s ws =
     ws\<lparr>ws_upstream_response_ms := record_opt DURATION_BOUNDS_MS (up_response_ms s) (ws_upstream_response_ms ws),
        ws_upstream_header_ms := record_opt DURATION_BOUNDS_MS (up_header_ms s) (ws_upstream_header_ms ws),
        ws_upstream_connect_ms := record_opt DURATION_BOUNDS_MS (up_connect_ms s) (ws_upstream_connect_ms ws),
        ws_upstream_bytes_received := hist_record BYTES_BOUNDS (up_bytes_received s) (ws_upstream_bytes_received ws),
        ws_upstream_bytes_sent := hist_record BYTES_BOUNDS (up_bytes_sent s) (ws_upstream_bytes_sent ws)\<rparr>"

definition upstream_zone_ptr :: "'cv log_request \<Rightarrow> nat" where
  "upstream_zone_ptr r = (case rl_upstream r of Some (Some zone) \<Rightarrow> zone | _ \<Rightarrow> 0)"

definition record_slot :: "'cv log_request \<Rightarrow> log_conf \<Rightarrow> RequestMeta \<Rightarrow> u64 \<Rightarrow> WorkerSlots \<Rightarrow> WorkerSlots" where
  "record_slot r amcf meta duration_us ws =
     (let ws1 = record_base_combo (rm_status meta) (rm_base_idx meta) duration_us ws;
          ws2 = ws1\<lparr>ws_route_duration_combos := record_at duration_us (rm_route_idx meta) (ws_route_duration_combos ws1)\<rparr>;
          zone_ptr = upstream_zone_ptr r;
          upstream_idx = upstream_idx_for_zone (lg_upstreams amcf) zone_ptr;
          ws3 = (if zone_ptr \<noteq> 0 \<and> upstream_idx < UPSTREAM_IDX_OTHER
                 then ws2\<lparr>ws_upstream_duration_combos := record_at duration_us upstream_idx (ws_upstream_duration_combos ws2)\<rparr>
                 else if zone_ptr \<noteq> 0
                 then ws2\<lparr>ws_upstream_duration_combos :=
                        record_at duration_us UPSTREAM_IDX_OTHER (ws_upstream_duration_combos ws2)\<rparr>
                 else ws2);
          ws4 = ws3\<lparr>ws_request_body_bytes := hist_record BYTES_BOUNDS (rl_request_length r) (ws_request_body_bytes ws3),
                    ws_response_body_bytes := hist_record BYTES_BOUNDS (rm_resp_bytes meta) (ws_response_body_bytes ws3)\<rparr>
      in case (if rl_upstream r \<noteq> None then sum_upstream_states (rl_upstream_states r) else None) of
           Some s \<Rightarrow> record_upstream_sum s ws4
         | None \<Rightarrow> ws4)"

definition record_request_metrics ::
  "'cv log_request \<Rightarrow> log_conf \<Rightarrow> nat \<Rightarrow> RequestMeta \<Rightarrow> u64 \<Rightarrow> worker_world \<Rightarrow> worker_world" where
  "record_request_metrics r amcf worker_id meta duration_us w =
     (case ww_metrics w of
        None \<Rightarrow> w
      | Some slots \<Rightarrow>
          w\<lparr>ww_metrics := Some (slots[worker_id := record_slot r amcf meta duration_us (slots ! worker_id)])\<rparr>)"

section \<open>Selection and detail\<close>

definition is_truthy :: "bytes \<Rightarrow> bool" where
  "is_truthy b \<longleftrightarrow> \<not> (b = [] \<or> (length b = 1 \<and> b ! 0 = 0x30))"

definition eval_export_truthy :: "'cv log_env \<Rightarrow> 'cv option \<Rightarrow> bool" where
  "eval_export_truthy env cv =
     (case Option.bind cv (le_complex_value env) of None \<Rightarrow> False | Some b \<Rightarrow> is_truthy b)"

definition check_export_selected :: "'cv log_env \<Rightarrow> 'cv log_request \<Rightarrow> log_conf \<Rightarrow> bool" where
  "check_export_selected env r amcf =
     (if \<not> lg_any_log_export amcf then False
      else case rl_loc_conf r of
             None \<Rightarrow> False
           | Some lc \<Rightarrow>
               (case log_export_mode lc of
                  LogExport_All \<Rightarrow> True
                | LogExport_If \<Rightarrow> eval_export_truthy env (lc_log_export_cv lc)
                | LogExport_Off \<Rightarrow> False
                | LogExport_Unset \<Rightarrow> False))"

fun find_user_agent :: "(bytes \<times> bytes) list \<Rightarrow> bytes" where
  "find_user_agent [] = []"
| "find_user_agent ((k, v) # hs) =
     (if length k = 10 \<and> eq_ignore_ascii_case k (lit ''user-agent'') then v else find_user_agent hs)"

definition read_request_detail :: "'cv log_env \<Rightarrow> 'cv log_request \<Rightarrow> bool \<Rightarrow> bytes \<times> bytes" where
  "read_request_detail env r need_detail =
     (if need_detail
      then (case rl_connection r of Some c \<Rightarrow> cn_addr_text c | None \<Rightarrow> [],
            find_user_agent (le_hdr_iter env (rq_headers_in (rl_http r))))
      else ([], []))"

section \<open>Access record\<close>

definition request_ts_ns :: "'cv log_request \<Rightarrow> u64" where
  "request_ts_ns r = saturating_add (saturating_mul (rl_start_sec r) 1000000000) (rl_start_msec r * 1000000)"

definition sampled_ctx :: "SpanCtx option \<Rightarrow> SpanCtx option" where
  "sampled_ctx span_ctx = (case span_ctx of Some c \<Rightarrow> if sc_sampled c then Some c else None | None \<Rightarrow> None)"

definition access_request ::
  "'cv log_request \<Rightarrow> RequestMeta \<Rightarrow> SpanCtx option \<Rightarrow> u64 \<Rightarrow> bytes \<times> bytes \<Rightarrow> SampledRequest" where
  "access_request r meta span_ctx duration_us detail =
     \<lparr>sr_ts_unix_nano = request_ts_ns r,
      sr_trace = map_option (\<lambda>c. (sc_trace_id c, sc_span_id c)) (sampled_ctx span_ctx),
      sr_url_path = rl_uri r, sr_user_agent = snd detail, sr_duration_us = duration_us,
      sr_combo_idx = of_nat (rm_base_idx meta), sr_method = rl_method_name r, sr_status = rm_status meta,
      sr_request_length = rl_request_length r, sr_response_bytes = rm_resp_bytes meta, sr_client_addr = fst detail\<rparr>"

definition liveness_on_drop :: "'cv log_env \<Rightarrow> worker_world \<Rightarrow> worker_world" where
  "liveness_on_drop env w =
     (let (alert, latch) = check_exporter_liveness_on_drop (ww_ctrl w) (le_msec env) (ww_latch w)
      in w\<lparr>ww_latch := latch, ww_alerts := ww_alerts w + (if alert then 1 else 0)\<rparr>)"

definition maybe_emit_access_log ::
  "'cv log_env \<Rightarrow> nat \<Rightarrow> SampledRequest \<Rightarrow> bool \<Rightarrow> worker_world \<Rightarrow> worker_world outcome" where
  "maybe_emit_access_log env worker_id req export_selected w =
     (if \<not> export_selected then Value w
      else case ww_logs w of
             None \<Rightarrow> Value w
           | Some slots \<Rightarrow>
               and_then (emit_access_record push (wl_access (slots ! worker_id)) req)
                 (\<lambda>(ring, ok).
                    let w1 = w\<lparr>ww_logs := Some (slots[worker_id := (slots ! worker_id)\<lparr>wl_access := ring\<rparr>])\<rparr>
                    in Value (if ok then w1 else liveness_on_drop env w1)))"

section \<open>Span record\<close>

definition build_span_name :: "bytes \<Rightarrow> bytes \<Rightarrow> bytes" where
  "build_span_name method route =
     (let m = take MAX_SPAN_NAME method
      in if length m < MAX_SPAN_NAME \<and> route \<noteq> []
         then m @ [0x20] @ take (MAX_SPAN_NAME - (length m + 1)) route
         else m)"

definition span_name_of :: "'cv log_env \<Rightarrow> 'cv log_request \<Rightarrow> log_conf \<Rightarrow> RequestMeta \<Rightarrow> bytes" where
  "span_name_of env r amcf meta =
     (let evaluated = (case Option.bind (rl_loc_conf r) lc_span_name_cv of
                         None \<Rightarrow> []
                       | Some cv \<Rightarrow> (case le_complex_value env cv of Some b \<Rightarrow> b | None \<Rightarrow> []))
      in if evaluated = [] then build_span_name (rl_method_name r) (route_name (lg_routes amcf) (rm_route_idx meta))
         else take MAX_SPAN_NAME evaluated)"

primrec sockaddr_port :: "sockaddr \<Rightarrow> u16" where
  "sockaddr_port (Inet p) = p" | "sockaddr_port (Inet6 p) = p" | "sockaddr_port OtherFamily = 0"

definition opt_port :: "sockaddr option \<Rightarrow> u16" where
  "opt_port sa = (case sa of Some a \<Rightarrow> sockaddr_port a | None \<Rightarrow> 0)"

definition server_port :: "connection option \<Rightarrow> u16" where
  "server_port conn =
     (case conn of
        None \<Rightarrow> 0
      | Some c \<Rightarrow> (case cn_local_sockaddr c of None \<Rightarrow> 0 | Some local \<Rightarrow> opt_port local))"

definition client_port :: "connection option \<Rightarrow> u16" where
  "client_port conn = (case conn of None \<Rightarrow> 0 | Some c \<Rightarrow> opt_port (cn_sockaddr c))"

definition get_var :: "'cv log_env \<Rightarrow> bytes \<Rightarrow> bytes" where
  "get_var env name =
     (if length name > 32 then [] else case le_get_variable env name of Some v \<Rightarrow> v | None \<Rightarrow> [])"

definition realip_peer :: "'cv log_env \<Rightarrow> 'cv log_request \<Rightarrow> bytes \<times> u16" where
  "realip_peer env r =
     (let addr = get_var env (lit ''realip_remote_addr'')
      in if addr \<noteq> []
         then (let port_bytes = get_var env (lit ''realip_remote_port'')
               in (addr, if utf8_valid port_bytes then (case parse_u16 port_bytes of Some p \<Rightarrow> p | None \<Rightarrow> 0) else 0))
         else case rl_connection r of
                None \<Rightarrow> ([], 0)
              | Some c \<Rightarrow> (cn_addr_text c, opt_port (cn_sockaddr c)))"

definition span_record_of ::
  "'cv log_env \<Rightarrow> 'cv log_request \<Rightarrow> log_conf \<Rightarrow> RequestMeta \<Rightarrow> SpanCtx \<Rightarrow> u64 \<Rightarrow> bytes \<times> bytes \<Rightarrow> SpanRecord" where
  "span_record_of env r amcf meta ctx duration_us detail =
     \<lparr>sp_trace_id = sc_trace_id ctx, sp_span_id = sc_span_id ctx, sp_parent_span_id = sc_parent_span_id ctx,
      sp_flags = sc_flags ctx, sp_start_time_unix_nano = sc_start_time_unix_nano ctx,
      sp_end_time_unix_nano = saturating_add (sc_start_time_unix_nano ctx) (saturating_mul duration_us 1000),
      sp_status_code = (if rm_status meta \<ge> 500 then 2 else 0), sp_kind = 2,
      sp_name = span_name_of env r amcf meta, sp_method = rl_method_name r, sp_http_status = rm_status meta,
      sp_url_path = rl_uri r, sp_duration_us = duration_us, sp_proto = of_nat (proto_index (rm_proto meta)),
      sp_scheme_https = (case rl_connection r of Some c \<Rightarrow> cn_ssl c | None \<Rightarrow> False),
      sp_server_port = server_port (rl_connection r), sp_client_port = client_port (rl_connection r),
      sp_peer_port = snd (realip_peer env r),
      sp_req_body_size = (if rl_content_length_n r > 0 then of_int (rl_content_length_n r) else 0),
      sp_resp_body_size = saturating_sub (rm_resp_bytes meta) (rl_header_size r),
      sp_url_query = rl_args r, sp_route = route_name (lg_routes amcf) (rm_route_idx meta),
      sp_user_agent = snd detail,
      sp_server_address = (let from_srv = (case rl_server_name r of Some n \<Rightarrow> n | None \<Rightarrow> [])
                           in if from_srv = [] then rl_host_header r else from_srv),
      sp_client_address = fst detail, sp_peer_address = fst (realip_peer env r),
      sp_extra_attrs = (case rl_loc_conf r of Some lc \<Rightarrow> take MAX_SPAN_EXTRA_ATTRS (lc_span_attrs lc) | None \<Rightarrow> [])\<rparr>"

definition exemplar_request :: "'cv log_request \<Rightarrow> RequestMeta \<Rightarrow> SpanCtx \<Rightarrow> u64 \<Rightarrow> SampledRequest" where
  "exemplar_request r meta ctx duration_us =
     \<lparr>sr_ts_unix_nano = request_ts_ns r, sr_trace = Some (sc_trace_id ctx, sc_span_id ctx), sr_url_path = [],
      sr_user_agent = [], sr_duration_us = duration_us, sr_combo_idx = of_nat (rm_base_idx meta),
      sr_method = rl_method_name r, sr_status = ucast (rl_status r), sr_request_length = 0, sr_response_bytes = 0,
      sr_client_addr = []\<rparr>"

definition write_exemplar :: "nat \<Rightarrow> nat \<Rightarrow> SampledRequest \<Rightarrow> worker_world \<Rightarrow> worker_world outcome" where
  "write_exemplar worker_id base_idx req w =
     (case ww_metrics w of
        None \<Rightarrow> Value w
      | Some slots \<Rightarrow>
          (let ws = slots ! worker_id
           in and_then (reservoir_write req (ws_exemplar_reservoirs ws ! base_idx))
                (\<lambda>rv. Value (w\<lparr>ww_metrics := Some (slots[worker_id :=
                   ws\<lparr>ws_exemplar_reservoirs := (ws_exemplar_reservoirs ws)[base_idx := rv]\<rparr>])\<rparr>))))"

definition emit_span :: "'cv log_env \<Rightarrow> nat \<Rightarrow> SpanRecord \<Rightarrow> worker_world \<Rightarrow> worker_world outcome" where
  "emit_span env worker_id rec w =
     (case ww_spans w of
        None \<Rightarrow> Value w
      | Some rings \<Rightarrow>
          and_then (emit_span_record push (rings ! worker_id) rec)
            (\<lambda>(ring, ok).
               let w1 = w\<lparr>ww_spans := Some (rings[worker_id := ring])\<rparr>
               in Value (if ok then w1 else liveness_on_drop env w1)))"

definition maybe_emit_span ::
  "'cv log_env \<Rightarrow> 'cv log_request \<Rightarrow> log_conf \<Rightarrow> nat \<Rightarrow> RequestMeta \<Rightarrow> SpanCtx option \<Rightarrow> u64 \<Rightarrow> bytes \<times> bytes \<Rightarrow>
     worker_world \<Rightarrow> worker_world outcome" where
  "maybe_emit_span env r amcf worker_id meta span_ctx duration_us detail w =
     (case sampled_ctx span_ctx of
        None \<Rightarrow> Value w
      | Some ctx \<Rightarrow>
          and_then (write_exemplar worker_id (rm_base_idx meta) (exemplar_request r meta ctx duration_us) w)
            (emit_span env worker_id (span_record_of env r amcf meta ctx duration_us detail)))"

section \<open>The handler\<close>

definition log_phase_handler ::
  "'cv log_env \<Rightarrow> log_conf option \<Rightarrow> nat \<Rightarrow> 'cv log_request \<Rightarrow> worker_world \<Rightarrow> worker_world outcome" where
  "log_phase_handler env main_conf worker_id r w =
     (case main_conf of
        None \<Rightarrow> Value w
      | Some amcf \<Rightarrow>
          if worker_id \<ge> worker_capacity (lg_slab amcf) (lg_log_cap amcf) (lg_zones amcf)
          then Value (w\<lparr>ww_alerts := ww_alerts w + 1\<rparr>)
          else
            let span_ctx = read_span_ctx r;
                duration_us = compute_duration_us env r span_ctx;
                meta = read_request_meta r amcf;
                w1 = record_request_metrics r amcf worker_id meta duration_us w;
                export_selected = check_export_selected env r amcf;
                need_detail = (export_selected \<or> sampled_ctx span_ctx \<noteq> None);
                detail = read_request_detail env r need_detail
            in and_then (maybe_emit_access_log env worker_id (access_request r meta span_ctx duration_us detail) export_selected w1)
                 (maybe_emit_span env r amcf worker_id meta span_ctx duration_us detail))"

end
