(* ===== verification/Request_Export.thy ===== *)
theory Request_Export
  imports Log_Phase
begin

text \<open>
  From a request to the exported batches: what one run of the log-phase handler does to the shared zones,
  and histories in which workers handle requests and the exporter collects, in any order. The reference
  is one bounded queue per worker and signal, fed with the requests the handler selects.
\<close>

section \<open>Histories\<close>

datatype 'cv traffic = Handle nat "'cv log_env" "'cv log_request" | Export u64

definition exporter_tick ::
  "resource_conf \<Rightarrow> bool \<Rightarrow> u64 \<Rightarrow> worker_world \<Rightarrow> ((LogRecord list \<times> u64) \<times> (Span list \<times> u64)) \<times> worker_world" where
  "exporter_tick rc error_log now w =
     (let (logs, ldrops, slots) = tick_access rc error_log now (the (ww_logs w));
          (spans, sdrops, rings) = tick_spans rc now (the (ww_spans w))
      in (((logs, ldrops), (spans, sdrops)), w\<lparr>ww_logs := Some slots, ww_spans := Some rings\<rparr>))"

fun run_traffic ::
  "log_conf \<Rightarrow> resource_conf \<Rightarrow> bool \<Rightarrow> worker_world \<Rightarrow> 'cv traffic list \<Rightarrow>
     (((LogRecord list \<times> u64) \<times> (Span list \<times> u64)) list \<times> worker_world) outcome" where
  "run_traffic amcf rc error_log w [] = Value ([], w)"
| "run_traffic amcf rc error_log w (Handle i env r # ops) =
     and_then (log_phase_handler env (Some amcf) i r w) (\<lambda>w1. run_traffic amcf rc error_log w1 ops)"
| "run_traffic amcf rc error_log w (Export now # ops) =
     (let (out, w1) = exporter_tick rc error_log now w
      in and_then (run_traffic amcf rc error_log w1 ops) (\<lambda>(outs, w2). Value (out # outs, w2)))"

text \<open>What the handler makes of a request.\<close>

definition request_detail :: "'cv log_env \<Rightarrow> 'cv log_request \<Rightarrow> log_conf \<Rightarrow> bytes \<times> bytes" where
  "request_detail env r amcf =
     read_request_detail env r (check_export_selected env r amcf \<or> sampled_ctx (read_span_ctx r) \<noteq> None)"

definition access_of :: "'cv log_env \<Rightarrow> log_conf \<Rightarrow> 'cv log_request \<Rightarrow> SampledRequest" where
  "access_of env amcf r =
     access_request r (read_request_meta r amcf) (read_span_ctx r) (compute_duration_us env r (read_span_ctx r))
       (request_detail env r amcf)"

definition span_of :: "'cv log_env \<Rightarrow> log_conf \<Rightarrow> 'cv log_request \<Rightarrow> SpanCtx \<Rightarrow> SpanRecord" where
  "span_of env amcf r ctx =
     span_record_of env r amcf (read_request_meta r amcf) ctx (compute_duration_us env r (read_span_ctx r))
       (request_detail env r amcf)"

fun access_ops :: "log_conf \<Rightarrow> 'cv traffic list \<Rightarrow> SampledRequest stream_op list" where
  "access_ops amcf [] = []"
| "access_ops amcf (Handle i env r # ops) =
     (if check_export_selected env r amcf then [Emit i (access_of env amcf r)] else []) @ access_ops amcf ops"
| "access_ops amcf (Export now # ops) = Tick now # access_ops amcf ops"

fun span_ops :: "log_conf \<Rightarrow> 'cv traffic list \<Rightarrow> SpanRecord stream_op list" where
  "span_ops amcf [] = []"
| "span_ops amcf (Handle i env r # ops) =
     (case sampled_ctx (read_span_ctx r) of Some c \<Rightarrow> [Emit i (span_of env amcf r c)] | None \<Rightarrow> []) @ span_ops amcf ops"
| "span_ops amcf (Export now # ops) = Tick now # span_ops amcf ops"

section \<open>One request\<close>

lemma and_then_Value: "and_then x k = Value y \<longleftrightarrow> (\<exists>a. x = Value a \<and> k a = Value y)"
  by (cases x) simp_all

definition ctx_ids_ok :: "'cv log_request \<Rightarrow> bool" where
  "ctx_ids_ok r =
     (case read_span_ctx r of
        Some c \<Rightarrow> length (sc_trace_id c) = 16 \<and> length (sc_span_id c) = 8 \<and> length (sc_parent_span_id c) = 8
      | None \<Rightarrow> True)"

text \<open>A worker's reservoirs can take \<open>k\<close> more measurements.\<close>

definition reservoirs_ok :: "nat \<Rightarrow> WorkerSlots \<Rightarrow> bool" where
  "reservoirs_ok k ws \<longleftrightarrow>
     length (ws_exemplar_reservoirs ws) = N_COMBOS \<and>
     (\<forall>rv\<in>set (ws_exemplar_reservoirs ws). unat (rv_seen rv) + k < 2 ^ 64)"

definition pushed_access :: "worker_logs list \<Rightarrow> nat \<Rightarrow> SampledRequest \<Rightarrow> worker_logs list" where
  "pushed_access slots i req =
     slots[i := (slots ! i)\<lparr>wl_access := fst (push (wl_access (slots ! i)) (concat (access_record_writes req)))\<rparr>]"

definition pushed_span :: "ring list \<Rightarrow> nat \<Rightarrow> SpanRecord \<Rightarrow> ring list" where
  "pushed_span rings i rec = rings[i := fst (push (rings ! i) (concat (span_record_writes rec)))]"

lemma emit_access_value:
  "wf_trace (sr_trace req) \<Longrightarrow> \<exists>ok. emit_access slots i req = Value (pushed_access slots i req, ok)"
  by (simp add: emit_access_def emit_access_record_def access_record_written pushed_access_def case_prod_beta
      prod.collapse split: prod.splits)

lemma emit_span_value:
  "wf_span_ids rec \<Longrightarrow> \<exists>ok. emit_at (emit_span_record push) rings i rec = Value (pushed_span rings i rec, ok)"
  by (simp add: emit_at_def emit_span_record_def span_record_written pushed_span_def split: prod.splits)

lemma liveness_frame [simp]:
  "ww_metrics (liveness_on_drop env w) = ww_metrics w" "ww_logs (liveness_on_drop env w) = ww_logs w"
  "ww_spans (liveness_on_drop env w) = ww_spans w" "ww_ctrl (liveness_on_drop env w) = ww_ctrl w"
  by (simp_all add: liveness_on_drop_def split: prod.splits)

lemma emit_access_log_effect:
  assumes "wf_trace (sr_trace req)"
  shows "\<exists>w'. maybe_emit_access_log env i req sel w = Value w' \<and> ww_metrics w' = ww_metrics w \<and>
    ww_spans w' = ww_spans w \<and> ww_ctrl w' = ww_ctrl w \<and>
    ww_logs w' = (if sel then map_option (\<lambda>s. pushed_access s i req) (ww_logs w) else ww_logs w)"
  using assms
  by (auto simp: maybe_emit_access_log_def emit_access_record_def access_record_written pushed_access_def Let_def
      split: option.splits prod.splits)

lemma emit_span_effect:
  assumes "wf_span_ids rec"
  shows "\<exists>w'. emit_span env i rec w = Value w' \<and> ww_metrics w' = ww_metrics w \<and> ww_logs w' = ww_logs w \<and>
    ww_ctrl w' = ww_ctrl w \<and> ww_spans w' = map_option (\<lambda>s. pushed_span s i rec) (ww_spans w)"
  using assms
  by (auto simp: emit_span_def emit_span_record_def span_record_written pushed_span_def Let_def
      split: option.splits prod.splits)

lemma combo_index_less: "combo_index m c p < N_COMBOS"
  by (cases m; cases c; cases p) (simp_all add: combo_index_def dim_sizes)

lemma reservoir_write_ok:
  assumes "unat (rv_seen rv) + Suc k < 2 ^ 64"
  shows "\<exists>rv'. reservoir_write req rv = Value rv' \<and> unat (rv_seen rv') + k < 2 ^ 64"
proof -
  have "rv_seen rv \<noteq> - 1"
    using assms by (auto simp: unat_minus_one)
  moreover have "unat (rv_seen rv + 1) = Suc (unat (rv_seen rv))"
    using assms by (simp add: unat_word_ariths)
  ultimately show ?thesis
    using assms by (auto simp: reservoir_write_def Let_def)
qed

definition metrics_ok :: "nat \<Rightarrow> nat \<Rightarrow> worker_world \<Rightarrow> bool" where
  "metrics_ok n k w =
     (case ww_metrics w of
        None \<Rightarrow> True
      | Some slots \<Rightarrow> length slots = n \<and> (\<forall>ws\<in>set slots. reservoirs_ok k ws))"

lemma record_slot_reservoirs [simp]:
  "ws_exemplar_reservoirs (record_slot r amcf meta d ws) = ws_exemplar_reservoirs ws"
proof -
  have "ws_exemplar_reservoirs (record_base_combo status idx d ws) = ws_exemplar_reservoirs ws" for status idx ws
    by (simp add: record_base_combo_def)
  moreover have "ws_exemplar_reservoirs (record_upstream_sum s ws) = ws_exemplar_reservoirs ws" for s ws
    by (simp add: record_upstream_sum_def)
  ultimately show ?thesis
    by (simp add: record_slot_def Let_def split: option.split)
qed

lemma reservoirs_ok_record_slot [simp]: "reservoirs_ok k (record_slot r amcf meta d ws) = reservoirs_ok k ws"
  by (simp add: reservoirs_ok_def)

lemma reservoirs_ok_mono: "reservoirs_ok (Suc k) ws \<Longrightarrow> reservoirs_ok k ws"
  by (fastforce simp: reservoirs_ok_def)

lemma metrics_ok_mono: "metrics_ok n (Suc k) w \<Longrightarrow> metrics_ok n k w"
  by (auto simp: metrics_ok_def reservoirs_ok_mono split: option.splits)

lemma metrics_ok_cong: "ww_metrics w' = ww_metrics w \<Longrightarrow> metrics_ok n k w' = metrics_ok n k w"
  by (simp add: metrics_ok_def)

lemma record_request_metrics_effect:
  assumes "metrics_ok n k w" "i < n"
  shows "metrics_ok n k (record_request_metrics r amcf i meta d w)"
    "ww_logs (record_request_metrics r amcf i meta d w) = ww_logs w"
    "ww_spans (record_request_metrics r amcf i meta d w) = ww_spans w"
    "ww_ctrl (record_request_metrics r amcf i meta d w) = ww_ctrl w"
  using assms
  by (auto simp: record_request_metrics_def metrics_ok_def split: option.splits
      dest!: set_update_subset_insert [THEN subsetD])

lemma write_exemplar_metrics:
  assumes "metrics_ok n (Suc k) w" "i < n" "b < N_COMBOS"
  shows "\<exists>w'. write_exemplar i b req w = Value w' \<and> ww_logs w' = ww_logs w \<and> ww_spans w' = ww_spans w \<and>
    ww_ctrl w' = ww_ctrl w \<and> metrics_ok n k w'"
proof (cases "ww_metrics w")
  case (Some slots)
  let ?ws = "slots ! i"
  have i: "i < length slots" and n: "length slots = n" and ok: "\<forall>ws\<in>set slots. reservoirs_ok (Suc k) ws"
    using assms(1,2) Some by (auto simp: metrics_ok_def)
  then have len: "length (ws_exemplar_reservoirs ?ws) = N_COMBOS"
    and seen: "\<forall>rv\<in>set (ws_exemplar_reservoirs ?ws). unat (rv_seen rv) + Suc k < 2 ^ 64"
    using nth_mem [OF i] by (auto simp: reservoirs_ok_def)
  have "b < length (ws_exemplar_reservoirs ?ws)" using len assms(3) by simp
  then obtain rv where rv: "reservoir_write req (ws_exemplar_reservoirs ?ws ! b) = Value rv" "unat (rv_seen rv) + k < 2 ^ 64"
    using seen reservoir_write_ok nth_mem by metis
  have "reservoirs_ok k (?ws\<lparr>ws_exemplar_reservoirs := (ws_exemplar_reservoirs ?ws)[b := rv]\<rparr>)"
    using len seen rv(2) by (fastforce simp: reservoirs_ok_def dest!: set_update_subset_insert [THEN subsetD])
  moreover have "\<forall>ws\<in>set slots. reservoirs_ok k ws"
    using ok reservoirs_ok_mono by blast
  ultimately have "\<forall>ws\<in>set (slots[i := ?ws\<lparr>ws_exemplar_reservoirs := (ws_exemplar_reservoirs ?ws)[b := rv]\<rparr>]). reservoirs_ok k ws"
    using set_update_subset_insert by fastforce
  with Some rv n show ?thesis
    by (simp add: write_exemplar_def metrics_ok_def Let_def)
qed (simp add: write_exemplar_def metrics_ok_def)

lemma emit_span_record_effect:
  assumes "metrics_ok n (Suc k) w" "i < n" "ctx_ids_ok r"
  shows "\<exists>w'. maybe_emit_span env r amcf i (read_request_meta r amcf) (read_span_ctx r) d detail w = Value w' \<and>
    ww_logs w' = ww_logs w \<and> ww_ctrl w' = ww_ctrl w \<and> metrics_ok n k w' \<and>
    ww_spans w' = (case sampled_ctx (read_span_ctx r) of
        Some c \<Rightarrow> map_option (\<lambda>s. pushed_span s i (span_record_of env r amcf (read_request_meta r amcf) c d detail)) (ww_spans w)
      | None \<Rightarrow> ww_spans w)"
proof (cases "sampled_ctx (read_span_ctx r)")
  case None
  then show ?thesis
    using assms(1) by (simp add: maybe_emit_span_def metrics_ok_mono)
next
  case (Some c)
  let ?rec = "span_record_of env r amcf (read_request_meta r amcf) c d detail"
  have "read_span_ctx r = Some c"
    using Some by (simp add: sampled_ctx_def split: option.splits if_splits)
  then have ids: "wf_span_ids ?rec"
    using assms(3) by (simp add: ctx_ids_ok_def span_record_of_def wf_span_ids_def)
  have "rm_base_idx (read_request_meta r amcf) < N_COMBOS"
    by (simp add: read_request_meta_def Let_def combo_index_less)
  then obtain w1 where w1: "write_exemplar i (rm_base_idx (read_request_meta r amcf))
      (exemplar_request r (read_request_meta r amcf) c d) w = Value w1"
      "ww_logs w1 = ww_logs w" "ww_spans w1 = ww_spans w" "ww_ctrl w1 = ww_ctrl w" "metrics_ok n k w1"
    using write_exemplar_metrics [OF assms(1,2)] by blast
  from emit_span_effect [OF ids, of env i w1] obtain w2 where w2: "emit_span env i ?rec w1 = Value w2" "ww_metrics w2 = ww_metrics w1" "ww_logs w2 = ww_logs w1"
    "ww_ctrl w2 = ww_ctrl w1" "ww_spans w2 = map_option (\<lambda>s. pushed_span s i ?rec) (ww_spans w1)"
    by blast
  then have "metrics_ok n k w2"
    using w1(5) metrics_ok_cong by blast
  moreover have "maybe_emit_span env r amcf i (read_request_meta r amcf) (read_span_ctx r) d detail w = Value w2"
    unfolding maybe_emit_span_def Some option.case w1(1) and_then.simps by (rule w2(1))
  ultimately show ?thesis
    using w2(3-5) unfolding Some option.case w1(2-4) by blast
qed

text \<open>The effect of the handler on the zones, for a worker within the capacity.\<close>

lemma handler_effect:
  assumes "metrics_ok n (Suc k) w" "i < n" "ctx_ids_ok r"
    and "n \<le> worker_capacity (lg_slab amcf) (lg_log_cap amcf) (lg_zones amcf)"
  shows "\<exists>w'. log_phase_handler env (Some amcf) i r w = Value w' \<and> ww_ctrl w' = ww_ctrl w \<and> metrics_ok n k w' \<and>
    ww_logs w' = (if check_export_selected env r amcf
                  then map_option (\<lambda>s. pushed_access s i (access_of env amcf r)) (ww_logs w) else ww_logs w) \<and>
    ww_spans w' = (case sampled_ctx (read_span_ctx r) of
        Some c \<Rightarrow> map_option (\<lambda>s. pushed_span s i (span_of env amcf r c)) (ww_spans w)
      | None \<Rightarrow> ww_spans w)"
proof -
  let ?meta = "read_request_meta r amcf" and ?d = "compute_duration_us env r (read_span_ctx r)"
  let ?w1 = "record_request_metrics r amcf i ?meta ?d w"
  note w1 = record_request_metrics_effect [OF assms(1,2), of r amcf ?meta ?d]
  have "wf_trace (sr_trace (access_of env amcf r))"
    using assms(3)
    by (auto simp: access_of_def access_request_def wf_trace_def ctx_ids_ok_def sampled_ctx_def split: option.splits)
  from emit_access_log_effect [OF this, of env i "check_export_selected env r amcf" ?w1]
  obtain w2 where w2: "maybe_emit_access_log env i (access_of env amcf r) (check_export_selected env r amcf) ?w1 = Value w2"
    "ww_metrics w2 = ww_metrics ?w1" "ww_spans w2 = ww_spans ?w1" "ww_ctrl w2 = ww_ctrl ?w1"
    "ww_logs w2 = (if check_export_selected env r amcf
       then map_option (\<lambda>s. pushed_access s i (access_of env amcf r)) (ww_logs ?w1) else ww_logs ?w1)"
    by blast
  have "metrics_ok n (Suc k) w2"
    using w1(1) w2(2) metrics_ok_cong by blast
  from emit_span_record_effect [OF this assms(2,3), of env amcf ?d "request_detail env r amcf"]
  obtain w3 where w3: "maybe_emit_span env r amcf i ?meta (read_span_ctx r) ?d (request_detail env r amcf) w2 = Value w3"
    "ww_logs w3 = ww_logs w2" "ww_ctrl w3 = ww_ctrl w2" "metrics_ok n k w3"
    "ww_spans w3 = (case sampled_ctx (read_span_ctx r) of
        Some c \<Rightarrow> map_option (\<lambda>s. pushed_span s i (span_of env amcf r c)) (ww_spans w2)
      | None \<Rightarrow> ww_spans w2)"
    unfolding span_of_def by blast
  have "log_phase_handler env (Some amcf) i r w = Value w3"
    using assms(2,4) w2(1) w3(1) by (simp add: log_phase_handler_def access_of_def request_detail_def Let_def)
  then show ?thesis
    using w3(2-5) unfolding w2 w1(2-4) by (intro exI [of _ w3] conjI)
qed

lemma emit_span_metrics: "emit_span env i rec w = Value w' \<Longrightarrow> ww_metrics w' = ww_metrics w"
  using and_then_Value by (auto simp: emit_span_def and_then_Value Let_def split: if_splits option.splits)

text \<open>The handler up to the span: everything but the span ring and the alerts depends on this part.\<close>

definition before_span :: "'cv log_env \<Rightarrow> log_conf \<Rightarrow> nat \<Rightarrow> 'cv log_request \<Rightarrow> worker_world \<Rightarrow> worker_world outcome" where
  "before_span env amcf i r w =
     (let meta = read_request_meta r amcf; d = compute_duration_us env r (read_span_ctx r)
      in and_then (maybe_emit_access_log env i (access_of env amcf r) (check_export_selected env r amcf)
            (record_request_metrics r amcf i meta d w))
           (\<lambda>w1. case sampled_ctx (read_span_ctx r) of
              Some c \<Rightarrow> write_exemplar i (rm_base_idx meta) (exemplar_request r meta c d) w1
            | None \<Rightarrow> Value w1))"

lemma handler_before_span:
  assumes "log_phase_handler env (Some amcf) i r w = Value w'"
    and "i < worker_capacity (lg_slab amcf) (lg_log_cap amcf) (lg_zones amcf)"
  shows "\<exists>w1. before_span env amcf i r w = Value w1 \<and> ww_metrics w' = ww_metrics w1"
proof -
  let ?meta = "read_request_meta r amcf" and ?d = "compute_duration_us env r (read_span_ctx r)"
  have "and_then (maybe_emit_access_log env i (access_of env amcf r) (check_export_selected env r amcf)
      (record_request_metrics r amcf i ?meta ?d w))
      (maybe_emit_span env r amcf i ?meta (read_span_ctx r) ?d (request_detail env r amcf)) = Value w'"
    using assms by (simp add: log_phase_handler_def access_of_def request_detail_def Let_def)
  then obtain w2 where w2: "maybe_emit_access_log env i (access_of env amcf r) (check_export_selected env r amcf)
      (record_request_metrics r amcf i ?meta ?d w) = Value w2"
    "maybe_emit_span env r amcf i ?meta (read_span_ctx r) ?d (request_detail env r amcf) w2 = Value w'"
    unfolding and_then_Value by blast
  show ?thesis
  proof (cases "sampled_ctx (read_span_ctx r)")
    case None
    then show ?thesis
      using w2 by (simp add: before_span_def maybe_emit_span_def)
  next
    case (Some c)
    then obtain w3 where "write_exemplar i (rm_base_idx ?meta) (exemplar_request r ?meta c ?d) w2 = Value w3"
      "emit_span env i (span_record_of env r amcf ?meta c ?d (request_detail env r amcf)) w3 = Value w'"
      using w2(2) by (auto simp: maybe_emit_span_def and_then_Value)
    then show ?thesis
      using w2(1) Some emit_span_metrics by (fastforce simp: before_span_def)
  qed
qed

lemma args_unused:
  "before_span env amcf i (r\<lparr>rl_args := q\<rparr>) w = before_span env amcf i r w"
  "access_of env amcf (r\<lparr>rl_args := q\<rparr>) = access_of env amcf r"
  "check_export_selected env (r\<lparr>rl_args := q\<rparr>) amcf = check_export_selected env r amcf"
  "ctx_ids_ok (r\<lparr>rl_args := q\<rparr>) = ctx_ids_ok r"
proof -
  have read: "read_span_ctx (r\<lparr>rl_args := q\<rparr>) = read_span_ctx r" "read_request_meta (r\<lparr>rl_args := q\<rparr>) amcf = read_request_meta r amcf"
    "compute_duration_us env (r\<lparr>rl_args := q\<rparr>) c = compute_duration_us env r c"
    "request_ts_ns (r\<lparr>rl_args := q\<rparr>) = request_ts_ns r" for c
    by (simp_all add: read_span_ctx_def read_request_meta_def compute_duration_us_def request_ts_ns_def split: option.split)
  show sel: "check_export_selected env (r\<lparr>rl_args := q\<rparr>) amcf = check_export_selected env r amcf"
    by (simp add: check_export_selected_def)
  have "request_detail env (r\<lparr>rl_args := q\<rparr>) amcf = request_detail env r amcf"
    by (simp add: request_detail_def sel read read_request_detail_def)
  then show acc: "access_of env amcf (r\<lparr>rl_args := q\<rparr>) = access_of env amcf r"
    by (simp add: access_of_def access_request_def read)
  show "ctx_ids_ok (r\<lparr>rl_args := q\<rparr>) = ctx_ids_ok r"
    by (simp add: ctx_ids_ok_def read)
  have "record_slot (r\<lparr>rl_args := q\<rparr>) amcf = record_slot r amcf"
    by (intro ext) (simp add: record_slot_def upstream_zone_ptr_def)
  then have rec: "record_request_metrics (r\<lparr>rl_args := q\<rparr>) amcf = record_request_metrics r amcf"
    by (intro ext) (simp add: record_request_metrics_def split: option.split)
  have ex: "exemplar_request (r\<lparr>rl_args := q\<rparr>) = exemplar_request r"
    by (intro ext) (simp add: exemplar_request_def read)
  show "before_span env amcf i (r\<lparr>rl_args := q\<rparr>) w = before_span env amcf i r w"
    unfolding before_span_def sel acc read rec ex by (rule refl)
qed

section \<open>Histories of requests\<close>

fun handled :: "'cv traffic list \<Rightarrow> nat" where
  "handled [] = 0"
| "handled (Handle i env r # ops) = Suc (handled ops)"
| "handled (Export now # ops) = handled ops"

primrec valid_traffic :: "nat \<Rightarrow> 'cv traffic \<Rightarrow> bool" where
  "valid_traffic n (Handle i env r) \<longleftrightarrow> i < n \<and> ctx_ids_ok r"
| "valid_traffic n (Export now) \<longleftrightarrow> True"

lemma access_of_wf: "ctx_ids_ok r \<Longrightarrow> wf_trace (sr_trace (access_of env amcf r))"
  by (auto simp: access_of_def access_request_def wf_trace_def ctx_ids_ok_def sampled_ctx_def split: option.splits)

lemma span_of_wf: "ctx_ids_ok r \<Longrightarrow> sampled_ctx (read_span_ctx r) = Some c \<Longrightarrow> wf_span_ids (span_of env amcf r c)"
  by (auto simp: span_of_def ctx_ids_ok_def span_record_of_def wf_span_ids_def sampled_ctx_def split: option.splits if_splits)

lemma access_ops_valid:
  "\<forall>op\<in>set ops. valid_traffic n op \<Longrightarrow>
     \<forall>op\<in>set (access_ops amcf ops). valid_op (\<lambda>req. wf_trace (sr_trace req)) n op"
  by (induction amcf ops rule: access_ops.induct) (auto simp: access_of_wf)

lemma span_ops_valid:
  "\<forall>op\<in>set ops. valid_traffic n op \<Longrightarrow> \<forall>op\<in>set (span_ops amcf ops). valid_op wf_span_ids n op"
  by (induction amcf ops rule: span_ops.induct) (auto simp: span_of_wf split: option.splits)

lemma emissions_access_ops: "emissions (access_ops amcf ops) \<le> handled ops"
  by (induction amcf ops rule: access_ops.induct) auto

lemma emissions_span_ops: "emissions (span_ops amcf ops) \<le> handled ops"
  by (induction amcf ops rule: span_ops.induct) (auto split: option.splits)

lemma run_traffic_streams:
  assumes "n \<le> worker_capacity (lg_slab amcf) (lg_log_cap amcf) (lg_zones amcf)"
    and "run_stream emit_access (tick_access rc el) slots (access_ops amcf ops) = Value (louts, slots')"
    and "run_stream (emit_at (emit_span_record push)) (tick_spans rc) rings (span_ops amcf ops) = Value (souts, rings')"
    and "\<forall>op\<in>set ops. valid_traffic n op" "metrics_ok n (handled ops) w"
    and "ww_logs w = Some slots" "ww_spans w = Some rings"
  shows "\<exists>w'. run_traffic amcf rc el w ops = Value (zip louts souts, w') \<and> ww_logs w' = Some slots' \<and>
    ww_spans w' = Some rings' \<and> ww_ctrl w' = ww_ctrl w"
  using assms(2-)
proof (induction ops arbitrary: w slots rings louts souts)
  case (Cons op ops)
  show ?case
  proof (cases op)
    case (Handle i env r)
    have i: "i < n" "ctx_ids_ok r" "metrics_ok n (Suc (handled ops)) w"
      using Cons.prems Handle by auto
    let ?sel = "check_export_selected env r amcf" and ?ctx = "sampled_ctx (read_span_ctx r)"
    let ?slots = "if ?sel then pushed_access slots i (access_of env amcf r) else slots"
    let ?rings = "case ?ctx of Some c \<Rightarrow> pushed_span rings i (span_of env amcf r c) | None \<Rightarrow> rings"
    from handler_effect [OF i(3,1,2) assms(1), of env] obtain w1 where
      w1: "log_phase_handler env (Some amcf) i r w = Value w1" "ww_ctrl w1 = ww_ctrl w" "metrics_ok n (handled ops) w1"
        "ww_logs w1 = Some ?slots" "ww_spans w1 = Some ?rings"
      using Cons.prems(5,6) by (cases ?ctx) auto
    have "run_stream emit_access (tick_access rc el) ?slots (access_ops amcf ops) = Value (louts, slots')"
      using Cons.prems(1) Handle emit_access_value [OF access_of_wf [OF i(2), of env amcf], of slots i] by auto
    moreover have "run_stream (emit_at (emit_span_record push)) (tick_spans rc) ?rings (span_ops amcf ops) = Value (souts, rings')"
      using Cons.prems(2) Handle emit_span_value [OF span_of_wf [OF i(2)], of _ rings i env amcf]
      by (cases ?ctx) auto
    ultimately show ?thesis
      using Cons.IH [OF _ _ _ w1(3-5)] Cons.prems(3) w1(1,2) Handle by auto
  next
    case (Export now)
    obtain lo ld slots1 where l: "tick_access rc el now slots = (lo, ld, slots1)"
      by (metis prod_cases3)
    obtain so sd rings1 where sp: "tick_spans rc now rings = (so, sd, rings1)"
      by (metis prod_cases3)
    from Cons.prems(1) Export l obtain louts1 where
      l1: "run_stream emit_access (tick_access rc el) slots1 (access_ops amcf ops) = Value (louts1, slots')" "louts = (lo, ld) # louts1"
      by (auto split: outcome.splits)
    from Cons.prems(2) Export sp obtain souts1 where
      s1: "run_stream (emit_at (emit_span_record push)) (tick_spans rc) rings1 (span_ops amcf ops) = Value (souts1, rings')"
        "souts = (so, sd) # souts1"
      by (auto split: outcome.splits)
    let ?w1 = "w\<lparr>ww_logs := Some slots1, ww_spans := Some rings1\<rparr>"
    have "exporter_tick rc el now w = (((lo, ld), (so, sd)), ?w1)"
      using Cons.prems(5,6) l sp by (simp add: exporter_tick_def)
    moreover have "metrics_ok n (handled ops) ?w1"
      using Cons.prems(4) Export by (simp add: metrics_ok_def)
    then obtain w' where "run_traffic amcf rc el ?w1 ops = Value (zip louts1 souts1, w')" "ww_logs w' = Some slots'"
      "ww_spans w' = Some rings'" "ww_ctrl w' = ww_ctrl ?w1"
      using Cons.IH [OF l1(1) s1(1), of ?w1] Cons.prems(3) by auto
    ultimately show ?thesis
      using Export l1(2) s1(2) by simp
  qed
qed simp

section \<open>A concrete request\<close>

definition demo_ctx :: SpanCtx where
  "demo_ctx = zero_span_ctx\<lparr>sc_trace_id := replicate 16 1, sc_span_id := replicate 8 2, sc_sampled := True\<rparr>"

definition demo_log_request :: "nat log_request" where
  "demo_log_request =
     \<lparr>rl_http = \<lparr>rq_internal = False, rq_filter_finalize = False, rq_headers_in = [], rq_ctx = Some demo_ctx,
                 rq_anchors = [], rq_pool = []\<rparr>,
      rl_method_name = lit ''GET'', rl_status = 200, rl_http_version = 1001, rl_clcf = 0,
      rl_loc_conf = Some (default_location_conf\<lparr>lc_log_export_raw := 2\<rparr>), rl_connection = None, rl_upstream = None,
      rl_upstream_states = None, rl_request_length = 80, rl_start_sec = 5, rl_start_msec = 0, rl_uri = lit ''/a'',
      rl_args = lit ''k=v'', rl_content_length_n = - 1, rl_header_size = 0, rl_server_name = None,
      rl_host_header = lit ''h''\<rparr>"

definition demo_log_env :: "nat log_env" where
  "demo_log_env = \<lparr>le_complex_value = (\<lambda>_. None), le_get_variable = (\<lambda>_. None), le_hdr_iter = (\<lambda>_. []),
     le_unix_nano = 6000000000, le_mono_ns = 2000000, le_msec = 6000\<rparr>"

definition demo_log_conf :: log_conf where
  "demo_log_conf = \<lparr>lg_slab = 200, lg_log_cap = 524288, lg_zones = register_zones 200 524288 True True (Some 1) 8,
     lg_any_log_export = True, lg_routes = [], lg_upstreams = []\<rparr>"

definition demo_worker_world :: worker_world where
  "demo_worker_world = \<lparr>ww_metrics = None,
     ww_logs = Some [\<lparr>wl_access = fresh_ring 1024, wl_error = fresh_ring 1024, wl_coalesce = empty_table\<rparr>],
     ww_spans = Some [fresh_ring 4096], ww_ctrl = None, ww_latch = 0, ww_alerts = 0\<rparr>"

lemma demo_capacity: "1 \<le> worker_capacity (lg_slab demo_log_conf) (lg_log_cap demo_log_conf) (lg_zones demo_log_conf)"
proof -
  have "check_zone_sizing 200 524288 (register_zones 200 524288 True True (Some 1) 8) (Some 1) = Some 1"
    by (rule registered_zones_fit) (simp_all add: n_workers_to_reserve_def n_workers_from_cf_def)
  then show ?thesis
    using checked_capacity [of 200 524288 "register_zones 200 524288 True True (Some 1) 8" "Some 1" 1]
    by (simp add: demo_log_conf_def) (simp add: register_zones_def Let_def)
qed

lemma demo_selected: "check_export_selected demo_log_env demo_log_request demo_log_conf"
  by (simp add: check_export_selected_def demo_log_conf_def demo_log_request_def log_export_mode_def)

lemma demo_sampled: "sampled_ctx (read_span_ctx demo_log_request) = Some demo_ctx"
  by (simp add: sampled_ctx_def read_span_ctx_def recover_span_ctx_def demo_log_request_def demo_ctx_def)

lemma demo_ids: "ctx_ids_ok demo_log_request"
  by (simp add: ctx_ids_ok_def read_span_ctx_def recover_span_ctx_def demo_log_request_def demo_ctx_def zero_span_ctx_def)

section \<open>Properties\<close>

text \<open>
  C5. From requests to batches: from fresh rings, any interleaving of requests handled by the workers and
  exporter ticks runs without panic, and the exporter's log and span batches are those of one bounded
  queue per worker: the log queue receives the access record of exactly the requests the location selects,
  the span queue the span of exactly the sampled requests, in the order each worker handled them. The
  control block is untouched.
\<close>

theorem requests_reach_batches:
  assumes "n \<le> worker_capacity (lg_slab amcf) (lg_log_cap amcf) (lg_zones amcf)"
    and "0 < unat lc" "unat lc \<le> 2 ^ 32" "0 < unat sc" "unat sc \<le> 2 ^ 32" "1128 * handled ops < 2 ^ 64"
    and "ww_logs w = Some slots" "length slots = n" "\<forall>wl\<in>set slots. wl_access wl = fresh_ring lc"
    and "ww_spans w = Some (replicate n (fresh_ring sc))" "metrics_ok n (handled ops) w"
    and "\<forall>op\<in>set ops. valid_traffic n op"
  shows "\<exists>w'. run_traffic amcf rc error_log w ops =
      Value (zip
        (fst (queue_stream (\<lambda>req. 4 + length (concat (access_record_writes req))) access_log_of 2500 (unat lc)
           (replicate n ([], 0)) (access_ops amcf ops)))
        (fst (queue_stream (\<lambda>rec. 4 + length (concat (span_record_writes rec)))
           (\<lambda>rec now. span_from_fields (capped_fields rec)) 2500 (unat sc)
           (replicate n ([], 0)) (span_ops amcf ops))), w') \<and>
    ww_ctrl w' = ww_ctrl w"
proof -
  have "unat lc dvd 2 ^ 64 \<or> 340 * emissions (access_ops amcf ops) < 2 ^ 64"
    using assms(6) emissions_access_ops [of amcf ops] by linarith
  from access_stream_run [OF assms(2,3) this assms(9), of rc error_log] obtain slots' where
    l: "run_stream emit_access (tick_access rc error_log) slots (access_ops amcf ops) =
     Value (fst (queue_stream (\<lambda>req. 4 + length (concat (access_record_writes req))) access_log_of
       MAX_ACCESS_RECORDS_PER_WORKER_PER_DRAIN (unat lc) (replicate n ([], 0)) (access_ops amcf ops)), slots')"
    using access_ops_valid [OF assms(12)] assms(8) by auto
  have "unat sc dvd 2 ^ 64 \<or> 1128 * emissions (span_ops amcf ops) < 2 ^ 64"
    using assms(6) emissions_span_ops [of amcf ops] by linarith
  from run_span_stream [OF assms(4,5) this span_ops_valid [OF assms(12)], of rc] obtain rings where
    "run_stream (emit_at (emit_span_record push)) (tick_spans rc) (replicate n (fresh_ring sc)) (span_ops amcf ops) =
     Value (fst (queue_stream (\<lambda>rec. 4 + length (concat (span_record_writes rec)))
       (\<lambda>rec now. span_from_fields (capped_fields rec)) MAX_SPAN_RECORDS_PER_WORKER_PER_DRAIN (unat sc)
       (replicate n ([], 0)) (span_ops amcf ops)), rings)"
    by blast
  from run_traffic_streams [OF assms(1) l this assms(12,11,7,10)] show ?thesis
    unfolding MAX_ACCESS_RECORDS_PER_WORKER_PER_DRAIN_def MAX_SPAN_RECORDS_PER_WORKER_PER_DRAIN_def by blast
qed

theorem requests_reach_batches_witness:
  "\<exists>w'. run_traffic demo_log_conf sample_conf True demo_worker_world [Handle 0 demo_log_env demo_log_request, Export 9] =
     Value ([(([access_log_of (access_of demo_log_env demo_log_conf demo_log_request) 9], 0),
              ([span_from_fields (capped_fields (span_of demo_log_env demo_log_conf demo_log_request demo_ctx))], 0))], w')"
proof -
  let ?ops = "[Handle 0 demo_log_env demo_log_request, Export 9]"
  let ?slots = "[\<lparr>wl_access = fresh_ring 1024, wl_error = fresh_ring 1024, wl_coalesce = empty_table\<rparr>]"
  let ?a = "access_of demo_log_env demo_log_conf demo_log_request"
  let ?s = "span_of demo_log_env demo_log_conf demo_log_request demo_ctx"
  have "0 < unat (1024 :: u64)" "unat (1024 :: u64) \<le> 2 ^ 32" "0 < unat (4096 :: u64)" "unat (4096 :: u64) \<le> 2 ^ 32"
    "1128 * handled ?ops < 2 ^ 64" "ww_logs demo_worker_world = Some ?slots" "length ?slots = 1"
    "\<forall>wl\<in>set ?slots. wl_access wl = fresh_ring 1024" "ww_spans demo_worker_world = Some (replicate 1 (fresh_ring 4096))"
    "metrics_ok 1 (handled ?ops) demo_worker_world" "\<forall>op\<in>set ?ops. valid_traffic 1 op"
    by (simp_all add: demo_worker_world_def metrics_ok_def demo_ids)
  note run = requests_reach_batches [OF demo_capacity this, of sample_conf True]
  have len: "4 + length (concat (access_record_writes ?a)) \<le> 1024" "4 + length (concat (span_record_writes ?s)) \<le> 4096"
    using access_sr_bound [OF access_of_wf [OF demo_ids, of demo_log_env demo_log_conf]]
      span_frame_bound [OF span_of_wf [OF demo_ids demo_sampled, of demo_log_env demo_log_conf]] by simp_all
  have "access_ops demo_log_conf ?ops = [Emit 0 ?a, Tick 9]" "span_ops demo_log_conf ?ops = [Emit 0 ?s, Tick 9]"
    by (simp_all add: demo_selected demo_sampled)
  note ops = this
  have "fst (queue_stream (\<lambda>req. 4 + length (concat (access_record_writes req))) access_log_of 2500 (unat (1024 :: u64))
      (replicate 1 ([], 0)) [Emit 0 ?a, Tick 9]) = [([access_log_of ?a 9], 0)]"
    using len(1) by simp
  moreover have "fst (queue_stream (\<lambda>rec. 4 + length (concat (span_record_writes rec)))
      (\<lambda>rec now. span_from_fields (capped_fields rec)) 2500 (unat (4096 :: u64))
      (replicate 1 ([], 0)) [Emit 0 ?s, Tick 9]) = [([span_from_fields (capped_fields ?s)], 0)]"
    using len(2) by simp
  ultimately show ?thesis
    using run unfolding ops by (simp only: zip_Cons_Cons zip_Nil) blast
qed



end
