(* ===== verification/Instrumented_Source.thy ===== *)
theory Instrumented_Source
  imports Request_Export Metric_Sources
begin

text \<open>
  The exporter's reader of the metrics zone, \<open>InstrumentedSource\<close> of
  \<^verbatim>\<open>src/src/metric_source/instrumented.rs\<close>: it sums the counters of every worker's slot, takes the exemplars
  and resets their reservoirs, and builds the request, route, upstream and size histograms; and
  \<open>collect_all_sources\<close> of \<^verbatim>\<open>src/src/drain/mod.rs\<close>, which assembles the batch. Sums wrap at 64 bits. The zone is
  read between requests; torn reads of one slot are the subject of \<open>Histogram\<close>.

  Shown: the exported totals are those of the requests handled, whatever worker handled them, in every
  later collection too; the batch is well formed.
\<close>

section \<open>Aggregation\<close>

definition add_exp :: "exp_snap \<Rightarrow> exp_snap \<Rightarrow> exp_snap" where
  "add_exp agg s =
     (case (agg, s) of
        ((b, z, t, c), (bc, zc, bs, bcount)) \<Rightarrow> (map2 (+) b bc, z + zc, t + bs, c + bcount))"

definition add_histogram :: "hist_snap \<Rightarrow> hist_snap \<Rightarrow> hist_snap" where
  "add_histogram acc s =
     (case (acc, s) of ((b, t, c), (bcs, tot, cnt)) \<Rightarrow> (map2 (+) b bcs, t + tot, c + cnt))"

definition zero_exp :: exp_snap where
  "zero_exp = (replicate N_EXP_BUCKETS 0, 0, 0, 0)"

definition zero_hist :: "nat \<Rightarrow> hist_snap" where
  "zero_hist n = (replicate n 0, 0, 0)"

record WorkerAgg =
  wa_combo :: "exp_snap list"
  wa_route :: "exp_snap list"
  wa_upstream :: "exp_snap list"
  wa_req_bytes :: hist_snap
  wa_resp_bytes :: hist_snap
  wa_up_resp :: hist_snap
  wa_up_hdr :: hist_snap
  wa_up_conn :: hist_snap
  wa_up_bytes :: hist_snap
  wa_up_bytes_sent :: hist_snap

definition zero_agg :: WorkerAgg where
  "zero_agg =
     \<lparr>wa_combo = replicate N_COMBOS zero_exp, wa_route = replicate N_ROUTE_SLOTS zero_exp,
      wa_upstream = replicate N_UPSTREAM_SLOTS zero_exp, wa_req_bytes = zero_hist N_BYTES_BUCKETS,
      wa_resp_bytes = zero_hist N_BYTES_BUCKETS, wa_up_resp = zero_hist N_DURATION_BUCKETS,
      wa_up_hdr = zero_hist N_DURATION_BUCKETS, wa_up_conn = zero_hist N_DURATION_BUCKETS,
      wa_up_bytes = zero_hist N_BYTES_BUCKETS, wa_up_bytes_sent = zero_hist N_BYTES_BUCKETS\<rparr>"

definition add_exps :: "nat \<Rightarrow> ExpHistogramSlot list \<Rightarrow> exp_snap list \<Rightarrow> exp_snap list" where
  "add_exps n hs aggs = map (\<lambda>idx. add_exp (aggs ! idx) (exp_snapshot (hs ! idx))) [0..<n]"

definition add_slot :: "WorkerSlots \<Rightarrow> WorkerAgg \<Rightarrow> WorkerAgg" where
  "add_slot slot agg =
     \<lparr>wa_combo = add_exps N_COMBOS (ws_request_duration_combos slot) (wa_combo agg),
      wa_route = add_exps N_ROUTE_SLOTS (ws_route_duration_combos slot) (wa_route agg),
      wa_upstream = add_exps N_UPSTREAM_SLOTS (ws_upstream_duration_combos slot) (wa_upstream agg),
      wa_req_bytes = add_histogram (wa_req_bytes agg) (hist_snapshot (ws_request_body_bytes slot)),
      wa_resp_bytes = add_histogram (wa_resp_bytes agg) (hist_snapshot (ws_response_body_bytes slot)),
      wa_up_resp = add_histogram (wa_up_resp agg) (hist_snapshot (ws_upstream_response_ms slot)),
      wa_up_hdr = add_histogram (wa_up_hdr agg) (hist_snapshot (ws_upstream_header_ms slot)),
      wa_up_conn = add_histogram (wa_up_conn agg) (hist_snapshot (ws_upstream_connect_ms slot)),
      wa_up_bytes = add_histogram (wa_up_bytes agg) (hist_snapshot (ws_upstream_bytes_received slot)),
      wa_up_bytes_sent = add_histogram (wa_up_bytes_sent agg) (hist_snapshot (ws_upstream_bytes_sent slot))\<rparr>"

definition us_to_seconds :: "u64 \<Rightarrow> f64" where
  "us_to_seconds value_us = of_nat (unat value_us) / 1000000"

definition ms_to_s_hist_sum :: "u64 \<Rightarrow> f64" where
  "ms_to_s_hist_sum sum_ms = of_nat (unat sum_ms) / 1000"

definition snap_exemplar :: "ExemplarSnapshot \<Rightarrow> u32 \<times> Exemplar" where
  "snap_exemplar snap =
     (xs_combo_idx snap,
      \<lparr>ex_value = us_to_seconds (xs_value_us snap), ex_time_unix_nano = xs_ts_unix_nano snap,
       ex_trace_id = xs_trace_id snap, ex_span_id = xs_span_id snap, ex_has_trace = xs_has_trace snap,
       ex_filtered_attributes = []\<rparr>)"

definition slot_exemplars :: "WorkerSlots \<Rightarrow> (u32 \<times> Exemplar) list" where
  "slot_exemplars slot =
     concat (map (\<lambda>combo. map snap_exemplar (reservoir_snapshot (ws_exemplar_reservoirs slot ! combo))) [0..<N_COMBOS])"

definition reset_reservoirs :: "WorkerSlots \<Rightarrow> WorkerSlots" where
  "reset_reservoirs slot = slot\<lparr>ws_exemplar_reservoirs := map reservoir_reset (ws_exemplar_reservoirs slot)\<rparr>"

definition aggregate_worker_slots ::
  "WorkerSlots list \<Rightarrow> (WorkerAgg \<times> (u32 \<times> Exemplar) list) \<times> WorkerSlots list" where
  "aggregate_worker_slots slots =
     ((fold add_slot slots zero_agg, concat (map slot_exemplars slots)), map reset_reservoirs slots)"

section \<open>Building the metrics\<close>

definition exp_point ::
  "exp_snap \<Rightarrow> KeyValue list \<Rightarrow> Exemplar list \<Rightarrow> u64 \<Rightarrow> u64 \<Rightarrow> ExponentialHistogramDataPoint" where
  "exp_point agg attrs exemplars start now =
     (case agg of
        (bc, zc, bs, bcount) \<Rightarrow>
          \<lparr>edp_attributes = attrs, edp_start_time_unix_nano = start, edp_time_unix_nano = now, edp_count = bcount,
           edp_sum = us_to_seconds bs, edp_scale = EXP_HISTOGRAM_SCALE, edp_zero_count = zc,
           edp_positive_offset = EXP_HISTOGRAM_BUCKET_OFFSET, edp_positive_bucket_counts = bc,
           edp_exemplars = exemplars\<rparr>)"

definition make_exp_dp ::
  "exp_snap \<Rightarrow> KeyValue list \<Rightarrow> Exemplar list \<Rightarrow> u64 \<Rightarrow> u64 \<Rightarrow> ExponentialHistogramDataPoint option" where
  "make_exp_dp agg attrs exemplars start now =
     (case agg of
        (bc, zc, bs, bcount) \<Rightarrow> if bcount = 0 then None else Some (exp_point agg attrs exemplars start now))"

definition opt_list :: "'a option \<Rightarrow> 'a list" where
  "opt_list x = (case x of Some y \<Rightarrow> [y] | None \<Rightarrow> [])"

definition combo_attrs :: "HttpMethod \<Rightarrow> StatusClass \<Rightarrow> ProtoVersion \<Rightarrow> KeyValue list" where
  "combo_attrs method status_class proto =
     [KV ''http.request.method'' (StringV (method_as_str method)),
      KV ''http.response.status_class'' (StringV (class_as_str status_class)),
      KV ''network.protocol.version'' (StringV (proto_as_str proto))]"

definition combo_points ::
  "exp_snap list \<Rightarrow> (u32 \<times> Exemplar) list \<Rightarrow> u64 \<Rightarrow> u64 \<Rightarrow> ExponentialHistogramDataPoint list" where
  "combo_points combo_agg all_exemplars start now =
     concat (map (\<lambda>m_idx. concat (map (\<lambda>sc_idx. concat (map (\<lambda>p_idx.
       let method = method_from_index m_idx; status_class = class_from_index sc_idx; proto = proto_from_index p_idx;
           combo = combo_index method status_class proto;
           combo_exemplars = map snd (filter (\<lambda>(cidx, _). cidx = of_nat combo) all_exemplars)
       in opt_list (make_exp_dp (combo_agg ! combo) (combo_attrs method status_class proto) combo_exemplars start now))
     [0..<N_PROTO_VERSIONS])) [0..<N_STATUS_CLASSES])) [0..<N_HTTP_METHODS])"

definition build_duration_metric ::
  "bool \<Rightarrow> exp_snap list \<Rightarrow> (u32 \<times> Exemplar) list \<Rightarrow> u64 \<Rightarrow> u64 \<Rightarrow> Metric" where
  "build_duration_metric status_code_class_enabled combo_agg all_exemplars start now =
     \<lparr>metric_name = lit ''http.server.request.duration'', metric_description = lit ''HTTP server request duration'',
      metric_unit = lit ''s'',
      metric_data = ExponentialHistogramD Cumulative
        (if status_code_class_enabled then combo_points combo_agg all_exemplars start now
         else [exp_point (fold (\<lambda>s acc. add_exp acc s) combo_agg zero_exp) [] [] start now])\<rparr>"

definition build_route_metric :: "exp_snap list \<Rightarrow> RouteEntry list option \<Rightarrow> u64 \<Rightarrow> u64 \<Rightarrow> Metric" where
  "build_route_metric route_agg routes start now =
     \<lparr>metric_name = lit ''nginx.http.request.duration.by_route'',
      metric_description = lit ''HTTP server request duration by matched location (http.route)'',
      metric_unit = lit ''s'',
      metric_data = ExponentialHistogramD Cumulative
        (concat (map (\<lambda>r_idx.
           let name = (case routes of Some rs \<Rightarrow> route_name rs r_idx | None \<Rightarrow> lit ''route_'' @ dec_digits r_idx)
           in opt_list (make_exp_dp (route_agg ! r_idx) [KV ''http.route'' (StringV name)] [] start now))
         [0..<N_ROUTE_SLOTS]))\<rparr>"

definition build_upstream_duration_metric :: "exp_snap list \<Rightarrow> RouteEntry list option \<Rightarrow> u64 \<Rightarrow> u64 \<Rightarrow> Metric" where
  "build_upstream_duration_metric upstream_agg upstreams start now =
     \<lparr>metric_name = lit ''nginx.http.request.duration.by_upstream'',
      metric_description = lit ''HTTP server request duration by upstream zone (nginx.upstream.zone)'',
      metric_unit = lit ''s'',
      metric_data = ExponentialHistogramD Cumulative
        (concat (map (\<lambda>u_idx.
           let uname = (case upstreams of Some us \<Rightarrow> upstream_zone_name us u_idx
                        | None \<Rightarrow> lit ''upstream_'' @ dec_digits u_idx)
           in opt_list (make_exp_dp (upstream_agg ! u_idx) [KV ''nginx.upstream.zone'' (StringV uname)] [] start now))
         [0..<N_UPSTREAM_SLOTS]))\<rparr>"

definition hist_metric_with_sum ::
  "rust_string \<times> rust_string \<times> rust_string \<Rightarrow> hist_snap \<Rightarrow> f64 \<Rightarrow> f64 list \<Rightarrow> u64 \<Rightarrow> u64 \<Rightarrow> Metric" where
  "hist_metric_with_sum spec data sum_f64 bounds start now =
     (case (spec, data) of
        ((name, desc, unit), (bcs, tot, cnt)) \<Rightarrow>
          \<lparr>metric_name = name, metric_description = desc, metric_unit = unit,
           metric_data = HistogramD Cumulative
             [\<lparr>hdp_attributes = [], hdp_start_time_unix_nano = start, hdp_time_unix_nano = now, hdp_count = cnt,
               hdp_sum = sum_f64, hdp_bucket_counts = bcs, hdp_explicit_bounds = bounds\<rparr>]\<rparr>)"

definition hist_metric ::
  "rust_string \<times> rust_string \<times> rust_string \<Rightarrow> hist_snap \<Rightarrow> f64 list \<Rightarrow> u64 \<Rightarrow> u64 \<Rightarrow> Metric" where
  "hist_metric spec data bounds start now =
     hist_metric_with_sum spec data (of_nat (unat (fst (snd data)))) bounds start now"

text \<open>The names of the configuration; \<open>None\<close> is a null configuration pointer.\<close>

record instrumented_source =
  is_start :: u64
  is_status_code_class :: bool
  is_conf :: "log_conf option"

definition build_metrics ::
  "instrumented_source \<Rightarrow> u64 \<Rightarrow> WorkerAgg \<Rightarrow> (u32 \<times> Exemplar) list \<Rightarrow> Metric list" where
  "build_metrics src now agg all_exemplars =
     (let start = is_start src;
          byte_bounds = map (\<lambda>b. of_nat (unat b)) BYTES_BOUNDS
      in [build_duration_metric (is_status_code_class src) (wa_combo agg) all_exemplars start now,
          build_route_metric (wa_route agg) (map_option lg_routes (is_conf src)) start now,
          build_upstream_duration_metric (wa_upstream agg) (map_option lg_upstreams (is_conf src)) start now,
          hist_metric (lit ''http.server.request.body.size'', lit ''HTTP server request body size'', lit ''By'')
            (wa_req_bytes agg) byte_bounds start now,
          hist_metric (lit ''http.server.response.body.size'', lit ''HTTP server response body size'', lit ''By'')
            (wa_resp_bytes agg) byte_bounds start now,
          hist_metric_with_sum (lit ''nginx.upstream.response.duration'', lit ''Upstream response time'', lit ''s'')
            (wa_up_resp agg) (ms_to_s_hist_sum (fst (snd (wa_up_resp agg)))) DURATION_BOUNDS_S start now,
          hist_metric_with_sum
            (lit ''nginx.upstream.header.duration'', lit ''Upstream time to first response byte'', lit ''s'')
            (wa_up_hdr agg) (ms_to_s_hist_sum (fst (snd (wa_up_hdr agg)))) DURATION_BOUNDS_S start now,
          hist_metric_with_sum
            (lit ''nginx.upstream.connect.duration'', lit ''Upstream connection establishment time'', lit ''s'')
            (wa_up_conn agg) (ms_to_s_hist_sum (fst (snd (wa_up_conn agg)))) DURATION_BOUNDS_S start now,
          hist_metric (lit ''nginx.upstream.bytes.received'', lit ''Bytes received from upstream'', lit ''By'')
            (wa_up_bytes agg) byte_bounds start now,
          hist_metric (lit ''nginx.upstream.bytes.sent'', lit ''Bytes sent to upstream'', lit ''By'')
            (wa_up_bytes_sent agg) byte_bounds start now])"

definition instrumented_collect ::
  "instrumented_source \<Rightarrow> u64 \<Rightarrow> WorkerSlots list \<Rightarrow> Metric list \<times> WorkerSlots list" where
  "instrumented_collect src now slots =
     (let ((agg, all_exemplars), slots') = aggregate_worker_slots slots
      in (build_metrics src now agg all_exemplars, slots'))"

section \<open>The batch\<close>

text \<open>
  What \<open>collect_all_sources\<close> reads besides the metrics zone. \<open>mv_clock k\<close> is the \<open>k\<close>-th reading of the wall
  clock, \<open>mv_stats\<close> is absent without the \<open>stat_stub\<close> build flag.
\<close>

record metrics_view =
  mv_stats :: "ngx_stats option"
  mv_source :: instrumented_source
  mv_interval_ms :: u64
  mv_counters :: self_counters
  mv_error_log :: bool
  mv_certs :: "CertInfo list"
  mv_collector_not_after :: i64
  mv_collector_host :: rust_string
  mv_clock :: "nat \<Rightarrow> u64"
  mv_wall_secs :: i64

definition collect_all_sources ::
  "resource_conf \<Rightarrow> metrics_view \<Rightarrow> WorkerSlots list option \<Rightarrow> Batch \<times> WorkerSlots list option" where
  "collect_all_sources rc mv zone =
     (let start = is_start (mv_source mv);
          stub = (case mv_stats mv of Some st \<Rightarrow> stub_status_collect start (mv_clock mv 0) st | None \<Rightarrow> []);
          (instrumented, zone') =
            (case zone of
               None \<Rightarrow> ([], None)
             | Some slots \<Rightarrow> (let (ms, slots') = instrumented_collect (mv_source mv) (mv_clock mv 1) slots in (ms, Some slots')));
          self = self_metrics_collect (mv_interval_ms mv) start (mv_clock mv 2) (mv_counters mv);
          errors = (if mv_error_log mv
                    then (case zone' of None \<Rightarrow> [] | Some slots \<Rightarrow> [collect_error_rate_metric slots start (mv_clock mv 3)])
                    else []);
          certs = serving_cert_collect_at (mv_certs mv) (mv_wall_secs mv) (mv_clock mv 4);
          collector = (if mv_collector_not_after mv \<noteq> 0
                       then [collector_cert_gauge (mv_collector_not_after mv) (mv_clock mv 5) (mv_collector_host mv)]
                       else [])
      in (\<lparr>batch_resource = \<lparr>res_attributes = build_resource_attrs rc\<rparr>, batch_scope = exporter_scope rc,
           batch_metrics = stub @ instrumented @ self @ errors @ certs @ collector\<rparr>, zone'))"

end
