(* ===== verification/Metric_Totals.thy ===== *)
theory Metric_Totals
  imports Instrumented_Source "HOL-Library.Multiset"
begin

text \<open>
  What the exported histograms say of the requests. A histogram of a worker's slot is a summary of the
  values it recorded; summaries of different workers add up to the summary of all values, which does not
  depend on the order or on who recorded what. The contract of such a summary is the locale
  \<open>additive_summary\<close>, met by both kinds of histograms.
\<close>

section \<open>Summaries\<close>

definition exp_totals :: "u64 list \<Rightarrow> exp_snap" where
  "exp_totals vs =
     (map (\<lambda>i. \<Sum>v\<leftarrow>vs. if v \<noteq> 0 \<and> exp_bucket v = i then 1 else 0) [0..<N_EXP_BUCKETS],
      \<Sum>v\<leftarrow>vs. if v = 0 then 1 else 0, sum_list vs, of_nat (length vs))"

definition hist_totals :: "u64 list \<Rightarrow> u64 list \<Rightarrow> hist_snap" where
  "hist_totals bounds vs =
     (map (\<lambda>i. \<Sum>v\<leftarrow>vs. if partition_point (\<lambda>b. b < v) bounds = i then 1 else 0) [0..<Suc (length bounds)],
      sum_list vs, of_nat (length vs))"

definition vals :: "('h \<Rightarrow> 'v option) \<Rightarrow> 'h list \<Rightarrow> 'v list" where
  "vals f hs = concat (map (\<lambda>h. opt_list (f h)) hs)"

lemma vals_simps [simp]:
  "vals f [] = []" "vals f (hs @ hs') = vals f hs @ vals f hs'" "vals f (h # hs) = opt_list (f h) @ vals f hs"
  by (simp_all add: vals_def)

lemma mset_by_worker:
  assumes "\<forall>h\<in>set hs. w h < n"
  shows "mset (concat (map (\<lambda>i. vals f (filter (\<lambda>h. w h = i) hs)) [0..<n])) = mset (vals f hs)"
  using assms
proof (induction hs)
  case Nil
  then show ?case
    by (simp add: vals_def mset_concat comp_def)
next
  case (Cons h hs)
  have "mset (concat (map (\<lambda>i. vals f (filter (\<lambda>h. w h = i) (h # hs))) [0..<n])) =
      (\<Sum>i\<leftarrow>[0..<n]. (if i = w h then mset (opt_list (f h)) else {#}) + mset (vals f (filter (\<lambda>h. w h = i) hs)))"
    unfolding mset_concat map_map comp_def by (rule arg_cong [where f = sum_list]) auto
  also have "\<dots> = mset (opt_list (f h)) + (\<Sum>i\<leftarrow>[0..<n]. mset (vals f (filter (\<lambda>h. w h = i) hs)))"
    using Cons.prems by (simp add: sum_list_addf interv_sum_list_conv_sum_set_nat)
  also have "\<dots> = mset (vals f (h # hs))"
    using Cons by (simp add: mset_concat comp_def)
  finally show ?case .
qed

locale additive_summary =
  fixes totals :: "'v list \<Rightarrow> 's" and add :: "'s \<Rightarrow> 's \<Rightarrow> 's" and zero :: 's
  assumes totals_nil: "totals [] = zero"
    and totals_append: "totals (xs @ ys) = add (totals xs) (totals ys)"
    and totals_mset: "mset xs = mset ys \<Longrightarrow> totals xs = totals ys"
begin

lemma fold_totals: "fold (\<lambda>s acc. add acc s) (map totals vss) (totals vs) = totals (vs @ concat vss)"
  by (induction vss arbitrary: vs) (simp_all add: totals_append [symmetric])

lemma totals_by_worker:
  assumes "\<forall>h\<in>set hs. w h < n"
  shows "fold (\<lambda>s acc. add acc s) (map (\<lambda>i. totals (vals f (filter (\<lambda>h. w h = i) hs))) [0..<n]) zero =
    totals (vals f hs)"
  using fold_totals [of "map (\<lambda>i. vals f (filter (\<lambda>h. w h = i) hs)) [0..<n]" "[]"]
    totals_mset [OF mset_by_worker [OF assms, of f]]
  by (simp add: totals_nil comp_def)

end

lemma sum_list_mset_cong: "mset xs = mset ys \<Longrightarrow> sum_list (map g xs) = (sum_list (map g ys) :: 'a::comm_monoid_add)"
  by (metis mset_map sum_mset_sum_list)

interpretation exp_summary: additive_summary exp_totals add_exp zero_exp
proof
  show "exp_totals [] = zero_exp"
    by (simp add: exp_totals_def zero_exp_def map_replicate_const)
  show "exp_totals (xs @ ys) = add_exp (exp_totals xs) (exp_totals ys)" for xs ys
    by (simp add: exp_totals_def add_exp_def map2_map_map)
  show "exp_totals xs = exp_totals ys" if "mset xs = mset ys" for xs ys
    using that sum_list_mset_cong [OF that, of id] mset_eq_length [OF that]
    by (simp add: exp_totals_def sum_list_mset_cong [OF that])
qed

interpretation hist_summary: additive_summary "hist_totals bounds" add_histogram "zero_hist (Suc (length bounds))" for bounds
proof
  show "hist_totals bounds [] = zero_hist (Suc (length bounds))"
    by (simp add: hist_totals_def zero_hist_def map_replicate_const replicate_append_same del: upt_Suc)
  show "hist_totals bounds (xs @ ys) = add_histogram (hist_totals bounds xs) (hist_totals bounds ys)" for xs ys
    by (simp add: hist_totals_def add_histogram_def map2_map_map del: upt_Suc)
  show "hist_totals bounds xs = hist_totals bounds ys" if "mset xs = mset ys" for xs ys
    using that sum_list_mset_cong [OF that, of id] mset_eq_length [OF that]
    by (simp add: hist_totals_def sum_list_mset_cong [OF that] del: upt_Suc)
qed

section \<open>A slot summarises what it recorded\<close>

lemma sum_list_indicator: "(\<Sum>v\<leftarrow>vs. if P v then 1 else 0) = (of_nat (length (filter P vs)) :: 'a::semiring_1)"
  by (induction vs) simp_all

lemma exp_slot_totals: "exp_snapshot (fold exp_record vs empty_exp_slot) = exp_totals vs"
  by (simp add: exp_histogram_contents exp_totals_def sum_list_indicator)

lemma hist_slot_totals:
  assumes "n = Suc (length bounds)"
  shows "hist_snapshot (fold (hist_record bounds) vs (empty_histogram n)) = hist_totals bounds vs"
  using hist_histogram_contents [of bounds vs] assms by (simp add: hist_totals_def sum_list_indicator del: upt_Suc)

section \<open>The values a request contributes\<close>

type_synonym 'cv handled_request = "nat \<times> 'cv log_env \<times> 'cv log_request"

definition req_duration :: "'cv log_env \<Rightarrow> 'cv log_request \<Rightarrow> u64" where
  "req_duration env r = compute_duration_us env r (read_span_ctx r)"

definition combo_value :: "log_conf \<Rightarrow> nat \<Rightarrow> 'cv handled_request \<Rightarrow> u64 option" where
  "combo_value amcf k h =
     (case h of (_, env, r) \<Rightarrow>
        let meta = read_request_meta r amcf
        in if rm_status meta \<noteq> 0 \<and> rm_base_idx meta = k then Some (req_duration env r) else None)"

definition route_value :: "log_conf \<Rightarrow> nat \<Rightarrow> 'cv handled_request \<Rightarrow> u64 option" where
  "route_value amcf k h =
     (case h of (_, env, r) \<Rightarrow>
        if rm_route_idx (read_request_meta r amcf) = k then Some (req_duration env r) else None)"

definition upstream_value :: "log_conf \<Rightarrow> nat \<Rightarrow> 'cv handled_request \<Rightarrow> u64 option" where
  "upstream_value amcf k h =
     (case h of (_, env, r) \<Rightarrow>
        if upstream_zone_ptr r \<noteq> 0 \<and> min (upstream_idx_for_zone (lg_upstreams amcf) (upstream_zone_ptr r)) UPSTREAM_IDX_OTHER = k
        then Some (req_duration env r) else None)"

definition upstream_sum :: "'cv handled_request \<Rightarrow> UpstreamSum option" where
  "upstream_sum h =
     (case h of (_, _, r) \<Rightarrow> if rl_upstream r \<noteq> None then sum_upstream_states (rl_upstream_states r) else None)"

text \<open>The counters of a slot that recorded the requests \<open>hs\<close>.\<close>

definition slot_of :: "log_conf \<Rightarrow> 'cv handled_request list \<Rightarrow> WorkerSlots" where
  "slot_of amcf hs =
     \<lparr>ws_request_duration_combos = map (\<lambda>k. fold exp_record (vals (combo_value amcf k) hs) empty_exp_slot) [0..<N_COMBOS],
      ws_route_duration_combos = map (\<lambda>k. fold exp_record (vals (route_value amcf k) hs) empty_exp_slot) [0..<N_ROUTE_SLOTS],
      ws_upstream_duration_combos =
        map (\<lambda>k. fold exp_record (vals (upstream_value amcf k) hs) empty_exp_slot) [0..<N_UPSTREAM_SLOTS],
      ws_request_body_bytes =
        fold (hist_record BYTES_BOUNDS) (vals (\<lambda>(_, _, r). Some (rl_request_length r)) hs) (empty_histogram N_BYTES_BUCKETS),
      ws_response_body_bytes =
        fold (hist_record BYTES_BOUNDS) (vals (\<lambda>(_, _, r). Some (rm_resp_bytes (read_request_meta r amcf))) hs)
          (empty_histogram N_BYTES_BUCKETS),
      ws_upstream_response_ms =
        fold (hist_record DURATION_BOUNDS_MS) (vals (\<lambda>h. Option.bind (upstream_sum h) up_response_ms) hs)
          (empty_histogram N_DURATION_BUCKETS),
      ws_upstream_header_ms =
        fold (hist_record DURATION_BOUNDS_MS) (vals (\<lambda>h. Option.bind (upstream_sum h) up_header_ms) hs)
          (empty_histogram N_DURATION_BUCKETS),
      ws_upstream_connect_ms =
        fold (hist_record DURATION_BOUNDS_MS) (vals (\<lambda>h. Option.bind (upstream_sum h) up_connect_ms) hs)
          (empty_histogram N_DURATION_BUCKETS),
      ws_upstream_bytes_received =
        fold (hist_record BYTES_BOUNDS) (vals (\<lambda>h. map_option up_bytes_received (upstream_sum h)) hs)
          (empty_histogram N_BYTES_BUCKETS),
      ws_upstream_bytes_sent =
        fold (hist_record BYTES_BOUNDS) (vals (\<lambda>h. map_option up_bytes_sent (upstream_sum h)) hs)
          (empty_histogram N_BYTES_BUCKETS),
      ws_exemplar_reservoirs = [], ws_error_rate_counters = []\<rparr>"

definition slot_counters :: "WorkerSlots \<Rightarrow> WorkerSlots" where
  "slot_counters ws = ws\<lparr>ws_exemplar_reservoirs := [], ws_error_rate_counters := []\<rparr>"

lemma slot_counters_zeroed: "slot_counters zeroed_slots = slot_of amcf []"
  by (simp add: slot_counters_def zeroed_slots_def slot_of_def map_replicate_const)

lemma record_at_map:
  assumes "i < n"
  shows "record_at v i (map (\<lambda>k. fold exp_record (g k) empty_exp_slot) [0..<n]) =
    map (\<lambda>k. fold exp_record (g k @ (if i = k then [v] else [])) empty_exp_slot) [0..<n]"
  using assms by (intro nth_equalityI) (auto simp: record_at_def nth_list_update)

lemma opt_list_if: "opt_list (if P then Some v else None) = (if P then [v] else [])"
  by (simp add: opt_list_def)

definition tables_ok :: "log_conf \<Rightarrow> bool" where
  "tables_ok amcf \<longleftrightarrow> length (lg_routes amcf) \<le> ROUTE_CAP \<and> length (lg_upstreams amcf) \<le> UPSTREAM_CAP"

lemma table_idx_le: "length tbl \<le> other \<Longrightarrow> table_idx other tbl p \<le> other"
  by (fastforce simp: table_idx_def find_Some_iff split: option.split)

lemma route_idx_less: "tables_ok amcf \<Longrightarrow> rm_route_idx (read_request_meta r amcf) < N_ROUTE_SLOTS"
  using table_idx_le [of "lg_routes amcf" ROUTE_CAP]
  by (simp add: tables_ok_def read_request_meta_def route_idx_for_clcf_def N_ROUTE_SLOTS_def Let_def less_Suc_eq_le)

lemma base_idx_less: "rm_base_idx (read_request_meta r amcf) < N_COMBOS"
  by (simp add: read_request_meta_def Let_def combo_index_less)

lemma upstream_slot_less: "min u UPSTREAM_IDX_OTHER < N_UPSTREAM_SLOTS"
  by (simp add: UPSTREAM_IDX_OTHER_def N_UPSTREAM_SLOTS_def)

text \<open>\<open>record_slot\<close> as a sequence of stages, and each field of the slot after one more request.\<close>

definition stage_route :: "u64 \<Rightarrow> nat \<Rightarrow> WorkerSlots \<Rightarrow> WorkerSlots" where
  "stage_route d k ws = ws\<lparr>ws_route_duration_combos := record_at d k (ws_route_duration_combos ws)\<rparr>"

definition stage_upstream :: "u64 \<Rightarrow> nat option \<Rightarrow> WorkerSlots \<Rightarrow> WorkerSlots" where
  "stage_upstream d k ws =
     (case k of Some u \<Rightarrow> ws\<lparr>ws_upstream_duration_combos := record_at d u (ws_upstream_duration_combos ws)\<rparr> | None \<Rightarrow> ws)"

definition stage_sizes :: "u64 \<Rightarrow> u64 \<Rightarrow> WorkerSlots \<Rightarrow> WorkerSlots" where
  "stage_sizes req resp ws =
     ws\<lparr>ws_request_body_bytes := hist_record BYTES_BOUNDS req (ws_request_body_bytes ws),
        ws_response_body_bytes := hist_record BYTES_BOUNDS resp (ws_response_body_bytes ws)\<rparr>"

definition stage_sum :: "UpstreamSum option \<Rightarrow> WorkerSlots \<Rightarrow> WorkerSlots" where
  "stage_sum s ws = (case s of Some x \<Rightarrow> record_upstream_sum x ws | None \<Rightarrow> ws)"

definition upstream_slot :: "log_conf \<Rightarrow> 'cv log_request \<Rightarrow> nat option" where
  "upstream_slot amcf r =
     (if upstream_zone_ptr r \<noteq> 0
      then Some (min (upstream_idx_for_zone (lg_upstreams amcf) (upstream_zone_ptr r)) UPSTREAM_IDX_OTHER) else None)"

lemma record_slot_stages:
  "record_slot r amcf meta d ws =
     stage_sum (if rl_upstream r \<noteq> None then sum_upstream_states (rl_upstream_states r) else None)
       (stage_sizes (rl_request_length r) (rm_resp_bytes meta)
         (stage_upstream d (upstream_slot amcf r)
           (stage_route d (rm_route_idx meta) (record_base_combo (rm_status meta) (rm_base_idx meta) d ws))))"
proof -
  have upstream: "stage_upstream d (upstream_slot amcf r) ws =
      (if upstream_zone_ptr r \<noteq> 0 \<and> upstream_idx_for_zone (lg_upstreams amcf) (upstream_zone_ptr r) < UPSTREAM_IDX_OTHER
       then ws\<lparr>ws_upstream_duration_combos := record_at d (upstream_idx_for_zone (lg_upstreams amcf) (upstream_zone_ptr r))
              (ws_upstream_duration_combos ws)\<rparr>
       else if upstream_zone_ptr r \<noteq> 0
       then ws\<lparr>ws_upstream_duration_combos := record_at d UPSTREAM_IDX_OTHER (ws_upstream_duration_combos ws)\<rparr>
       else ws)" for ws
    by (simp add: stage_upstream_def upstream_slot_def min_def)
  show ?thesis
    unfolding upstream record_slot_def Let_def stage_sum_def stage_sizes_def stage_route_def by (rule refl)
qed

lemma record_base_combo_fields [simp]:
  "ws_request_duration_combos (record_base_combo st k d ws) = (if st \<noteq> 0 then record_at d k (ws_request_duration_combos ws) else ws_request_duration_combos ws)"
  "ws_route_duration_combos (record_base_combo st k d ws) = ws_route_duration_combos ws"
  "ws_upstream_duration_combos (record_base_combo st k d ws) = ws_upstream_duration_combos ws"
  "ws_request_body_bytes (record_base_combo st k d ws) = ws_request_body_bytes ws"
  "ws_response_body_bytes (record_base_combo st k d ws) = ws_response_body_bytes ws"
  "ws_upstream_response_ms (record_base_combo st k d ws) = ws_upstream_response_ms ws"
  "ws_upstream_header_ms (record_base_combo st k d ws) = ws_upstream_header_ms ws"
  "ws_upstream_connect_ms (record_base_combo st k d ws) = ws_upstream_connect_ms ws"
  "ws_upstream_bytes_received (record_base_combo st k d ws) = ws_upstream_bytes_received ws"
  "ws_upstream_bytes_sent (record_base_combo st k d ws) = ws_upstream_bytes_sent ws"
  by (simp_all add: record_base_combo_def)

lemma stage_route_fields [simp]:
  "ws_request_duration_combos (stage_route d k ws) = ws_request_duration_combos ws"
  "ws_route_duration_combos (stage_route d k ws) = record_at d k (ws_route_duration_combos ws)"
  "ws_upstream_duration_combos (stage_route d k ws) = ws_upstream_duration_combos ws"
  "ws_request_body_bytes (stage_route d k ws) = ws_request_body_bytes ws"
  "ws_response_body_bytes (stage_route d k ws) = ws_response_body_bytes ws"
  "ws_upstream_response_ms (stage_route d k ws) = ws_upstream_response_ms ws"
  "ws_upstream_header_ms (stage_route d k ws) = ws_upstream_header_ms ws"
  "ws_upstream_connect_ms (stage_route d k ws) = ws_upstream_connect_ms ws"
  "ws_upstream_bytes_received (stage_route d k ws) = ws_upstream_bytes_received ws"
  "ws_upstream_bytes_sent (stage_route d k ws) = ws_upstream_bytes_sent ws"
  by (simp_all add: stage_route_def)

lemma stage_upstream_fields [simp]:
  "ws_request_duration_combos (stage_upstream d u ws) = ws_request_duration_combos ws"
  "ws_route_duration_combos (stage_upstream d u ws) = ws_route_duration_combos ws"
  "ws_upstream_duration_combos (stage_upstream d u ws) = (case u of Some k \<Rightarrow> record_at d k (ws_upstream_duration_combos ws) | None \<Rightarrow> ws_upstream_duration_combos ws)"
  "ws_request_body_bytes (stage_upstream d u ws) = ws_request_body_bytes ws"
  "ws_response_body_bytes (stage_upstream d u ws) = ws_response_body_bytes ws"
  "ws_upstream_response_ms (stage_upstream d u ws) = ws_upstream_response_ms ws"
  "ws_upstream_header_ms (stage_upstream d u ws) = ws_upstream_header_ms ws"
  "ws_upstream_connect_ms (stage_upstream d u ws) = ws_upstream_connect_ms ws"
  "ws_upstream_bytes_received (stage_upstream d u ws) = ws_upstream_bytes_received ws"
  "ws_upstream_bytes_sent (stage_upstream d u ws) = ws_upstream_bytes_sent ws"
  by (simp_all add: stage_upstream_def split: option.split)

lemma stage_sizes_fields [simp]:
  "ws_request_duration_combos (stage_sizes req resp ws) = ws_request_duration_combos ws"
  "ws_route_duration_combos (stage_sizes req resp ws) = ws_route_duration_combos ws"
  "ws_upstream_duration_combos (stage_sizes req resp ws) = ws_upstream_duration_combos ws"
  "ws_request_body_bytes (stage_sizes req resp ws) = hist_record BYTES_BOUNDS req (ws_request_body_bytes ws)"
  "ws_response_body_bytes (stage_sizes req resp ws) = hist_record BYTES_BOUNDS resp (ws_response_body_bytes ws)"
  "ws_upstream_response_ms (stage_sizes req resp ws) = ws_upstream_response_ms ws"
  "ws_upstream_header_ms (stage_sizes req resp ws) = ws_upstream_header_ms ws"
  "ws_upstream_connect_ms (stage_sizes req resp ws) = ws_upstream_connect_ms ws"
  "ws_upstream_bytes_received (stage_sizes req resp ws) = ws_upstream_bytes_received ws"
  "ws_upstream_bytes_sent (stage_sizes req resp ws) = ws_upstream_bytes_sent ws"
  by (simp_all add: stage_sizes_def)

lemma stage_sum_fields [simp]:
  "ws_request_duration_combos (stage_sum s ws) = ws_request_duration_combos ws"
  "ws_route_duration_combos (stage_sum s ws) = ws_route_duration_combos ws"
  "ws_upstream_duration_combos (stage_sum s ws) = ws_upstream_duration_combos ws"
  "ws_request_body_bytes (stage_sum s ws) = ws_request_body_bytes ws"
  "ws_response_body_bytes (stage_sum s ws) = ws_response_body_bytes ws"
  "ws_upstream_response_ms (stage_sum s ws) = record_opt DURATION_BOUNDS_MS (Option.bind s up_response_ms) (ws_upstream_response_ms ws)"
  "ws_upstream_header_ms (stage_sum s ws) = record_opt DURATION_BOUNDS_MS (Option.bind s up_header_ms) (ws_upstream_header_ms ws)"
  "ws_upstream_connect_ms (stage_sum s ws) = record_opt DURATION_BOUNDS_MS (Option.bind s up_connect_ms) (ws_upstream_connect_ms ws)"
  "ws_upstream_bytes_received (stage_sum s ws) = record_opt BYTES_BOUNDS (map_option up_bytes_received s) (ws_upstream_bytes_received ws)"
  "ws_upstream_bytes_sent (stage_sum s ws) = record_opt BYTES_BOUNDS (map_option up_bytes_sent s) (ws_upstream_bytes_sent ws)"
  by (simp_all add: stage_sum_def record_upstream_sum_def record_opt_def split: option.split)

lemma record_opt_fold:
  "record_opt bounds v (fold (hist_record bounds) vs h) = fold (hist_record bounds) (vs @ opt_list v) h"
  by (simp add: record_opt_def opt_list_def split: option.split)

lemma upstream_slot_value:
  "upstream_value amcf k (w, env, r) = (if upstream_slot amcf r = Some k then Some (req_duration env r) else None)"
  by (simp add: upstream_value_def upstream_slot_def)

lemma slot_counters_eqI:
  assumes "ws_request_duration_combos ws = ws_request_duration_combos (slot_of amcf hs)"
    "ws_route_duration_combos ws = ws_route_duration_combos (slot_of amcf hs)"
    "ws_upstream_duration_combos ws = ws_upstream_duration_combos (slot_of amcf hs)"
    "ws_request_body_bytes ws = ws_request_body_bytes (slot_of amcf hs)"
    "ws_response_body_bytes ws = ws_response_body_bytes (slot_of amcf hs)"
    "ws_upstream_response_ms ws = ws_upstream_response_ms (slot_of amcf hs)"
    "ws_upstream_header_ms ws = ws_upstream_header_ms (slot_of amcf hs)"
    "ws_upstream_connect_ms ws = ws_upstream_connect_ms (slot_of amcf hs)"
    "ws_upstream_bytes_received ws = ws_upstream_bytes_received (slot_of amcf hs)"
    "ws_upstream_bytes_sent ws = ws_upstream_bytes_sent (slot_of amcf hs)"
  shows "slot_counters ws = slot_of amcf hs"
  using assms by (intro WorkerSlots.equality) (simp_all add: slot_counters_def, simp_all add: slot_of_def)

lemma slot_of_snoc:
  fixes h :: "'cv handled_request"
  assumes "tables_ok amcf" "slot_counters ws = slot_of amcf hs" "h = (w, env, r)"
  shows "slot_counters (record_slot r amcf (read_request_meta r amcf) (req_duration env r) ws) = slot_of amcf (hs @ [h])"
proof -
  let ?meta = "read_request_meta r amcf" and ?d = "req_duration env r"
  have f: "ws_request_duration_combos ws = ws_request_duration_combos (slot_of amcf hs)"
    "ws_route_duration_combos ws = ws_route_duration_combos (slot_of amcf hs)"
    "ws_upstream_duration_combos ws = ws_upstream_duration_combos (slot_of amcf hs)"
    "ws_request_body_bytes ws = ws_request_body_bytes (slot_of amcf hs)"
    "ws_response_body_bytes ws = ws_response_body_bytes (slot_of amcf hs)"
    "ws_upstream_response_ms ws = ws_upstream_response_ms (slot_of amcf hs)"
    "ws_upstream_header_ms ws = ws_upstream_header_ms (slot_of amcf hs)"
    "ws_upstream_connect_ms ws = ws_upstream_connect_ms (slot_of amcf hs)"
    "ws_upstream_bytes_received ws = ws_upstream_bytes_received (slot_of amcf hs)"
    "ws_upstream_bytes_sent ws = ws_upstream_bytes_sent (slot_of amcf hs)"
    by (simp_all add: assms(2) [symmetric] slot_counters_def)
  have combos: "(if rm_status ?meta \<noteq> 0 then record_at ?d (rm_base_idx ?meta) (ws_request_duration_combos (slot_of amcf hs))
      else ws_request_duration_combos (slot_of amcf hs)) = ws_request_duration_combos (slot_of amcf (hs @ [h]))"
    using record_at_map [OF base_idx_less, of ?d r amcf "\<lambda>k. vals (combo_value amcf k) hs"]
    by (simp add: slot_of_def combo_value_def Let_def opt_list_if assms(3))
  have routes: "record_at ?d (rm_route_idx ?meta) (ws_route_duration_combos (slot_of amcf hs)) =
      ws_route_duration_combos (slot_of amcf (hs @ [h]))"
    using record_at_map [OF route_idx_less [OF assms(1)], of ?d r "\<lambda>k. vals (route_value amcf k) hs"]
    by (simp add: slot_of_def route_value_def opt_list_if assms(3))
  have upstreams: "(case upstream_slot amcf r of Some k \<Rightarrow> record_at ?d k (ws_upstream_duration_combos (slot_of amcf hs))
      | None \<Rightarrow> ws_upstream_duration_combos (slot_of amcf hs)) = ws_upstream_duration_combos (slot_of amcf (hs @ [h]))"
    using record_at_map [of _ N_UPSTREAM_SLOTS ?d "\<lambda>k. vals (upstream_value amcf k) hs"] upstream_slot_less
    by (auto simp: slot_of_def upstream_slot_value opt_list_if assms(3) upstream_slot_def split: if_splits)
  have "upstream_sum h = (if rl_upstream r \<noteq> None then sum_upstream_states (rl_upstream_states r) else None)"
    by (simp add: upstream_sum_def assms(3))
  note sum = this [symmetric]
  note stages = record_slot_stages sum record_base_combo_fields stage_route_fields stage_upstream_fields stage_sizes_fields stage_sum_fields f
  show ?thesis
  proof (rule slot_counters_eqI)
    show "ws_request_duration_combos (record_slot r amcf ?meta ?d ws) = ws_request_duration_combos (slot_of amcf (hs @ [h]))"
      unfolding stages by (rule combos)
    show "ws_route_duration_combos (record_slot r amcf ?meta ?d ws) = ws_route_duration_combos (slot_of amcf (hs @ [h]))"
      unfolding stages by (rule routes)
    show "ws_upstream_duration_combos (record_slot r amcf ?meta ?d ws) = ws_upstream_duration_combos (slot_of amcf (hs @ [h]))"
      unfolding stages by (rule upstreams)
  qed (unfold stages, simp_all add: slot_of_def record_opt_fold, simp_all add: opt_list_def assms(3))
qed

end
