(* ===== verification/Metric_History.thy ===== *)
theory Metric_History
  imports Metric_Totals
begin

text \<open>
  Histories of handled requests and metric collections over one metrics zone, and the batch's shape. The
  exporter reads the slots while the workers go on recording; each collection reports the totals of all
  requests handled before it.
\<close>

section \<open>Histories\<close>

fun run_metrics ::
  "log_conf \<Rightarrow> instrumented_source \<Rightarrow> worker_world \<Rightarrow> 'cv traffic list \<Rightarrow> (Metric list list \<times> worker_world) outcome" where
  "run_metrics amcf src w [] = Value ([], w)"
| "run_metrics amcf src w (Handle i env r # ops) =
     and_then (log_phase_handler env (Some amcf) i r w) (\<lambda>w1. run_metrics amcf src w1 ops)"
| "run_metrics amcf src w (Export now # ops) =
     (let (ms, slots) = instrumented_collect src now (the (ww_metrics w))
      in and_then (run_metrics amcf src (w\<lparr>ww_metrics := Some slots\<rparr>) ops) (\<lambda>(outs, w2). Value (ms # outs, w2)))"

text \<open>The collections of a history, each with the requests handled before it.\<close>

fun collections :: "'cv handled_request list \<Rightarrow> 'cv traffic list \<Rightarrow> (u64 \<times> 'cv handled_request list) list" where
  "collections hs [] = []"
| "collections hs (Handle i env r # ops) = collections (hs @ [(i, env, r)]) ops"
| "collections hs (Export now # ops) = (now, hs) # collections hs ops"

text \<open>The totals of a list of requests, with no worker in sight.\<close>

definition reference_agg :: "log_conf \<Rightarrow> 'cv handled_request list \<Rightarrow> WorkerAgg" where
  "reference_agg amcf hs =
     \<lparr>wa_combo = map (\<lambda>k. exp_totals (vals (combo_value amcf k) hs)) [0..<N_COMBOS],
      wa_route = map (\<lambda>k. exp_totals (vals (route_value amcf k) hs)) [0..<N_ROUTE_SLOTS],
      wa_upstream = map (\<lambda>k. exp_totals (vals (upstream_value amcf k) hs)) [0..<N_UPSTREAM_SLOTS],
      wa_req_bytes = hist_totals BYTES_BOUNDS (vals (\<lambda>(_, _, r). Some (rl_request_length r)) hs),
      wa_resp_bytes = hist_totals BYTES_BOUNDS (vals (\<lambda>(_, _, r). Some (rm_resp_bytes (read_request_meta r amcf))) hs),
      wa_up_resp = hist_totals DURATION_BOUNDS_MS (vals (\<lambda>h. Option.bind (upstream_sum h) up_response_ms) hs),
      wa_up_hdr = hist_totals DURATION_BOUNDS_MS (vals (\<lambda>h. Option.bind (upstream_sum h) up_header_ms) hs),
      wa_up_conn = hist_totals DURATION_BOUNDS_MS (vals (\<lambda>h. Option.bind (upstream_sum h) up_connect_ms) hs),
      wa_up_bytes = hist_totals BYTES_BOUNDS (vals (\<lambda>h. map_option up_bytes_received (upstream_sum h)) hs),
      wa_up_bytes_sent = hist_totals BYTES_BOUNDS (vals (\<lambda>h. map_option up_bytes_sent (upstream_sum h)) hs)\<rparr>"

section \<open>Summing the workers\<close>

lemma add_slot_counters: "add_slot (slot_counters ws) = add_slot ws"
  by (rule ext) (simp add: add_slot_def slot_counters_def)

lemma fold_add_exps:
  assumes "k < n"
  shows "length aggs = n \<Longrightarrow> fold (\<lambda>ws. add_exps n (f ws)) slots aggs ! k =
    fold (\<lambda>s acc. add_exp acc s) (map (\<lambda>ws. exp_snapshot (f ws ! k)) slots) (aggs ! k)"
  using assms by (induction slots arbitrary: aggs) (simp_all add: add_exps_def)

lemma length_fold_add_exps: "length aggs = n \<Longrightarrow> length (fold (\<lambda>ws. add_exps n (f ws)) slots aggs) = n"
  by (induction slots arbitrary: aggs) (simp_all add: add_exps_def)

lemma fold_add_slot_fields:
  "wa_combo (fold add_slot slots agg) = fold (\<lambda>ws. add_exps N_COMBOS (ws_request_duration_combos ws)) slots (wa_combo agg)"
  "wa_route (fold add_slot slots agg) = fold (\<lambda>ws. add_exps N_ROUTE_SLOTS (ws_route_duration_combos ws)) slots (wa_route agg)"
  "wa_upstream (fold add_slot slots agg) =
     fold (\<lambda>ws. add_exps N_UPSTREAM_SLOTS (ws_upstream_duration_combos ws)) slots (wa_upstream agg)"
  "wa_req_bytes (fold add_slot slots agg) =
     fold (\<lambda>s acc. add_histogram acc s) (map (\<lambda>ws. hist_snapshot (ws_request_body_bytes ws)) slots) (wa_req_bytes agg)"
  "wa_resp_bytes (fold add_slot slots agg) =
     fold (\<lambda>s acc. add_histogram acc s) (map (\<lambda>ws. hist_snapshot (ws_response_body_bytes ws)) slots) (wa_resp_bytes agg)"
  "wa_up_resp (fold add_slot slots agg) =
     fold (\<lambda>s acc. add_histogram acc s) (map (\<lambda>ws. hist_snapshot (ws_upstream_response_ms ws)) slots) (wa_up_resp agg)"
  "wa_up_hdr (fold add_slot slots agg) =
     fold (\<lambda>s acc. add_histogram acc s) (map (\<lambda>ws. hist_snapshot (ws_upstream_header_ms ws)) slots) (wa_up_hdr agg)"
  "wa_up_conn (fold add_slot slots agg) =
     fold (\<lambda>s acc. add_histogram acc s) (map (\<lambda>ws. hist_snapshot (ws_upstream_connect_ms ws)) slots) (wa_up_conn agg)"
  "wa_up_bytes (fold add_slot slots agg) =
     fold (\<lambda>s acc. add_histogram acc s) (map (\<lambda>ws. hist_snapshot (ws_upstream_bytes_received ws)) slots) (wa_up_bytes agg)"
  "wa_up_bytes_sent (fold add_slot slots agg) =
     fold (\<lambda>s acc. add_histogram acc s) (map (\<lambda>ws. hist_snapshot (ws_upstream_bytes_sent ws)) slots) (wa_up_bytes_sent agg)"
  by (induction slots arbitrary: agg) (simp_all add: add_slot_def)

lemma exps_by_worker:
  assumes "\<forall>h\<in>set hs. fst h < n"
    and "\<And>i. f (s i) = map (\<lambda>k. fold exp_record (vals (g k) (filter (\<lambda>h. fst h = i) hs)) empty_exp_slot) [0..<m]"
  shows "fold (\<lambda>ws. add_exps m (f ws)) (map s [0..<n]) (replicate m zero_exp) = map (\<lambda>k. exp_totals (vals (g k) hs)) [0..<m]"
proof (rule nth_equalityI)
  fix k assume "k < length (fold (\<lambda>ws. add_exps m (f ws)) (map s [0..<n]) (replicate m zero_exp))"
  then have k: "k < m"
    by (simp add: length_fold_add_exps)
  have "map (\<lambda>ws. exp_snapshot (f ws ! k)) (map s [0..<n]) =
      map (\<lambda>i. exp_totals (vals (g k) (filter (\<lambda>h. fst h = i) hs))) [0..<n]"
    using k by (simp add: assms(2) exp_slot_totals)
  with fold_add_exps [OF k, of "replicate m zero_exp" f "map s [0..<n]"] k
  show "fold (\<lambda>ws. add_exps m (f ws)) (map s [0..<n]) (replicate m zero_exp) ! k =
      map (\<lambda>k. exp_totals (vals (g k) hs)) [0..<m] ! k"
    using exp_summary.totals_by_worker [OF assms(1), of "g k"] by (simp del: map_map)
qed (simp add: length_fold_add_exps)

lemma hists_by_worker:
  assumes "\<forall>h\<in>set hs. fst h < n" "m = Suc (length bounds)"
    and "\<And>i. f (s i) = fold (hist_record bounds) (vals g (filter (\<lambda>h. fst h = i) hs)) (empty_histogram m)"
  shows "fold (\<lambda>s acc. add_histogram acc s) (map (\<lambda>ws. hist_snapshot (f ws)) (map s [0..<n])) (zero_hist m) =
    hist_totals bounds (vals g hs)"
  using hist_summary.totals_by_worker [OF assms(1), of bounds g]
  unfolding map_map comp_def assms(3) by (simp add: hist_slot_totals [OF refl] assms(2))

lemma bucket_numbers: "N_BYTES_BUCKETS = Suc (length BYTES_BOUNDS)" "N_DURATION_BUCKETS = Suc (length DURATION_BOUNDS_MS)"
  by (simp_all add: N_BYTES_BUCKETS_def BYTES_BOUNDS_def N_DURATION_BUCKETS_def DURATION_BOUNDS_MS_def)

lemma aggregate_reference:
  assumes "\<forall>h\<in>set hs. fst h < n"
    and "map slot_counters slots = map (\<lambda>i. slot_of amcf (filter (\<lambda>h. fst h = i) hs)) [0..<n]"
  shows "fold add_slot slots zero_agg = reference_agg amcf hs"
proof -
  let ?s = "\<lambda>i. slot_of amcf (filter (\<lambda>h. fst h = i) hs)"
  have "fold add_slot slots zero_agg = fold add_slot (map slot_counters slots) zero_agg"
    by (simp add: fold_map comp_def add_slot_counters)
  also have "\<dots> = fold add_slot (map ?s [0..<n]) zero_agg"
    by (simp only: assms(2))
  also have "\<dots> = reference_agg amcf hs"
  proof (rule WorkerAgg.equality, unfold fold_add_slot_fields zero_agg_def reference_agg_def WorkerAgg.select_convs)
  qed ((rule exps_by_worker [OF assms(1)] hists_by_worker [OF assms(1) bucket_numbers(1)]
      hists_by_worker [OF assms(1) bucket_numbers(2)]; simp add: slot_of_def)+, simp)
  finally show ?thesis .
qed

section \<open>One request, one collection\<close>

lemma emit_access_log_metrics:
  "maybe_emit_access_log env i req sel w = Value w' \<Longrightarrow> ww_metrics w' = ww_metrics w"
  by (auto simp: maybe_emit_access_log_def and_then_Value Let_def split: if_splits option.splits)

lemma maybe_emit_span_metrics:
  assumes "maybe_emit_span env r amcf i meta ctx d detail w = Value w'" "ww_metrics w = Some slots" "i < length slots"
  shows "\<exists>rv. ww_metrics w' = Some (slots[i := (slots ! i)\<lparr>ws_exemplar_reservoirs := rv\<rparr>])"
proof (cases "sampled_ctx ctx")
  case None
  then have "w' = w"
    using assms(1) by (simp add: maybe_emit_span_def)
  then show ?thesis
    using assms(2) by (intro exI [of _ "ws_exemplar_reservoirs (slots ! i)"]) simp
next
  case (Some c)
  then obtain w1 where w1: "write_exemplar i (rm_base_idx meta) (exemplar_request r meta c d) w = Value w1"
    "emit_span env i (span_record_of env r amcf meta c d detail) w1 = Value w'"
    using assms(1) by (auto simp: maybe_emit_span_def and_then_Value)
  then show ?thesis
    using emit_span_metrics [OF w1(2)] assms(2) by (auto simp: write_exemplar_def and_then_Value Let_def)
qed

lemma handler_metrics:
  assumes "log_phase_handler env (Some amcf) i r w = Value w'" "ww_metrics w = Some slots" "i < length slots"
    and "i < worker_capacity (lg_slab amcf) (lg_log_cap amcf) (lg_zones amcf)"
  shows "\<exists>rv. ww_metrics w' = Some (slots[i :=
    (record_slot r amcf (read_request_meta r amcf) (req_duration env r) (slots ! i))\<lparr>ws_exemplar_reservoirs := rv\<rparr>])"
proof -
  let ?ws = "record_slot r amcf (read_request_meta r amcf) (req_duration env r) (slots ! i)"
  let ?w1 = "record_request_metrics r amcf i (read_request_meta r amcf) (req_duration env r) w"
  have w1: "ww_metrics ?w1 = Some (slots[i := ?ws])"
    using assms(2) by (simp add: record_request_metrics_def)
  have "and_then (maybe_emit_access_log env i (access_of env amcf r) (check_export_selected env r amcf) ?w1)
      (maybe_emit_span env r amcf i (read_request_meta r amcf) (read_span_ctx r) (req_duration env r)
        (request_detail env r amcf)) = Value w'"
    using assms(1,4) by (simp add: log_phase_handler_def access_of_def request_detail_def req_duration_def Let_def)
  then obtain w2 where w2:
    "maybe_emit_access_log env i (access_of env amcf r) (check_export_selected env r amcf) ?w1 = Value w2"
    "maybe_emit_span env r amcf i (read_request_meta r amcf) (read_span_ctx r) (req_duration env r)
      (request_detail env r amcf) w2 = Value w'"
    unfolding and_then_Value by blast
  show ?thesis
    using maybe_emit_span_metrics [OF w2(2), of "slots[i := ?ws]"] emit_access_log_metrics [OF w2(1)] w1 assms(3)
    by simp
qed

definition zone_holds :: "log_conf \<Rightarrow> nat \<Rightarrow> 'cv handled_request list \<Rightarrow> worker_world \<Rightarrow> bool" where
  "zone_holds amcf n hs w \<longleftrightarrow>
     (\<forall>h\<in>set hs. fst h < n) \<and>
     (\<exists>slots. ww_metrics w = Some slots \<and>
        map slot_counters slots = map (\<lambda>i. slot_of amcf (filter (\<lambda>h. fst h = i) hs)) [0..<n])"

lemma handler_zone_holds:
  assumes "log_phase_handler env (Some amcf) i r w = Value w'" "zone_holds amcf n hs w" "tables_ok amcf"
    and "i < n" "n \<le> worker_capacity (lg_slab amcf) (lg_log_cap amcf) (lg_zones amcf)"
  shows "zone_holds amcf n (hs @ [(i, env, r)]) w'"
proof -
  obtain slots where slots: "ww_metrics w = Some slots"
    "map slot_counters slots = map (\<lambda>i. slot_of amcf (filter (\<lambda>h. fst h = i) hs)) [0..<n]" "\<forall>h\<in>set hs. fst h < n"
    using assms(2) by (auto simp: zone_holds_def)
  have len: "length slots = n"
    using arg_cong [OF slots(2), of length] by simp
  have at: "slot_counters (slots ! j) = slot_of amcf (filter (\<lambda>h. fst h = j) hs)" if "j < n" for j
    using arg_cong [OF slots(2), of "\<lambda>xs. xs ! j"] that len by simp
  obtain rv where w': "ww_metrics w' = Some (slots[i :=
      (record_slot r amcf (read_request_meta r amcf) (req_duration env r) (slots ! i))\<lparr>ws_exemplar_reservoirs := rv\<rparr>])"
    using handler_metrics [OF assms(1) slots(1), unfolded len, OF assms(4)] assms(4,5) by fastforce
  let ?new = "record_slot r amcf (read_request_meta r amcf) (req_duration env r) (slots ! i)"
  have new: "slot_counters (?new\<lparr>ws_exemplar_reservoirs := rv\<rparr>) = slot_of amcf (filter (\<lambda>h. fst h = i) hs @ [(i, env, r)])"
    using slot_of_snoc [OF assms(3) at [OF assms(4)], of "(i, env, r)" i env r] by (simp add: slot_counters_def)
  have "map slot_counters (slots[i := ?new\<lparr>ws_exemplar_reservoirs := rv\<rparr>]) =
      map (\<lambda>j. slot_of amcf (filter (\<lambda>h. fst h = j) (hs @ [(i, env, r)]))) [0..<n]"
  proof (rule nth_equalityI)
    fix j assume "j < length (map slot_counters (slots[i := ?new\<lparr>ws_exemplar_reservoirs := rv\<rparr>]))"
    then have j: "j < n" "j < length slots"
      using len by simp_all
    show "map slot_counters (slots[i := ?new\<lparr>ws_exemplar_reservoirs := rv\<rparr>]) ! j =
        map (\<lambda>j. slot_of amcf (filter (\<lambda>h. fst h = j) (hs @ [(i, env, r)]))) [0..<n] ! j"
      using j new at [OF j(1)] by (cases "j = i") simp_all
  qed (simp add: len)
  moreover have "\<forall>h\<in>set (hs @ [(i, env, r)]). fst h < n"
    using slots(3) assms(4) by simp
  ultimately show ?thesis
    unfolding zone_holds_def using w' by blast
qed

lemma reset_reservoirs_ok: "reservoirs_ok k ws \<Longrightarrow> reservoirs_ok k (reset_reservoirs ws)"
  by (fastforce simp: reservoirs_ok_def reset_reservoirs_def reservoir_reset_def)

lemma collect_zone:
  assumes "zone_holds amcf n hs w" "metrics_ok n k w"
  obtains exs slots where "instrumented_collect src now (the (ww_metrics w)) = (build_metrics src now (reference_agg amcf hs) exs, slots)"
    "zone_holds amcf n hs (w\<lparr>ww_metrics := Some slots\<rparr>)" "metrics_ok n k (w\<lparr>ww_metrics := Some slots\<rparr>)"
proof -
  obtain slots where slots: "ww_metrics w = Some slots"
    "map slot_counters slots = map (\<lambda>i. slot_of amcf (filter (\<lambda>h. fst h = i) hs)) [0..<n]" "\<forall>h\<in>set hs. fst h < n"
    using assms(1) by (auto simp: zone_holds_def)
  have "instrumented_collect src now (the (ww_metrics w)) =
      (build_metrics src now (reference_agg amcf hs) (concat (map slot_exemplars slots)), map reset_reservoirs slots)"
    using aggregate_reference [OF slots(3,2)] slots(1) by (simp add: instrumented_collect_def aggregate_worker_slots_def)
  moreover have "slot_counters (reset_reservoirs ws) = slot_counters ws" for ws
    by (simp add: slot_counters_def reset_reservoirs_def)
  then have "map slot_counters (map reset_reservoirs slots) = map slot_counters slots"
    by simp
  then have "zone_holds amcf n hs (w\<lparr>ww_metrics := Some (map reset_reservoirs slots)\<rparr>)"
    using slots unfolding zone_holds_def by simp
  moreover have "metrics_ok n k (w\<lparr>ww_metrics := Some (map reset_reservoirs slots)\<rparr>)"
    using assms(2) slots(1) by (simp add: metrics_ok_def reset_reservoirs_ok)
  ultimately show ?thesis
    by (rule that)
qed

definition reports_requests ::
  "log_conf \<Rightarrow> instrumented_source \<Rightarrow> Metric list \<Rightarrow> u64 \<times> 'cv handled_request list \<Rightarrow> bool" where
  "reports_requests amcf src ms c = (\<exists>exs. ms = build_metrics src (fst c) (reference_agg amcf (snd c)) exs)"

lemma run_metrics_holds:
  assumes "tables_ok amcf" "n \<le> worker_capacity (lg_slab amcf) (lg_log_cap amcf) (lg_zones amcf)"
    and "zone_holds amcf n hs w" "metrics_ok n (handled ops) w" "\<forall>op\<in>set ops. valid_traffic n op"
  shows "\<exists>outs w'. run_metrics amcf src w ops = Value (outs, w') \<and>
    list_all2 (reports_requests amcf src) outs (collections hs ops)"
  using assms(3-)
proof (induction ops arbitrary: w hs)
  case (Cons op ops)
  show ?case
  proof (cases op)
    case (Handle i env r)
    then have i: "i < n" "ctx_ids_ok r" "metrics_ok n (Suc (handled ops)) w"
      using Cons.prems by simp_all
    obtain w1 where w1: "log_phase_handler env (Some amcf) i r w = Value w1" "metrics_ok n (handled ops) w1"
      using handler_effect [OF i(3,1,2) assms(2), of env] by blast
    have "zone_holds amcf n (hs @ [(i, env, r)]) w1"
      by (rule handler_zone_holds [OF w1(1) Cons.prems(1) assms(1) i(1) assms(2)])
    from Cons.IH [OF this w1(2)] Cons.prems(3) w1(1) Handle show ?thesis
      by simp
  next
    case (Export now)
    then have m: "metrics_ok n (handled ops) w"
      using Cons.prems(2) by simp
    obtain exs slots where c: "instrumented_collect src now (the (ww_metrics w)) =
        (build_metrics src now (reference_agg amcf hs) exs, slots)"
      "zone_holds amcf n hs (w\<lparr>ww_metrics := Some slots\<rparr>)" "metrics_ok n (handled ops) (w\<lparr>ww_metrics := Some slots\<rparr>)"
      by (rule collect_zone [OF Cons.prems(1) m, of src now])
    have "reports_requests amcf src (build_metrics src now (reference_agg amcf hs) exs) (now, hs)"
      by (auto simp: reports_requests_def)
    with Cons.IH [OF c(2,3)] Cons.prems(3) c(1) Export show ?thesis
      by auto
  qed
qed simp

lemma fresh_zone_holds:
  assumes "ww_metrics w = Some (replicate n zeroed_slots)"
  shows "zone_holds amcf n [] w" "k < 2 ^ 64 \<Longrightarrow> metrics_ok n k w"
proof -
  show "zone_holds amcf n [] w"
    using assms by (simp add: zone_holds_def slot_counters_zeroed [of amcf] map_replicate_const)
  have "reservoirs_ok k zeroed_slots" if "k < 2 ^ 64"
    using that by (simp add: reservoirs_ok_def zeroed_slots_def zeroed_reservoir_def)
  then show "k < 2 ^ 64 \<Longrightarrow> metrics_ok n k w"
    using assms by (simp add: metrics_ok_def)
qed

lemma first_seen_length: "length (first_seen n seen ls) \<le> n"
  by (induction n seen ls rule: first_seen.induct) (auto split: if_splits nat.splits)

section \<open>Properties\<close>

text \<open>
  C7. The exported request metrics are exact: from a zeroed zone, in any interleaving of requests handled
  by the workers and collections by the exporter, no step panics and every collection is the one built
  from the totals of all requests handled before it (counts, sums, bucket counts, per method, status class
  and protocol, per route and per upstream), whatever worker handled each; collecting twice loses
  nothing. Only the exemplars depend on the reservoirs.
\<close>

theorem exported_metrics_exact:
  assumes "ww_metrics w = Some (replicate n zeroed_slots)" "handled ops < 2 ^ 64"
    and "n \<le> worker_capacity (lg_slab amcf) (lg_log_cap amcf) (lg_zones amcf)"
    and "lg_routes amcf = build_route_table servers" "lg_upstreams amcf = build_upstream_table upstreams"
    and "\<forall>op\<in>set ops. valid_traffic n op"
  shows "\<exists>outs w'. run_metrics amcf src w ops = Value (outs, w') \<and>
    list_all2 (\<lambda>ms (now, hs). \<exists>exs. ms = build_metrics src now (reference_agg amcf hs) exs) outs (collections [] ops)"
proof -
  have "tables_ok amcf"
    using first_seen_length by (simp add: tables_ok_def assms(4,5) build_route_table_first_seen build_upstream_table_def
        register_upstreams_first_seen)
  from run_metrics_holds [OF this assms(3) fresh_zone_holds(1) [OF assms(1)] fresh_zone_holds(2) [OF assms(1,2)] assms(6), of src]
  have "\<exists>outs w'. run_metrics amcf src w ops = Value (outs, w') \<and>
      list_all2 (reports_requests amcf src) outs (collections [] ops)" .
  moreover have "reports_requests amcf src =
      (\<lambda>ms (now, hs :: 'a handled_request list). \<exists>exs. ms = build_metrics src now (reference_agg amcf hs) exs)"
    by (intro ext) (simp add: reports_requests_def case_prod_beta)
  ultimately show ?thesis
    by simp
qed

theorem exported_metrics_exact_witness:
  "\<exists>exs w'. run_metrics demo_log_conf \<lparr>is_start = 1, is_status_code_class = True, is_conf = Some demo_log_conf\<rparr>
       (demo_worker_world\<lparr>ww_metrics := Some [zeroed_slots]\<rparr>) [Handle 0 demo_log_env demo_log_request, Export 9] =
     Value ([build_metrics \<lparr>is_start = 1, is_status_code_class = True, is_conf = Some demo_log_conf\<rparr> 9
               (reference_agg demo_log_conf [(0, demo_log_env, demo_log_request)]) exs], w')"
proof -
  let ?w = "demo_worker_world\<lparr>ww_metrics := Some [zeroed_slots]\<rparr>"
  let ?ops = "[Handle 0 demo_log_env demo_log_request, Export 9]"
  let ?src = "\<lparr>is_start = 1, is_status_code_class = True, is_conf = Some demo_log_conf\<rparr>"
  have "ww_metrics ?w = Some (replicate 1 zeroed_slots)" "handled ?ops < 2 ^ 64"
    "lg_routes demo_log_conf = build_route_table []" "lg_upstreams demo_log_conf = build_upstream_table []"
    "\<forall>op\<in>set ?ops. valid_traffic 1 op"
    by (simp_all add: demo_log_conf_def build_route_table_def build_upstream_table_def demo_ids)
  note run = exported_metrics_exact [OF this(1,2) demo_capacity this(3-5), of ?src]
  have "collections [] ?ops = [(9, [(0, demo_log_env, demo_log_request)])]"
    by simp
  with run show ?thesis
    unfolding list_all2_Cons2 list.rel_inject(1) by (auto simp: list_all2_Cons2)
qed

end
