(* ===== verification/Otlp_Proto.thy ===== *)
theory Otlp_Proto
  imports Otel_Data_Model
begin

text \<open>
  The OTLP messages of \<^verbatim>\<open>src/proto/opentelemetry/proto\<close> that the encoders of
  \<^verbatim>\<open>src/src/encoder/mod.rs\<close> fill in, in the shape the protobuf compiler gives them: a message field
  is an option, a repeated field a list, an enumeration an \<open>i32\<close>. \<open>Summary\<close>, which no source
  produces, is left out of \<open>oneof data\<close>.
\<close>

section \<open>Common and resource messages\<close>

datatype p_any_value = P_AnyValue "p_value option"
  and p_value =
    P_StringValue rust_string
  | P_BoolValue bool
  | P_IntValue i64
  | P_DoubleValue f64
  | P_ArrayValue "p_any_value list"
  | P_KvlistValue "p_key_value list"
  | P_BytesValue bytes
  and p_key_value = P_KeyValue (p_key: rust_string) (p_val: "p_any_value option")

record p_scope =
  psc_name :: rust_string
  psc_version :: rust_string
  psc_attributes :: "p_key_value list"
  psc_dropped_attributes_count :: u32

record p_resource =
  pr_attributes :: "p_key_value list"
  pr_dropped_attributes_count :: u32

section \<open>Metrics messages\<close>

datatype p_number = P_AsDouble f64 | P_AsInt i64

record p_exemplar =
  pe_filtered_attributes :: "p_key_value list"
  pe_time_unix_nano :: u64
  pe_value :: "p_number option"
  pe_span_id :: bytes
  pe_trace_id :: bytes

record p_number_data_point =
  pn_attributes :: "p_key_value list"
  pn_start_time_unix_nano :: u64
  pn_time_unix_nano :: u64
  pn_value :: "p_number option"
  pn_exemplars :: "p_exemplar list"
  pn_flags :: u32

record p_histogram_data_point =
  ph_attributes :: "p_key_value list"
  ph_start_time_unix_nano :: u64
  ph_time_unix_nano :: u64
  ph_count :: u64
  ph_sum :: "f64 option"
  ph_bucket_counts :: "u64 list"
  ph_explicit_bounds :: "f64 list"
  ph_exemplars :: "p_exemplar list"
  ph_flags :: u32
  ph_min :: "f64 option"
  ph_max :: "f64 option"

record p_buckets =
  pb_offset :: int
  pb_bucket_counts :: "u64 list"

record p_exp_data_point =
  px_attributes :: "p_key_value list"
  px_start_time_unix_nano :: u64
  px_time_unix_nano :: u64
  px_count :: u64
  px_sum :: "f64 option"
  px_scale :: int
  px_zero_count :: u64
  px_positive :: "p_buckets option"
  px_negative :: "p_buckets option"
  px_flags :: u32
  px_exemplars :: "p_exemplar list"
  px_min :: "f64 option"
  px_max :: "f64 option"
  px_zero_threshold :: f64

datatype p_data =
    P_Gauge "p_number_data_point list"
  | P_Sum "p_number_data_point list" int bool
  | P_Histogram "p_histogram_data_point list" int
  | P_ExponentialHistogram "p_exp_data_point list" int

record p_metric =
  pm_name :: rust_string
  pm_description :: rust_string
  pm_unit :: rust_string
  pm_metadata :: "p_key_value list"
  pm_data :: "p_data option"

section \<open>Logs messages\<close>

record p_log_record =
  pl_time_unix_nano :: u64
  pl_observed_time_unix_nano :: u64
  pl_severity_number :: int
  pl_severity_text :: rust_string
  pl_body :: "p_any_value option"
  pl_attributes :: "p_key_value list"
  pl_dropped_attributes_count :: u32
  pl_flags :: u32
  pl_trace_id :: bytes
  pl_span_id :: bytes
  pl_event_name :: rust_string

section \<open>Trace messages\<close>

record p_span_event =
  pev_time_unix_nano :: u64
  pev_name :: rust_string
  pev_attributes :: "p_key_value list"
  pev_dropped_attributes_count :: u32

record p_span_link =
  pli_trace_id :: bytes
  pli_span_id :: bytes
  pli_trace_state :: rust_string
  pli_attributes :: "p_key_value list"
  pli_dropped_attributes_count :: u32
  pli_flags :: u32

record p_status =
  pst_message :: rust_string
  pst_code :: int

record p_span =
  ps_trace_id :: bytes
  ps_span_id :: bytes
  ps_trace_state :: rust_string
  ps_parent_span_id :: bytes
  ps_flags :: u32
  ps_name :: rust_string
  ps_kind :: int
  ps_start_time_unix_nano :: u64
  ps_end_time_unix_nano :: u64
  ps_attributes :: "p_key_value list"
  ps_dropped_attributes_count :: u32
  ps_events :: "p_span_event list"
  ps_dropped_events_count :: u32
  ps_links :: "p_span_link list"
  ps_dropped_links_count :: u32
  ps_status :: "p_status option"

section \<open>Export requests\<close>

text \<open>
  The three signals nest their items in the same two levels, \<open>ResourceMetrics\<close>/\<open>ScopeMetrics\<close>,
  \<open>ResourceLogs\<close>/\<open>ScopeLogs\<close> and \<open>ResourceSpans\<close>/\<open>ScopeSpans\<close>; \<open>'a\<close> is the item message.
\<close>

record 'a p_scope_items =
  psi_scope :: "p_scope option"
  psi_items :: "'a list"
  psi_schema_url :: rust_string

record 'a p_resource_items =
  pri_resource :: "p_resource option"
  pri_scopes :: "'a p_scope_items list"
  pri_schema_url :: rust_string

type_synonym 'a p_request = "'a p_resource_items list"

end
