(* ===== verification/Otlp_Encoder.thy ===== *)
theory Otlp_Encoder
  imports Otlp_Proto
begin

text \<open>
  The OTLP encoders of \<^verbatim>\<open>src/src/encoder/mod.rs\<close>: the conversion of each batch of the data model into
  the export request of its signal. The last step, prost's serialisation of that message, is not under
  \<^verbatim>\<open>src/\<close> and stays outside; the theorems are about the message.
\<close>

section \<open>Values\<close>

primrec convert_any_value :: "AnyValue \<Rightarrow> p_any_value" where
  "convert_any_value (StringV s) = P_AnyValue (Some (P_StringValue s))"
| "convert_any_value (BoolV b) = P_AnyValue (Some (P_BoolValue b))"
| "convert_any_value (IntV i) = P_AnyValue (Some (P_IntValue i))"
| "convert_any_value (DoubleV d) = P_AnyValue (Some (P_DoubleValue d))"
| "convert_any_value (BytesV b) = P_AnyValue (Some (P_BytesValue b))"
| "convert_any_value (ArrayV arr) = P_AnyValue (Some (P_ArrayValue (map convert_any_value arr)))"

definition convert_kv :: "KeyValue \<Rightarrow> p_key_value" where
  "convert_kv kv = P_KeyValue (kv_key kv) (Some (convert_any_value (kv_value kv)))"

section \<open>Metrics\<close>

primrec proto_temporality :: "AggregationTemporality \<Rightarrow> int" where
  "proto_temporality Temporality_Unspecified = 0"
| "proto_temporality Delta = 1"
| "proto_temporality Cumulative = 2"

definition convert_ndp :: "NumberDataPoint \<Rightarrow> p_number_data_point" where
  "convert_ndp dp =
     (let value = (case ndp_value dp of AsInt i \<Rightarrow> P_AsInt i | AsDouble d \<Rightarrow> P_AsDouble d)
      in \<lparr>pn_attributes = map convert_kv (ndp_attributes dp), pn_start_time_unix_nano = ndp_start_time_unix_nano dp,
          pn_time_unix_nano = ndp_time_unix_nano dp, pn_value = Some value, pn_exemplars = [], pn_flags = 0\<rparr>)"

definition convert_hdp :: "HistogramDataPoint \<Rightarrow> p_histogram_data_point option" where
  "convert_hdp dp =
     (let expected_counts = length (hdp_explicit_bounds dp) + 1
      in if length (hdp_bucket_counts dp) \<noteq> expected_counts then None
         else Some \<lparr>ph_attributes = map convert_kv (hdp_attributes dp), ph_start_time_unix_nano = hdp_start_time_unix_nano dp,
                ph_time_unix_nano = hdp_time_unix_nano dp, ph_count = hdp_count dp, ph_sum = Some (hdp_sum dp),
                ph_bucket_counts = hdp_bucket_counts dp, ph_explicit_bounds = hdp_explicit_bounds dp, ph_exemplars = [],
                ph_flags = 0, ph_min = None, ph_max = None\<rparr>)"

definition convert_exemplar :: "Exemplar \<Rightarrow> p_exemplar" where
  "convert_exemplar e =
     \<lparr>pe_filtered_attributes = map convert_kv (ex_filtered_attributes e), pe_time_unix_nano = ex_time_unix_nano e,
      pe_value = Some (P_AsDouble (ex_value e)), pe_span_id = (if ex_has_trace e then ex_span_id e else []),
      pe_trace_id = (if ex_has_trace e then ex_trace_id e else [])\<rparr>"

text \<open>The loop that pops trailing zero buckets.\<close>

function trim_zeros :: "u64 list \<Rightarrow> u64 list" where
  "trim_zeros bs = (if bs \<noteq> [] \<and> last bs = 0 then trim_zeros (butlast bs) else bs)"
  by pat_completeness auto
termination
  by (relation "measure length") auto

declare trim_zeros.simps [simp del]

definition convert_exp_hdp :: "ExponentialHistogramDataPoint \<Rightarrow> p_exp_data_point" where
  "convert_exp_hdp dp =
     \<lparr>px_attributes = map convert_kv (edp_attributes dp), px_start_time_unix_nano = edp_start_time_unix_nano dp,
      px_time_unix_nano = edp_time_unix_nano dp, px_count = edp_count dp, px_sum = Some (edp_sum dp), px_scale = edp_scale dp,
      px_zero_count = edp_zero_count dp,
      px_positive = Some \<lparr>pb_offset = edp_positive_offset dp, pb_bucket_counts = trim_zeros (edp_positive_bucket_counts dp)\<rparr>,
      px_negative = Some \<lparr>pb_offset = 0, pb_bucket_counts = []\<rparr>, px_flags = 0,
      px_exemplars = map convert_exemplar (edp_exemplars dp), px_min = None, px_max = None, px_zero_threshold = 0\<rparr>"

primrec convert_data :: "MetricData \<Rightarrow> p_data" where
  "convert_data (HistogramD t ps) = P_Histogram (List.map_filter convert_hdp ps) (proto_temporality t)"
| "convert_data (ExponentialHistogramD t ps) = P_ExponentialHistogram (map convert_exp_hdp ps) (proto_temporality t)"
| "convert_data (SumD t monotonic ps) = P_Sum (map convert_ndp ps) (proto_temporality t) monotonic"
| "convert_data (GaugeD ps) = P_Gauge (map convert_ndp ps)"

definition convert_metric :: "Metric \<Rightarrow> p_metric" where
  "convert_metric m =
     \<lparr>pm_name = metric_name m, pm_description = metric_description m, pm_unit = metric_unit m, pm_metadata = [],
      pm_data = Some (convert_data (metric_data m))\<rparr>"

section \<open>Logs and traces\<close>

definition convert_log_record :: "LogRecord \<Rightarrow> p_log_record" where
  "convert_log_record lr =
     \<lparr>pl_time_unix_nano = lr_time_unix_nano lr, pl_observed_time_unix_nano = lr_observed_time_unix_nano lr,
      pl_severity_number = severity_i32 (lr_severity_number lr), pl_severity_text = lr_severity_text lr,
      pl_body = Some (convert_any_value (lr_body lr)), pl_attributes = map convert_kv (lr_attributes lr),
      pl_dropped_attributes_count = 0, pl_flags = 0, pl_trace_id = lr_trace_id lr, pl_span_id = lr_span_id lr,
      pl_event_name = lr_event_name lr\<rparr>"

primrec span_kind_i32 :: "SpanKind \<Rightarrow> int" where
  "span_kind_i32 Kind_Unspecified = 0"
| "span_kind_i32 Internal = 1"
| "span_kind_i32 Server = 2"
| "span_kind_i32 Client = 3"
| "span_kind_i32 Producer = 4"
| "span_kind_i32 Consumer = 5"

primrec status_code_i32 :: "StatusCode \<Rightarrow> int" where
  "status_code_i32 Unset = 0"
| "status_code_i32 Status_Ok = 1"
| "status_code_i32 Status_Error = 2"

definition convert_span_status :: "SpanStatus \<Rightarrow> p_status" where
  "convert_span_status st = \<lparr>pst_message = status_message st, pst_code = status_code_i32 (status_code st)\<rparr>"

definition convert_span_event :: "SpanEvent \<Rightarrow> p_span_event" where
  "convert_span_event ev =
     \<lparr>pev_time_unix_nano = event_time_unix_nano ev, pev_name = event_name ev,
      pev_attributes = map convert_kv (event_attributes ev), pev_dropped_attributes_count = 0\<rparr>"

definition convert_span_link :: "SpanLink \<Rightarrow> p_span_link" where
  "convert_span_link link =
     \<lparr>pli_trace_id = link_trace_id link, pli_span_id = link_span_id link, pli_trace_state = [],
      pli_attributes = map convert_kv (link_attributes link), pli_dropped_attributes_count = 0, pli_flags = link_flags link\<rparr>"

definition convert_span :: "Span \<Rightarrow> p_span" where
  "convert_span sp =
     \<lparr>ps_trace_id = span_trace_id sp, ps_span_id = span_span_id sp, ps_trace_state = [],
      ps_parent_span_id = span_parent_span_id sp, ps_flags = span_flags sp, ps_name = span_name sp,
      ps_kind = span_kind_i32 (span_kind sp), ps_start_time_unix_nano = span_start_time_unix_nano sp,
      ps_end_time_unix_nano = span_end_time_unix_nano sp, ps_attributes = map convert_kv (span_attributes sp),
      ps_dropped_attributes_count = 0, ps_events = map convert_span_event (span_events sp), ps_dropped_events_count = 0,
      ps_links = map convert_span_link (span_links sp), ps_dropped_links_count = 0,
      ps_status = Some (convert_span_status (span_status sp))\<rparr>"

section \<open>Requests\<close>

definition export_request :: "Resource \<Rightarrow> Scope \<Rightarrow> 'a list \<Rightarrow> 'a p_request" where
  "export_request res sc items =
     [\<lparr>pri_resource = Some \<lparr>pr_attributes = map convert_kv (res_attributes res), pr_dropped_attributes_count = 0\<rparr>,
       pri_scopes =
         [\<lparr>psi_scope = Some \<lparr>psc_name = scope_name sc, psc_version = scope_version sc, psc_attributes = [],
             psc_dropped_attributes_count = 0\<rparr>,
           psi_items = items, psi_schema_url = []\<rparr>],
       pri_schema_url = []\<rparr>]"

definition metrics_request :: "Batch \<Rightarrow> p_metric p_request" where
  "metrics_request b = export_request (batch_resource b) (batch_scope b) (map convert_metric (batch_metrics b))"

definition logs_request :: "LogsBatch \<Rightarrow> p_log_record p_request" where
  "logs_request b = export_request (logs_resource b) (logs_scope b) (map convert_log_record (logs_logs b))"

definition spans_request :: "SpansBatch \<Rightarrow> p_span p_request" where
  "spans_request b = export_request (spans_resource b) (spans_scope b) (map convert_span (spans_spans b))"

section \<open>Injectivity of the conversions\<close>

lemma convert_any_value_inject [simp]: "convert_any_value a = convert_any_value b \<longleftrightarrow> a = b"
proof (induction a arbitrary: b)
  case (ArrayV xs)
  have "map convert_any_value xs = map convert_any_value ys \<longleftrightarrow> xs = ys" for ys
    using ArrayV by (metis list.inj_map_strong)
  then show ?case
    by (cases b) simp_all
qed (case_tac [!] b, simp_all)

lemma convert_kv_inject [simp]: "convert_kv a = convert_kv b \<longleftrightarrow> a = b"
  by (cases a; cases b) (simp add: convert_kv_def)

lemma map_inject: "(\<And>x y. f x = f y \<longleftrightarrow> x = y) \<Longrightarrow> map f xs = map f ys \<longleftrightarrow> xs = ys"
  by (metis list.inj_map_strong)

lemmas map_convert_kv_inject [simp] = map_inject [of convert_kv, OF convert_kv_inject]

lemma severity_i32_inject [simp]: "severity_i32 a = severity_i32 b \<longleftrightarrow> a = b"
  by (cases a; cases b; simp)

lemma span_kind_i32_inject [simp]: "span_kind_i32 a = span_kind_i32 b \<longleftrightarrow> a = b"
  by (cases a; cases b; simp)

lemma status_code_i32_inject [simp]: "status_code_i32 a = status_code_i32 b \<longleftrightarrow> a = b"
  by (cases a; cases b; simp)

lemma proto_temporality_inject [simp]: "proto_temporality a = proto_temporality b \<longleftrightarrow> a = b"
  by (cases a; cases b; simp)

lemma convert_log_record_inject: "convert_log_record a = convert_log_record b \<longleftrightarrow> a = b"
  by (cases a; cases b) (auto simp: convert_log_record_def)

lemma convert_span_status_inject [simp]: "convert_span_status a = convert_span_status b \<longleftrightarrow> a = b"
  by (cases a; cases b) (auto simp: convert_span_status_def)

lemma convert_span_event_inject: "convert_span_event a = convert_span_event b \<longleftrightarrow> a = b"
  by (cases a; cases b) (auto simp: convert_span_event_def)

lemma convert_span_link_inject: "convert_span_link a = convert_span_link b \<longleftrightarrow> a = b"
  by (cases a; cases b) (auto simp: convert_span_link_def)

lemmas map_convert_inject [simp] =
  map_inject [of convert_span_event, OF convert_span_event_inject]
  map_inject [of convert_span_link, OF convert_span_link_inject]

lemma convert_span_inject: "convert_span a = convert_span b \<longleftrightarrow> a = b"
  by (cases a; cases b) (auto simp: convert_span_def)

lemma export_request_inject [simp]:
  "export_request r s xs = export_request r' s' ys \<longleftrightarrow> r = r' \<and> s = s' \<and> xs = ys"
  by (cases r; cases r'; cases s; cases s') (auto simp: export_request_def)

section \<open>Metrics on well-formed data\<close>

text \<open>
  \<open>encodable\<close>: what the conversion of metric data relies on. An explicit histogram has one count more
  than bounds, else its point is skipped; the buckets of an exponential histogram come in a fixed number,
  so that trailing zeros can be left out; an exemplar has a trace.
\<close>

definition exp_encodable :: "ExponentialHistogramDataPoint \<Rightarrow> bool" where
  "exp_encodable p \<longleftrightarrow> length (edp_positive_bucket_counts p) = 192 \<and> (\<forall>e\<in>set (edp_exemplars p). ex_has_trace e)"

primrec encodable :: "MetricData \<Rightarrow> bool" where
  "encodable (HistogramD t ps) \<longleftrightarrow> (\<forall>p\<in>set ps. length (hdp_bucket_counts p) = length (hdp_explicit_bounds p) + 1)"
| "encodable (ExponentialHistogramD t ps) \<longleftrightarrow> (\<forall>p\<in>set ps. exp_encodable p)"
| "encodable (SumD t monotonic ps) \<longleftrightarrow> True"
| "encodable (GaugeD ps) \<longleftrightarrow> True"

primrec data_points :: "MetricData \<Rightarrow> nat" where
  "data_points (HistogramD t ps) = length ps"
| "data_points (ExponentialHistogramD t ps) = length ps"
| "data_points (SumD t monotonic ps) = length ps"
| "data_points (GaugeD ps) = length ps"

primrec p_data_points :: "p_data \<Rightarrow> nat" where
  "p_data_points (P_Gauge ps) = length ps"
| "p_data_points (P_Sum ps t monotonic) = length ps"
| "p_data_points (P_Histogram ps t) = length ps"
| "p_data_points (P_ExponentialHistogram ps t) = length ps"

lemma trim_zeros_replicate: "\<exists>k. bs = trim_zeros bs @ replicate k 0"
proof (induction bs rule: trim_zeros.induct)
  case (1 bs)
  show ?case
  proof (cases "bs \<noteq> [] \<and> last bs = 0")
    case True
    then obtain k where "butlast bs = trim_zeros (butlast bs) @ replicate k 0"
      using 1 by blast
    then have "bs = trim_zeros (butlast bs) @ replicate (Suc k) 0"
      using True by (metis append_assoc append_butlast_last_id replicate_append_same replicate_Suc)
    moreover have "trim_zeros bs = trim_zeros (butlast bs)"
      using True by (subst trim_zeros.simps) simp
    ultimately show ?thesis
      by metis
  next
    case False
    then have "trim_zeros bs = bs"
      by (subst trim_zeros.simps) (simp only: if_False)
    then show ?thesis
      by (intro exI [of _ 0]) simp
  qed
qed

lemma trim_zeros_inject:
  assumes "length xs = length ys" shows "trim_zeros xs = trim_zeros ys \<longleftrightarrow> xs = ys"
proof
  assume eq: "trim_zeros xs = trim_zeros ys"
  obtain k k' where "xs = trim_zeros xs @ replicate k 0" "ys = trim_zeros ys @ replicate k' 0"
    using trim_zeros_replicate by blast
  with eq assms show "xs = ys"
    by (metis add_left_cancel length_append length_replicate)
qed simp

lemma convert_ndp_inject: "convert_ndp a = convert_ndp b \<longleftrightarrow> a = b"
  by (cases a; cases b) (auto simp: convert_ndp_def split: NumberValue.splits)

lemma convert_hdp_inject:
  "convert_hdp a \<noteq> None \<Longrightarrow> convert_hdp a = convert_hdp b \<longleftrightarrow> a = b"
  by (cases a; cases b) (auto simp: convert_hdp_def Let_def split: if_splits)

lemma convert_exemplar_inject:
  "ex_has_trace a \<Longrightarrow> ex_has_trace b \<Longrightarrow> convert_exemplar a = convert_exemplar b \<longleftrightarrow> a = b"
  by (cases a; cases b) (auto simp: convert_exemplar_def)

lemma map_inject_on:
  assumes "\<forall>x\<in>set xs. P x" "\<forall>y\<in>set ys. P y" "\<And>x y. P x \<Longrightarrow> P y \<Longrightarrow> f x = f y \<longleftrightarrow> x = y"
  shows "map f xs = map f ys \<longleftrightarrow> xs = ys"
  using assms by (metis list.inj_map_strong)

lemma convert_exp_hdp_inject:
  assumes "exp_encodable a" "exp_encodable b"
  shows "convert_exp_hdp a = convert_exp_hdp b \<longleftrightarrow> a = b"
proof -
  have "map convert_exemplar (edp_exemplars a) = map convert_exemplar (edp_exemplars b) \<longleftrightarrow> edp_exemplars a = edp_exemplars b"
    using assms by (intro map_inject_on [of _ ex_has_trace] convert_exemplar_inject) (simp_all add: exp_encodable_def)
  moreover have "trim_zeros (edp_positive_bucket_counts a) = trim_zeros (edp_positive_bucket_counts b) \<longleftrightarrow>
      edp_positive_bucket_counts a = edp_positive_bucket_counts b"
    using assms by (intro trim_zeros_inject) (simp add: exp_encodable_def)
  ultimately show ?thesis
    by (cases a; cases b) (auto simp: convert_exp_hdp_def)
qed

lemma map_filter_total:
  "\<forall>x\<in>set xs. f x \<noteq> None \<Longrightarrow> List.map_filter f xs = map (\<lambda>x. the (f x)) xs"
  by (induction xs) (auto simp: List.map_filter_simps)

lemma convert_hdp_encodable:
  assumes "encodable (HistogramD t ps)" shows "\<forall>p\<in>set ps. convert_hdp p \<noteq> None"
  using assms by (simp add: convert_hdp_def Let_def)

lemma encodable_keeps_points: "encodable d \<Longrightarrow> p_data_points (convert_data d) = data_points d"
proof (induction d)
  case (HistogramD t ps)
  then show ?case
    using map_filter_total [OF convert_hdp_encodable] by simp
qed simp_all

lemma convert_data_inject:
  assumes "encodable a" "encodable b"
  shows "convert_data a = convert_data b \<longleftrightarrow> a = b"
proof (cases a; cases b)
  fix t ps t' ps' assume ab: "a = HistogramD t ps" "b = HistogramD t' ps'"
  have total: "\<forall>p\<in>set ps. convert_hdp p \<noteq> None" "\<forall>p\<in>set ps'. convert_hdp p \<noteq> None"
    using assms convert_hdp_encodable unfolding ab by blast+
  then have "map (\<lambda>p. the (convert_hdp p)) ps = map (\<lambda>p. the (convert_hdp p)) ps' \<longleftrightarrow> ps = ps'"
    by (rule map_inject_on) (metis convert_hdp_inject option.expand)
  with total show ?thesis
    unfolding ab by (auto simp: map_filter_total)
next
  fix t ps t' ps' assume ab: "a = ExponentialHistogramD t ps" "b = ExponentialHistogramD t' ps'"
  have "map convert_exp_hdp ps = map convert_exp_hdp ps' \<longleftrightarrow> ps = ps'"
    using assms unfolding ab by (intro map_inject_on [of _ exp_encodable] convert_exp_hdp_inject) simp_all
  then show ?thesis
    unfolding ab by auto
qed (auto simp: map_inject [of convert_ndp, OF convert_ndp_inject])

lemma convert_metric_inject:
  "encodable (metric_data a) \<Longrightarrow> encodable (metric_data b) \<Longrightarrow> convert_metric a = convert_metric b \<longleftrightarrow> a = b"
  using convert_data_inject by (cases a; cases b) (auto simp: convert_metric_def)

section \<open>Property\<close>


definition demo_batch :: "u64 \<Rightarrow> Batch" where
  "demo_batch n =
     \<lparr>batch_resource = \<lparr>res_attributes = [KV ''service.name'' (StringV (lit ''nginx''))]\<rparr>,
      batch_scope = \<lparr>scope_name = [], scope_version = []\<rparr>,
      batch_metrics =
        [\<lparr>metric_name = lit ''h'', metric_description = [], metric_unit = [],
          metric_data = HistogramD Cumulative
            [\<lparr>hdp_attributes = [], hdp_start_time_unix_nano = 0, hdp_time_unix_nano = 1, hdp_count = 1, hdp_sum = 1 / 2,
              hdp_bucket_counts = [1, 0], hdp_explicit_bounds = [1]\<rparr>]\<rparr>,
         \<lparr>metric_name = lit ''e'', metric_description = [], metric_unit = [],
          metric_data = ExponentialHistogramD Cumulative
            [\<lparr>edp_attributes = [], edp_start_time_unix_nano = 0, edp_time_unix_nano = 1, edp_count = n, edp_sum = 1,
              edp_scale = 3, edp_zero_count = 0, edp_positive_offset = - 160,
              edp_positive_bucket_counts = replicate 191 0 @ [n], edp_exemplars = []\<rparr>]\<rparr>]\<rparr>"


end
