(* ===== verification/Metric_Batch.thy ===== *)
theory Metric_Batch
  imports Instrumented_Source Otlp_Encoder
begin

text \<open>
  The shape of a metrics batch: what the OpenTelemetry data model asks of its points, shown of every batch
  \<open>collect_all_sources\<close> assembles.
\<close>

section \<open>Well-formed metrics\<close>

definition number_ok :: "bool \<Rightarrow> u64 \<Rightarrow> NumberDataPoint \<Rightarrow> bool" where
  "number_ok monotonic start p \<longleftrightarrow>
     ndp_start_time_unix_nano p = start \<and>
     (case ndp_value p of AsInt v \<Rightarrow> monotonic \<longrightarrow> 0 \<le> sint v | AsDouble _ \<Rightarrow> False)"

definition histogram_ok :: "u64 \<Rightarrow> HistogramDataPoint \<Rightarrow> bool" where
  "histogram_ok start p \<longleftrightarrow>
     hdp_start_time_unix_nano p = start \<and> length (hdp_bucket_counts p) = Suc (length (hdp_explicit_bounds p)) \<and>
     sorted_wrt (<) (hdp_explicit_bounds p)"

definition exp_histogram_ok :: "u64 \<Rightarrow> ExponentialHistogramDataPoint \<Rightarrow> bool" where
  "exp_histogram_ok start p \<longleftrightarrow>
     edp_start_time_unix_nano p = start \<and> edp_scale p = 3 \<and> edp_positive_offset p = - 160 \<and>
     length (edp_positive_bucket_counts p) = 192"

primrec data_ok :: "u64 \<Rightarrow> MetricData \<Rightarrow> bool" where
  "data_ok start (HistogramD t ps) \<longleftrightarrow> t = Cumulative \<and> (\<forall>p\<in>set ps. histogram_ok start p)"
| "data_ok start (ExponentialHistogramD t ps) \<longleftrightarrow> t = Cumulative \<and> (\<forall>p\<in>set ps. exp_histogram_ok start p)"
| "data_ok start (SumD t monotonic ps) \<longleftrightarrow> t = Cumulative \<and> monotonic \<and> (\<forall>p\<in>set ps. number_ok True start p)"
| "data_ok start (GaugeD ps) \<longleftrightarrow> ps \<noteq> [] \<and> (\<forall>p\<in>set ps. number_ok False 0 p)"

definition slot_shape :: "WorkerSlots \<Rightarrow> bool" where
  "slot_shape ws \<longleftrightarrow>
     (\<forall>h\<in>{ws_request_body_bytes ws, ws_response_body_bytes ws, ws_upstream_bytes_received ws, ws_upstream_bytes_sent ws}.
        length (hg_bucket h) = N_BYTES_BUCKETS) \<and>
     (\<forall>h\<in>{ws_upstream_response_ms ws, ws_upstream_header_ms ws, ws_upstream_connect_ms ws}.
        length (hg_bucket h) = N_DURATION_BUCKETS) \<and>
     length (ws_error_rate_counters ws) = N_SEVERITY_CLASSES"

definition stats_fit :: "ngx_stats \<Rightarrow> bool" where
  "stats_fit st \<longleftrightarrow> (\<forall>v\<in>{stat_accepted st, stat_handled st, stat_requests st}. v \<le> I64_MAX)"

section \<open>Shapes of the aggregates\<close>

definition exps_shape :: "nat \<Rightarrow> exp_snap list \<Rightarrow> bool" where
  "exps_shape n es \<longleftrightarrow> length es = n \<and> (\<forall>e\<in>set es. length (fst e) = 192)"

definition agg_shape :: "WorkerAgg \<Rightarrow> bool" where
  "agg_shape agg \<longleftrightarrow>
     exps_shape N_COMBOS (wa_combo agg) \<and> exps_shape N_ROUTE_SLOTS (wa_route agg) \<and>
     exps_shape N_UPSTREAM_SLOTS (wa_upstream agg) \<and>
     (\<forall>h\<in>{wa_req_bytes agg, wa_resp_bytes agg, wa_up_bytes agg, wa_up_bytes_sent agg}. length (fst h) = N_BYTES_BUCKETS) \<and>
     (\<forall>h\<in>{wa_up_resp agg, wa_up_hdr agg, wa_up_conn agg}. length (fst h) = N_DURATION_BUCKETS)"

lemma length_exp_snapshot: "length (fst (exp_snapshot s)) = 192"
  by (simp add: exp_snapshot_def exp_snapshot_at_def N_EXP_BUCKETS_def Let_def)

lemma length_hist_snapshot: "length (fst (hist_snapshot h)) = length (hg_bucket h)"
  by (simp add: hist_snapshot_def hist_snapshot_at_def Let_def)

lemma length_add_exp: "length (fst (add_exp a s)) = min (length (fst a)) (length (fst s))"
  by (simp add: add_exp_def case_prod_beta)

lemma length_add_histogram: "length (fst (add_histogram a s)) = min (length (fst a)) (length (fst s))"
  by (simp add: add_histogram_def case_prod_beta)

lemma add_exps_shape: "exps_shape n es \<Longrightarrow> exps_shape n (add_exps n hs es)"
  by (simp add: exps_shape_def add_exps_def length_add_exp length_exp_snapshot)

lemma fold_add_slot_shape:
  "\<forall>ws\<in>set slots. slot_shape ws \<Longrightarrow> agg_shape agg \<Longrightarrow> agg_shape (fold add_slot slots agg)"
proof (induction slots arbitrary: agg)
  case (Cons ws slots)
  have "agg_shape (add_slot ws agg)"
    using Cons.prems unfolding agg_shape_def add_slot_def slot_shape_def
    by (simp add: add_exps_shape length_add_histogram length_hist_snapshot)
  with Cons show ?case
    by simp
qed simp

lemma zero_agg_shape: "agg_shape zero_agg"
  by (simp add: agg_shape_def zero_agg_def exps_shape_def zero_exp_def zero_hist_def N_EXP_BUCKETS_def)

lemma fold_add_exp_shape:
  "\<forall>e\<in>set es. length (fst e) = 192 \<Longrightarrow> length (fst a) = 192 \<Longrightarrow> length (fst (fold (\<lambda>s acc. add_exp acc s) es a)) = 192"
  by (induction es arbitrary: a) (simp_all add: length_add_exp)

lemma exp_point_ok: "length (fst a) = 192 \<Longrightarrow> exp_histogram_ok start (exp_point a attrs exs start now)"
  by (simp add: exp_point_def exp_histogram_ok_def EXP_HISTOGRAM_SCALE_def EXP_HISTOGRAM_BUCKET_OFFSET_def case_prod_beta)

lemma make_exp_dp_ok:
  "length (fst a) = 192 \<Longrightarrow> p \<in> set (opt_list (make_exp_dp a attrs exs start now)) \<Longrightarrow> exp_histogram_ok start p"
  using exp_point_ok by (auto simp: make_exp_dp_def opt_list_def case_prod_beta split: if_splits)

lemma combo_in_shape:
  "exps_shape N_COMBOS es \<Longrightarrow> length (fst (es ! combo_index m c p)) = 192"
  using combo_index_less by (simp add: exps_shape_def)

lemma points_ok:
  assumes "\<And>x. x \<in> set xs \<Longrightarrow> length (fst (a x)) = 192"
  shows "\<forall>p\<in>set (concat (map (\<lambda>x. opt_list (make_exp_dp (a x) (attrs x) (exs x) start now)) xs)). exp_histogram_ok start p"
  using make_exp_dp_ok [OF assms] by auto

lemma build_duration_ok:
  assumes "exps_shape N_COMBOS es"
  shows "data_ok start (metric_data (build_duration_metric enabled es exs start now))"
proof -
  have "\<forall>p\<in>set (combo_points es exs start now). exp_histogram_ok start p"
    unfolding combo_points_def Let_def set_concat set_map
    using points_ok [of _ "\<lambda>k. es ! combo_index _ _ (proto_from_index k)"] combo_in_shape [OF assms] make_exp_dp_ok
    by (elim UN_E imageE | intro ballI | simp only: set_concat set_map | blast)+
  moreover have "exp_histogram_ok start (exp_point (fold (\<lambda>s acc. add_exp acc s) es zero_exp) [] [] start now)"
    using assms by (intro exp_point_ok fold_add_exp_shape) (simp_all add: exps_shape_def zero_exp_def N_EXP_BUCKETS_def)
  ultimately show ?thesis
    by (simp add: build_duration_metric_def)
qed

lemma build_route_ok:
  "exps_shape N_ROUTE_SLOTS es \<Longrightarrow> data_ok start (metric_data (build_route_metric es routes start now))"
  unfolding build_route_metric_def Let_def Metric.select_convs data_ok.simps
  by (intro conjI refl points_ok) (simp add: exps_shape_def)

lemma build_upstream_ok:
  "exps_shape N_UPSTREAM_SLOTS es \<Longrightarrow> data_ok start (metric_data (build_upstream_duration_metric es ups start now))"
  unfolding build_upstream_duration_metric_def Let_def Metric.select_convs data_ok.simps
  by (intro conjI refl points_ok) (simp add: exps_shape_def)

lemma hist_metric_ok:
  "length (fst h) = Suc (length bounds) \<Longrightarrow> sorted_wrt (<) bounds \<Longrightarrow>
     data_ok start (metric_data (hist_metric_with_sum spec h tot bounds start now))"
  by (simp add: hist_metric_with_sum_def histogram_ok_def case_prod_beta)

lemma bounds_ok:
  "N_BYTES_BUCKETS = Suc (length (map (\<lambda>b. of_nat (unat b)) BYTES_BOUNDS :: f64 list))"
  "sorted_wrt (<) (map (\<lambda>b. of_nat (unat b)) BYTES_BOUNDS :: f64 list)"
  "N_DURATION_BUCKETS = Suc (length DURATION_BOUNDS_S)" "sorted_wrt (<) DURATION_BOUNDS_S"
  by (simp_all add: N_BYTES_BUCKETS_def BYTES_BOUNDS_def N_DURATION_BUCKETS_def DURATION_BOUNDS_S_def)

lemma build_metrics_ok:
  assumes "agg_shape agg"
  shows "\<forall>m\<in>set (build_metrics src now agg exs). data_ok (is_start src) (metric_data m)"
proof -
  have shape: "exps_shape N_COMBOS (wa_combo agg)" "exps_shape N_ROUTE_SLOTS (wa_route agg)"
    "exps_shape N_UPSTREAM_SLOTS (wa_upstream agg)"
    using assms by (simp_all add: agg_shape_def)
  have bytes: "data_ok start (metric_data (hist_metric spec h (map (\<lambda>b. of_nat (unat b)) BYTES_BOUNDS) start now))"
    if "h \<in> {wa_req_bytes agg, wa_resp_bytes agg, wa_up_bytes agg, wa_up_bytes_sent agg}" for h start spec
    unfolding hist_metric_def using assms that bounds_ok(1) by (intro hist_metric_ok bounds_ok(2)) (auto simp: agg_shape_def)
  have durations: "data_ok start (metric_data (hist_metric_with_sum spec h tot DURATION_BOUNDS_S start now))"
    if "h \<in> {wa_up_resp agg, wa_up_hdr agg, wa_up_conn agg}" for h start spec tot
    using assms that bounds_ok(3) by (intro hist_metric_ok bounds_ok(4)) (auto simp: agg_shape_def)
  show ?thesis
    unfolding build_metrics_def Let_def
    using shape by (simp add: build_duration_ok build_route_ok build_upstream_ok bytes durations del: of_nat_unat)
qed

section \<open>The scalar sources\<close>

lemma sum_metric_ok: "0 \<le> sint v \<Longrightarrow> data_ok start (metric_data (monotonic_sum_metric name desc unit v start now))"
  by (simp add: monotonic_sum_metric_def number_point_def number_ok_def)

lemma gauge_metric_ok: "data_ok start (metric_data (gauge_metric name desc unit v now))"
  by (simp add: gauge_metric_def number_point_def number_ok_def)

lemma counter_nonneg: "0 \<le> sint (counter_to_i64 v)"
  by (simp add: sint_counter)

lemma self_metrics_ok: "\<forall>m\<in>set (self_metrics_collect interval start now c). data_ok start (metric_data m)"
  unfolding self_metrics_collect_def list.set ball_simps
  by (intro conjI TrueI sum_metric_ok gauge_metric_ok counter_nonneg)

lemma stub_status_ok:
  assumes "stats_fit st"
  shows "\<forall>m\<in>set (stub_status_collect start now st). data_ok start (metric_data m)"
proof -
  have "0 \<le> sint v" if "v \<in> {stat_accepted st, stat_handled st, stat_requests st}" for v
    using assms that sint_small [of v] by (auto simp: stats_fit_def)
  then show ?thesis
    unfolding stub_status_collect_def list.set ball_simps
    by (intro conjI TrueI sum_metric_ok gauge_metric_ok) simp_all
qed

lemma certs_ok: "\<forall>m\<in>set (serving_cert_collect_at certs secs now). data_ok start (metric_data m)"
  by (auto simp: serving_cert_collect_at_def cert_gauge_def number_ok_def number_point_def Let_def)

lemma collector_cert_ok: "data_ok start (metric_data (collector_cert_gauge v now host))"
  by (simp add: collector_cert_gauge_def number_ok_def number_point_def)

lemma error_rate_ok:
  assumes "\<forall>ws\<in>set slots. slot_shape ws"
  shows "data_ok start (metric_data (collect_error_rate_metric slots start now))"
proof -
  have "0 \<le> sint (fold add_error_counters slots (replicate N_SEVERITY_CLASSES 0) ! i)" if "i < N_SEVERITY_CLASSES" for i
    using error_totals [OF _ _ that, of slots "replicate N_SEVERITY_CLASSES 0"] assms that
      sum_list_nonneg [of "map (\<lambda>ws. uint (ws_error_rate_counters ws ! i)) slots"]
    by (auto simp: slot_shape_def)
  then show ?thesis
    by (simp add: collect_error_rate_metric_def number_ok_def number_point_def Let_def)
qed

lemma reset_slot_shape: "slot_shape (reset_reservoirs ws) = slot_shape ws"
  by (simp add: slot_shape_def reset_reservoirs_def)

section \<open>Names\<close>

definition stub_names :: "rust_string list" where
  "stub_names = map metric_name (stub_status_collect 0 0
     \<lparr>stat_accepted = 0, stat_handled = 0, stat_requests = 0, stat_active = 0, stat_reading = 0, stat_writing = 0, stat_waiting = 0\<rparr>)"

definition self_names :: "rust_string list" where
  "self_names = map metric_name (self_metrics_collect 0 0 0
     \<lparr>DROPPED_RECORDS = 0, SEND_FAILURES = 0, BIDI_BACKPRESSURE_DROPS = 0, ACCESS_LOGS_DROPPED = 0, ERROR_LOGS_DROPPED = 0,
      ERROR_LOGS_COALESCED_ORPHANED = 0, LOGS_SEND_FAILURES = 0, TRACES_DROPPED_RECORDS = 0, TRACES_SEND_FAILURES = 0,
      PERMANENT_REJECTED = 0, PARTIAL_REJECTED = 0, UNAUTHORIZED_REJECTED = 0, EXPORTER_RESTARTS = 0\<rparr>)"

definition instrumented_names :: "rust_string list" where
  "instrumented_names =
     map lit [''http.server.request.duration'', ''nginx.http.request.duration.by_route'', ''nginx.http.request.duration.by_upstream'',
       ''http.server.request.body.size'', ''http.server.response.body.size'', ''nginx.upstream.response.duration'',
       ''nginx.upstream.header.duration'', ''nginx.upstream.connect.duration'', ''nginx.upstream.bytes.received'',
       ''nginx.upstream.bytes.sent'']"

definition cert_names :: "rust_string list" where
  "cert_names = map lit [''ngx_otel.tls.certificate.not_after'', ''ngx_otel.tls.certificate.not_before'',
     ''ngx_otel.tls.certificate.time_to_expiration'']"

lemmas scalar_metric_defs = monotonic_sum_metric_def gauge_metric_def

lemma source_names:
  "map metric_name (stub_status_collect start now st) = stub_names"
  "map metric_name (self_metrics_collect interval start now c) = self_names"
  "map metric_name (build_metrics src now agg exs) = instrumented_names"
  "map metric_name (serving_cert_collect_at certs secs now) = (if certs = [] then [] else cert_names)"
  by (simp_all add: stub_names_def stub_status_collect_def self_names_def self_metrics_collect_def
      scalar_metric_defs instrumented_names_def build_metrics_def build_duration_metric_def build_route_metric_def
      build_upstream_duration_metric_def hist_metric_def hist_metric_with_sum_def case_prod_beta cert_names_def
      serving_cert_collect_at_def cert_gauge_def Let_def)

lemma all_names_distinct:
  "distinct (stub_names @ instrumented_names @ self_names @ [lit ''ngx_otel.error_log.events''] @ cert_names @
     [lit ''ngx_otel.tls.collector_cert.not_after''])"
  by (simp add: stub_names_def stub_status_collect_def self_names_def self_metrics_collect_def
      scalar_metric_defs instrumented_names_def cert_names_def lit_def)

lemma batch_parts:
  "batch_metrics (fst (collect_all_sources rc mv zone)) =
     (case mv_stats mv of Some st \<Rightarrow> stub_status_collect (is_start (mv_source mv)) (mv_clock mv 0) st | None \<Rightarrow> []) @
     (case zone of Some slots \<Rightarrow> fst (instrumented_collect (mv_source mv) (mv_clock mv 1) slots) | None \<Rightarrow> []) @
     self_metrics_collect (mv_interval_ms mv) (is_start (mv_source mv)) (mv_clock mv 2) (mv_counters mv) @
     (if mv_error_log mv
      then (case zone of
              Some slots \<Rightarrow> [collect_error_rate_metric (snd (instrumented_collect (mv_source mv) (mv_clock mv 1) slots))
                 (is_start (mv_source mv)) (mv_clock mv 3)]
            | None \<Rightarrow> [])
      else []) @
     serving_cert_collect_at (mv_certs mv) (mv_wall_secs mv) (mv_clock mv 4) @
     (if mv_collector_not_after mv \<noteq> 0
      then [collector_cert_gauge (mv_collector_not_after mv) (mv_clock mv 5) (mv_collector_host mv)] else [])"
  by (cases zone) (simp_all add: collect_all_sources_def case_prod_beta Let_def)

lemma distinct_parts:
  assumes "distinct (A @ B @ S @ C @ D @ E)" "a \<in> {[], A}" "b \<in> {[], B}" "c \<in> {[], C}" "d \<in> {[], D}" "e \<in> {[], E}"
  shows "distinct (a @ b @ S @ c @ d @ e)"
proof -
  have "set a \<subseteq> set A" "set b \<subseteq> set B" "set c \<subseteq> set C" "set d \<subseteq> set D" "set e \<subseteq> set E"
    using assms(2-) by auto
  moreover have "distinct a" "distinct b" "distinct c" "distinct d" "distinct e"
    using assms by auto
  ultimately show ?thesis
    using assms(1) by (simp add: disjoint_iff) blast
qed

lemma optional_names:
  "map metric_name (case mv_stats mv of Some st \<Rightarrow> stub_status_collect start now st | None \<Rightarrow> []) \<in> {[], stub_names}"
  "map metric_name (case zone of Some slots \<Rightarrow> fst (instrumented_collect src now slots) | None \<Rightarrow> []) \<in> {[], instrumented_names}"
  "map metric_name (if el then (case zone of Some slots \<Rightarrow>
       [collect_error_rate_metric (snd (instrumented_collect src now slots)) start now'] | None \<Rightarrow> []) else [])
     \<in> {[], [lit ''ngx_otel.error_log.events'']}"
  "map metric_name (serving_cert_collect_at certs secs now) \<in> {[], cert_names}"
  "map metric_name (if v \<noteq> 0 then [collector_cert_gauge v now host] else [])
     \<in> {[], [lit ''ngx_otel.tls.collector_cert.not_after'']}"
proof -
  have "metric_name (collect_error_rate_metric slots start now') = lit ''ngx_otel.error_log.events''" for slots
    by (simp add: collect_error_rate_metric_def Let_def)
  then show "map metric_name (if el then (case zone of Some slots \<Rightarrow>
       [collect_error_rate_metric (snd (instrumented_collect src now slots)) start now'] | None \<Rightarrow> []) else [])
     \<in> {[], [lit ''ngx_otel.error_log.events'']}"
    by (cases zone; cases el) simp_all
  have "map metric_name (fst (instrumented_collect src now slots)) = instrumented_names" for slots
    by (simp add: instrumented_collect_def aggregate_worker_slots_def source_names)
  then show "map metric_name (case zone of Some slots \<Rightarrow> fst (instrumented_collect src now slots) | None \<Rightarrow> []) \<in> {[], instrumented_names}"
    by (cases zone) simp_all
  show "map metric_name (case mv_stats mv of Some st \<Rightarrow> stub_status_collect start now st | None \<Rightarrow> []) \<in> {[], stub_names}"
    by (cases "mv_stats mv") (simp_all add: source_names)
  show "map metric_name (serving_cert_collect_at certs secs now) \<in> {[], cert_names}"
    by (simp add: source_names)
  show "map metric_name (if v \<noteq> 0 then [collector_cert_gauge v now host] else [])
     \<in> {[], [lit ''ngx_otel.tls.collector_cert.not_after'']}"
    by (simp add: collector_cert_gauge_def)
qed

lemma batch_names_distinct: "distinct (map metric_name (batch_metrics (fst (collect_all_sources rc mv zone))))"
  unfolding batch_parts map_append source_names(2)
  by (rule distinct_parts [OF all_names_distinct optional_names])

section \<open>The whole batch\<close>

lemma collected_data_ok:
  assumes "\<forall>slots. zone = Some slots \<longrightarrow> (\<forall>ws\<in>set slots. slot_shape ws)"
    and "\<forall>st. mv_stats mv = Some st \<longrightarrow> stats_fit st"
  shows "\<forall>m\<in>set (batch_metrics (fst (collect_all_sources rc mv zone))). data_ok (is_start (mv_source mv)) (metric_data m)"
proof -
  let ?start = "is_start (mv_source mv)"
  have stub: "\<forall>m\<in>set (case mv_stats mv of Some st \<Rightarrow> stub_status_collect ?start (mv_clock mv 0) st | None \<Rightarrow> []).
      data_ok ?start (metric_data m)"
    using assms(2) stub_status_ok by (cases "mv_stats mv") simp_all
  have inst: "\<forall>m\<in>set (fst (instrumented_collect (mv_source mv) (mv_clock mv 1) slots)). data_ok ?start (metric_data m)"
    if "zone = Some slots" for slots
    using build_metrics_ok [OF fold_add_slot_shape [OF _ zero_agg_shape]] assms(1) that
    by (simp add: instrumented_collect_def aggregate_worker_slots_def)
  have err: "data_ok ?start (metric_data (collect_error_rate_metric
      (snd (instrumented_collect (mv_source mv) (mv_clock mv 1) slots)) ?start (mv_clock mv 3)))"
    if "zone = Some slots" for slots
    using assms(1) that
    by (intro error_rate_ok) (simp add: instrumented_collect_def aggregate_worker_slots_def reset_slot_shape)
  have "\<forall>m\<in>set (case zone of Some slots \<Rightarrow> fst (instrumented_collect (mv_source mv) (mv_clock mv 1) slots) | None \<Rightarrow> []).
      data_ok ?start (metric_data m)"
    using inst by (cases zone) simp_all
  moreover have "\<forall>m\<in>set (if mv_error_log mv then (case zone of Some slots \<Rightarrow> [collect_error_rate_metric
        (snd (instrumented_collect (mv_source mv) (mv_clock mv 1) slots)) ?start (mv_clock mv 3)] | None \<Rightarrow> []) else []).
      data_ok ?start (metric_data m)"
    by (cases zone; cases "mv_error_log mv"; simp only: option.case if_True if_False list.set ball_simps simp_thms err)
  moreover have "\<forall>m\<in>set (if mv_collector_not_after mv \<noteq> 0
      then [collector_cert_gauge (mv_collector_not_after mv) (mv_clock mv 5) (mv_collector_host mv)] else []).
      data_ok ?start (metric_data m)"
    using collector_cert_ok by simp
  ultimately show ?thesis
    unfolding batch_parts set_append ball_Un by (intro conjI stub self_metrics_ok certs_ok)
qed

lemma data_ok_keeps_points: "data_ok start d \<Longrightarrow> p_data_points (convert_data d) = data_points d"
proof (induction d)
  case (HistogramD t ps)
  then have "encodable (HistogramD t ps)"
    by (simp add: histogram_ok_def)
  then show ?case
    by (rule encodable_keeps_points)
qed simp_all

section \<open>Properties\<close>


definition demo_view :: metrics_view where
  "demo_view =
     \<lparr>mv_stats = Some \<lparr>stat_accepted = 3, stat_handled = 3, stat_requests = 7, stat_active = 1, stat_reading = 0, stat_writing = 1,
        stat_waiting = 0\<rparr>,
      mv_source = \<lparr>is_start = 5, is_status_code_class = True, is_conf = Some demo_log_conf\<rparr>, mv_interval_ms = 10000,
      mv_counters = \<lparr>DROPPED_RECORDS = 1, SEND_FAILURES = 0, BIDI_BACKPRESSURE_DROPS = 0, ACCESS_LOGS_DROPPED = 0,
        ERROR_LOGS_DROPPED = 0, ERROR_LOGS_COALESCED_ORPHANED = 0, LOGS_SEND_FAILURES = 0, TRACES_DROPPED_RECORDS = 0,
        TRACES_SEND_FAILURES = 0, PERMANENT_REJECTED = 0, PARTIAL_REJECTED = 0, UNAUTHORIZED_REJECTED = 0, EXPORTER_RESTARTS = 0\<rparr>,
      mv_error_log = True, mv_certs = [], mv_collector_not_after = 0, mv_collector_host = [], mv_clock = (\<lambda>_. 9),
      mv_wall_secs = 1\<rparr>"


end
