(* ===== verification/Spec2Isabelle.thy ===== *)
theory Spec2Isabelle
  imports Module_Lifecycle Conn_Io Export_Liveness Metric_History Metric_Batch Span_Start Histogram Retry_Wait
begin

text \<open>
  Verification of ngx-otel-rust, an nginx module that exports metrics, logs and traces over OTLP. The source is under
  \<^verbatim>\<open>src/src\<close>; only the production build is modelled, without the directives and hooks of test builds.

  \<^bold>\<open>The program and its parts.\<close> The configuration is parsed in the master. Each worker measures the requests it handles
  and writes into shared memory: counters and histograms into its block of the metrics zone, access, error and span
  records into its rings. One exporter process, forked by the master, pops the rings, snapshots the metrics, and sends
  batches to a collector, with one retry lane per signal. A control zone carries heartbeats, crash counts and the
  generation by which an old exporter leaves the rings to its successor on a reload.

  \<^bold>\<open>Foundations.\<close>
  \<^item> \<open>Otel_Prelude\<close>: machine words, Rust's saturating and checked arithmetic, big-endian bytes, decimal printing. A Rust
    string is its list of UTF-8 bytes; an \<open>f64\<close> is an exact rational, so rounding is not modelled.
  \<^item> \<open>Otel_Data_Model\<close> (\<^verbatim>\<open>data_model/mod.rs\<close>, \<^verbatim>\<open>logs/severity.rs\<close>), \<open>Utf8_Lossy\<close> (\<open>from_utf8_lossy\<close>),
    \<open>Wire_Buffer\<close> (the bounded writer and the reader of the records), \<open>Request_Dims\<close> (the closed dimensions of
    \<^verbatim>\<open>shm/mod.rs\<close>).

  \<^bold>\<open>Shared memory.\<close>
  \<^item> \<open>Signal_Ring\<close> (\<^verbatim>\<open>logs/ring.rs\<close>): push and pop on the bytes of the ring. The locale \<open>record_queue\<close> is the contract of
    a bounded queue; the ring meets it, and every history of pushes and pops is one of a queue (C13).
    \<open>Ring_Stream\<close> has the locale of a typed stream over a queue, met by the access and the span records.
  \<^item> \<open>Histogram\<close>, \<open>Exemplar_Reservoir\<close>, \<open>Worker_Slots\<close>, \<open>Zone_Layout\<close>, \<open>Route_Tables\<close> (\<^verbatim>\<open>shm\<close>, \<^verbatim>\<open>config/mod.rs\<close>,
    \<open>check_zone_sizing\<close> of \<^verbatim>\<open>lib.rs\<close>): the bucket search is the base-2 exponential one (C29), a racing snapshot covers its
    count (C31), exemplars are requests (C20), accepted zones make every slot access in bounds (C9), a reload keeps the
    queues (C10), routes get the right slots (C21).

  \<^bold>\<open>Workers.\<close>
  \<^item> \<open>Trace_Context\<close>, \<open>Span_Start\<close> (\<^verbatim>\<open>traces/ctx.rs\<close>, \<^verbatim>\<open>metric_source/span_start.rs\<close>): header codec (C33), the rewrite-phase
    handler (C34) and the header for the upstream (C35).
  \<^item> \<open>Access_Record\<close>, \<open>Span_Record\<close>, \<open>Error_Record\<close> (\<^verbatim>\<open>logs/access.rs\<close>, \<^verbatim>\<open>traces/mod.rs\<close>, \<^verbatim>\<open>logs/error_writer.rs\<close> and the
    parsers of \<^verbatim>\<open>drain/mod.rs\<close>): round trips (C23, C24), decoders that never panic (C27), accounting (C40).
  \<^item> \<open>Stable_Core\<close>, \<open>Coalesce_Table\<close>, \<open>Coalesce_Interval\<close> (\<^verbatim>\<open>logs/coalesce.rs\<close>): the table refines a bounded finite map
    (C37), counts are conserved (C38) and reported (C17).
  \<^item> \<open>Log_Phase\<close> (\<^verbatim>\<open>metric_source/instrumented.rs\<close>): the handler that runs once per request.

  \<^bold>\<open>Exporter.\<close>
  \<^item> \<open>Log_Collect\<close>, \<open>Metric_Sources\<close>, \<open>Instrumented_Source\<close> (\<^verbatim>\<open>drain/mod.rs\<close>, \<^verbatim>\<open>drain/self_metrics.rs\<close>,
    \<^verbatim>\<open>metric_source\<close>): the collectors. \<open>Request_Export\<close>, \<open>Metric_Totals\<close>, \<open>Metric_History\<close> and \<open>Metric_Batch\<close> compose them
    with the workers: in any interleaving of requests and exports, records reach batches once and in order (C5), exported
    totals are exactly those of the requests handled so far (C7), batches are well formed (C8), and the query string of a
    request shows in spans only (C14). The locale \<open>additive_summary\<close> is what both histograms promise of adding workers.
  \<^item> \<open>Otlp_Proto\<close>, \<open>Otlp_Encoder\<close> (\<^verbatim>\<open>src/proto\<close>, \<^verbatim>\<open>encoder/mod.rs\<close>): no information of a batch is lost (C15).
  \<^item> \<open>Http_Date\<close>, \<open>Delivery\<close>, \<open>Retry_Lane\<close>, \<open>Retry_Wait\<close> (\<^verbatim>\<open>transport\<close>, \<^verbatim>\<open>drain/backoff.rs\<close>): verdicts and retries; a lane
    conserves its records (C6) and its optimised pass is the plain one (C26); see also C28, C30 and C32.
  \<^item> \<open>Ip_Address\<close>, \<open>Conn_Io\<close> (\<^verbatim>\<open>transport/hyper_http.rs\<close>): the connections, with the fallback over resolved addresses; none
    leaks, none is closed twice, and no received byte is lost (C11).
  \<^item> \<open>Exporter_Control\<close>, \<open>Export_Pipeline\<close>, \<open>Export_Loop\<close>, \<open>Export_Liveness\<close> (\<^verbatim>\<open>exporter\<close>, \<^verbatim>\<open>liveness.rs\<close>,
    \<^verbatim>\<open>processor/mod.rs\<close>, \<^verbatim>\<open>drain\<close>): crash loops and alerts (C18, C19); the loop returns after a signal (C1), accounts for
    every record (C2), never pops after a successor is announced (C3) and sleeps in chunks (C22). The locale
    \<open>tick_invariant\<close> lifts a property kept by every tick to the loop.

  \<^bold>\<open>Configuration and hooks.\<close>
  \<^item> \<open>Config_Parse\<close>, \<open>Config_Directives\<close>, \<open>Endpoint\<close>, \<open>Post_Config\<close> (\<^verbatim>\<open>config\<close>, the endpoint parser of
    \<^verbatim>\<open>transport/hyper_http.rs\<close>): values (C25), the exporter block (C16), and what an accepted configuration guarantees
    (C12).
  \<^item> \<open>Module_Lifecycle\<close> (\<^verbatim>\<open>lib.rs\<close>): the hooks of master and workers, and the \<open>$otel_\<close> variables. Across reloads and failed
    forks the newest exporter alone owns the rings (C4); the variables show the request's span (C36).

  \<^bold>\<open>State, errors and time.\<close> Operations pass their state explicitly. A Rust panic is the outcome \<open>Panic\<close>, errors are values of
  a sum or option type. What nginx, the operating system, the network, OpenSSL and the random generator answer is an
  argument of the definitions, gathered in environment records. Atomic counters are words that wrap; a snapshot that races
  with a worker is given one moment per read.

  \<^bold>\<open>Bounds and fuel.\<close> \<open>export_loop\<close>, which runs until a signal, has a fuel of iterations: C1 shows that any fuel above the
  number of sleeps before the signal suffices. All other loops are total functions. Hypotheses on the number of events,
  such as fewer than \<open>2 ^ 64\<close> reloads, exclude the wrap-around of a 64-bit counter.

  \<^bold>\<open>Not modelled.\<close>
  \<^item> The HTTP exchange (\<open>HyperHttpTransport\<close> and \<open>http_post_raw\<close> of \<^verbatim>\<open>transport/hyper_http.rs\<close>), the TLS stream
    (\<^verbatim>\<open>transport/tls.rs\<close>) and \<^verbatim>\<open>transport/grpc\<close> except the mapping of statuses: they drive hyper, OpenSSL and tonic, and a
    send is one answer of the export loop's environment.
  \<^item> The reading of certificates (\<^verbatim>\<open>cert_table.rs\<close>): calls into OpenSSL and C shims; the table is data here.
  \<^item> The set-up of the exporter process (\<open>otel_exporter_cycle\<close> apart from the crash-loop check, the heartbeat and the drain
    backstop): signals, privileges, channels and the event loop.
  \<^item> \<^verbatim>\<open>log.rs\<close> and \<^verbatim>\<open>shim\<close> (macros and accessors over nginx's C structures), the text of log messages, the build script,
    test builds, and the tests.
\<close>

end
